(* ===== verification/Prelude.thy ===== *)
theory Prelude
  imports Main
begin

text \<open>
  Shared vocabulary of the development.

  A Rust \<open>String\<close> / \<open>&str\<close> is its UTF-8 byte sequence, represented by the HOL type
  \<open>string\<close> (one \<open>char\<close> per byte): \<open>len()\<close> is \<open>length\<close>, comparison is byte-wise, and the
  scalar-value operations the code uses (\<open>trim\<close>, \<open>lines\<close>, \<open>split\<close>, \<open>chars().map\<close>) are written
  here over the encoded bytes.  UTF-8 is self-synchronising, so recognising an encoded scalar
  value at either end of a valid string is the same as looking at its first or last scalar value.

  \<open>Result<T, E>\<close> is \<open>'e + 'a\<close> (\<open>Inl\<close> the error); \<open>and_then\<close> is the \<open>?\<close> operator.
  \<open>i64\<close> values are \<open>int\<close> with the saturating operations of the standard library written out.
\<close>

named_theorems result_simps \<open>equations that evaluate the error plumbing\<close>
named_theorems str_simps \<open>equations that evaluate the string operations\<close>

section \<open>Results\<close>

definition and_then :: "'e + 'a \<Rightarrow> ('a \<Rightarrow> 'e + 'b) \<Rightarrow> 'e + 'b" where
  "and_then r f = (case r of Inl e \<Rightarrow> Inl e | Inr x \<Rightarrow> f x)"

definition map_err :: "('e \<Rightarrow> 'f) \<Rightarrow> 'e + 'a \<Rightarrow> 'f + 'a" where
  "map_err g r = (case r of Inl e \<Rightarrow> Inl (g e) | Inr x \<Rightarrow> Inr x)"

definition is_ok :: "'e + 'a \<Rightarrow> bool" where
  "is_ok r = (case r of Inl _ \<Rightarrow> False | Inr _ \<Rightarrow> True)"

definition ok_or :: "'e \<Rightarrow> 'a option \<Rightarrow> 'e + 'a" where
  "ok_or e x = (case x of None \<Rightarrow> Inl e | Some v \<Rightarrow> Inr v)"

text \<open>\<open>iter().map(f).collect::<Result<Vec<_>, _>>()\<close>: stops at the first error.\<close>

primrec collect_results :: "('a \<Rightarrow> 'e + 'b) \<Rightarrow> 'a list \<Rightarrow> 'e + 'b list" where
  "collect_results f [] = Inr []"
| "collect_results f (x # xs) =
     and_then (f x) (\<lambda>y. and_then (collect_results f xs) (\<lambda>ys. Inr (y # ys)))"

lemma and_then_simps [simp, result_simps]:
  "and_then (Inl e) f = Inl e"
  "and_then (Inr x) f = f x"
  by (simp_all add: and_then_def)

lemma and_then_eq_Inr [simp]:
  "and_then r f = Inr y \<longleftrightarrow> (\<exists>x. r = Inr x \<and> f x = Inr y)"
  by (cases r) auto

lemma and_then_eq_Inl:
  "and_then r f = Inl e \<longleftrightarrow> r = Inl e \<or> (\<exists>x. r = Inr x \<and> f x = Inl e)"
  by (cases r) auto

lemma and_then_assoc:
  "and_then (and_then r f) g = and_then r (\<lambda>x. and_then (f x) g)"
  by (cases r) auto

lemma map_err_simps [simp, result_simps]:
  "map_err g (Inl e) = Inl (g e)"
  "map_err g (Inr x) = Inr x"
  by (simp_all add: map_err_def)

lemma map_err_eq_Inr [simp]: "map_err g r = Inr x \<longleftrightarrow> r = Inr x"
  by (cases r) auto

lemma is_ok_simps [simp, result_simps]:
  "is_ok (Inl e) = False"
  "is_ok (Inr x) = True"
  by (simp_all add: is_ok_def)

lemma is_ok_iff: "is_ok r \<longleftrightarrow> (\<exists>x. r = Inr x)"
  by (cases r) auto

lemma ok_or_simps [simp, result_simps]:
  "ok_or e None = Inl e"
  "ok_or e (Some v) = Inr v"
  by (simp_all add: ok_or_def)

lemma collect_results_Inr:
  "collect_results f xs = Inr ys \<longleftrightarrow> list_all2 (\<lambda>x y. f x = Inr y) xs ys"
  by (induction xs arbitrary: ys) (auto simp: list_all2_Cons1)

lemma collect_results_const:
  "(\<And>x. x \<in> set xs \<Longrightarrow> f x = Inr (g x)) \<Longrightarrow> collect_results f xs = Inr (map g xs)"
  by (induction xs) auto

section \<open>Lists\<close>

text \<open>\<open>last()\<close> and updates through \<open>last_mut()\<close>.\<close>

definition last_opt :: "'a list \<Rightarrow> 'a option" where
  "last_opt xs = (if xs = [] then None else Some (last xs))"

definition map_last :: "('a \<Rightarrow> 'a) \<Rightarrow> 'a list \<Rightarrow> 'a list" where
  "map_last f xs = (if xs = [] then [] else butlast xs @ [f (last xs)])"

text \<open>\<open>last().is_some_and(p)\<close>.\<close>

definition last_is :: "('a \<Rightarrow> bool) \<Rightarrow> 'a list \<Rightarrow> bool" where
  "last_is p xs \<longleftrightarrow> xs \<noteq> [] \<and> p (last xs)"

lemma last_opt_simps [simp]:
  "last_opt [] = None"
  "last_opt (xs @ [x]) = Some x"
  by (simp_all add: last_opt_def)

lemma last_opt_single [simp]: "last_opt [x] = Some x"
  by (simp add: last_opt_def)

lemma map_last_simps [simp]:
  "map_last f [] = []"
  "map_last f (xs @ [x]) = xs @ [f x]"
  by (simp_all add: map_last_def)

lemma map_last_single [simp]: "map_last f [x] = [f x]"
  by (simp add: map_last_def)

lemma last_is_simps [simp]:
  "\<not> last_is p []"
  "last_is p (xs @ [x]) = p x"
  by (simp_all add: last_is_def)

lemma last_is_single [simp]: "last_is p [x] = p x"
  by (simp add: last_is_def)

lemma map_last_eq_Nil [simp]: "map_last f xs = [] \<longleftrightarrow> xs = []"
  by (simp add: map_last_def)

lemma length_map_last [simp]: "length (map_last f xs) = length xs"
  by (simp add: map_last_def)

text \<open>\<open>Iterator::find_map\<close>.\<close>

fun find_map :: "('a \<Rightarrow> 'b option) \<Rightarrow> 'a list \<Rightarrow> 'b option" where
  "find_map f [] = None"
| "find_map f (x # xs) = (case f x of Some y \<Rightarrow> Some y | None \<Rightarrow> find_map f xs)"

lemma find_map_None: "find_map f xs = None \<longleftrightarrow> (\<forall>x \<in> set xs. f x = None)"
  by (induction xs) (auto split: option.splits)

lemma find_map_Some: "find_map f xs = Some y \<Longrightarrow> \<exists>x \<in> set xs. f x = Some y"
  by (induction xs) (auto split: option.splits)

lemma find_map_cong [fundef_cong]:
  "xs = ys \<Longrightarrow> (\<And>x. x \<in> set ys \<Longrightarrow> f x = g x) \<Longrightarrow> find_map f xs = find_map g ys"
  by (induction ys arbitrary: xs) (auto split: option.splits)

section \<open>Bytes and strings\<close>

abbreviation LF :: char where "LF \<equiv> CHR 0x0A"
abbreviation CR :: char where "CR \<equiv> CHR 0x0D"

definition byte :: "char \<Rightarrow> nat" where
  "byte c = of_char c"

definition is_ascii_digit :: "char \<Rightarrow> bool" where
  "is_ascii_digit c \<longleftrightarrow> 48 \<le> byte c \<and> byte c \<le> 57"

definition is_ascii_alphanumeric :: "char \<Rightarrow> bool" where
  "is_ascii_alphanumeric c \<longleftrightarrow>
     is_ascii_digit c \<or> (65 \<le> byte c \<and> byte c \<le> 90) \<or> (97 \<le> byte c \<and> byte c \<le> 122)"

definition to_ascii_lowercase :: "string \<Rightarrow> string" where
  "to_ascii_lowercase s =
     map (\<lambda>c. if 65 \<le> byte c \<and> byte c \<le> 90 then char_of (byte c + 32) else c) s"

fun starts_with :: "string \<Rightarrow> string \<Rightarrow> bool" where
  "starts_with s [] = True"
| "starts_with [] (p # ps) = False"
| "starts_with (c # s) (p # ps) = (c = p \<and> starts_with s ps)"

definition ends_with :: "string \<Rightarrow> string \<Rightarrow> bool" where
  "ends_with s p = starts_with (rev s) (rev p)"

definition strip_prefix :: "string \<Rightarrow> string \<Rightarrow> string option" where
  "strip_prefix p s = (if starts_with s p then Some (drop (length p) s) else None)"

definition strip_suffix :: "string \<Rightarrow> string \<Rightarrow> string option" where
  "strip_suffix p s = (if ends_with s p then Some (take (length s - length p) s) else None)"

fun str_contains :: "string \<Rightarrow> string \<Rightarrow> bool" where
  "str_contains [] p = (p = [])"
| "str_contains (c # s) p = (starts_with (c # s) p \<or> str_contains s p)"

fun split_on :: "char \<Rightarrow> string \<Rightarrow> string list" where
  "split_on d [] = [[]]"
| "split_on d (c # s) =
     (if c = d then [] # split_on d s
      else (case split_on d s of [] \<Rightarrow> [[c]] | l # ls \<Rightarrow> (c # l) # ls))"

fun join :: "string \<Rightarrow> string list \<Rightarrow> string" where
  "join sep [] = []"
| "join sep [x] = x"
| "join sep (x # y # xs) = x @ sep @ join sep (y # xs)"

text \<open>\<open>split_once(c)\<close> and \<open>rsplit_once(c)\<close>.\<close>

fun split_once :: "char \<Rightarrow> string \<Rightarrow> (string \<times> string) option" where
  "split_once d [] = None"
| "split_once d (c # s) =
     (if c = d then Some ([], s)
      else (case split_once d s of None \<Rightarrow> None | Some (l, r) \<Rightarrow> Some (c # l, r)))"

definition rsplit_once :: "char \<Rightarrow> string \<Rightarrow> (string \<times> string) option" where
  "rsplit_once d s = (case split_once d (rev s) of None \<Rightarrow> None | Some (l, r) \<Rightarrow> Some (rev r, rev l))"

text \<open>One trailing carriage return, as \<open>strip_suffix('\r').unwrap_or(line)\<close> removes it.\<close>

definition strip_cr :: "string \<Rightarrow> string" where
  "strip_cr s = (if s \<noteq> [] \<and> last s = CR then butlast s else s)"

text \<open>
  \<open>str::lines\<close>: every piece before a line feed loses the line feed and one carriage return before
  it; the piece after the last line feed is a line of its own unless it is empty.
\<close>

fun lines_of_pieces :: "string list \<Rightarrow> string list" where
  "lines_of_pieces [] = []"
| "lines_of_pieces [p] = (if p = [] then [] else [p])"
| "lines_of_pieces (p # q # ps) = strip_cr p # lines_of_pieces (q # ps)"

definition str_lines :: "string \<Rightarrow> string list" where
  "str_lines s = lines_of_pieces (split_on LF s)"


subsection \<open>White space\<close>

text \<open>
  \<open>char::is_whitespace\<close> is the Unicode property White\_Space: six ASCII bytes and nineteen
  scalar values of two or three bytes (U+0085, U+00A0, U+1680, U+2000 to U+200A, U+2028, U+2029,
  U+202F, U+205F, U+3000).
\<close>

definition ascii_whitespace :: "char list" where
  "ascii_whitespace = [CHR 0x09, CHR 0x0A, CHR 0x0B, CHR 0x0C, CHR 0x0D, CHR 0x20]"

definition wide_whitespace :: "string list" where
  "wide_whitespace =
     [[CHR 0xC2, CHR 0x85], [CHR 0xC2, CHR 0xA0], [CHR 0xE1, CHR 0x9A, CHR 0x80],
      [CHR 0xE2, CHR 0x80, CHR 0x80], [CHR 0xE2, CHR 0x80, CHR 0x81],
      [CHR 0xE2, CHR 0x80, CHR 0x82], [CHR 0xE2, CHR 0x80, CHR 0x83],
      [CHR 0xE2, CHR 0x80, CHR 0x84], [CHR 0xE2, CHR 0x80, CHR 0x85],
      [CHR 0xE2, CHR 0x80, CHR 0x86], [CHR 0xE2, CHR 0x80, CHR 0x87],
      [CHR 0xE2, CHR 0x80, CHR 0x88], [CHR 0xE2, CHR 0x80, CHR 0x89],
      [CHR 0xE2, CHR 0x80, CHR 0x8A], [CHR 0xE2, CHR 0x80, CHR 0xA8],
      [CHR 0xE2, CHR 0x80, CHR 0xA9], [CHR 0xE2, CHR 0x80, CHR 0xAF],
      [CHR 0xE2, CHR 0x81, CHR 0x9F], [CHR 0xE3, CHR 0x80, CHR 0x80]]"

text \<open>
  The number of bytes of the white-space scalar value a byte sequence begins with, 0 if there is
  none.  The table is an argument so that the same function reads a reversed string.
\<close>

definition ws_width :: "string list \<Rightarrow> string \<Rightarrow> nat" where
  "ws_width wide s =
     (case s of
        [] \<Rightarrow> 0
      | c # _ \<Rightarrow>
          if c \<in> set ascii_whitespace then 1
          else (case find (starts_with s) wide of None \<Rightarrow> 0 | Some w \<Rightarrow> length w))"

function trim_with :: "string list \<Rightarrow> string \<Rightarrow> string" where
  "trim_with wide s =
     (let n = ws_width wide s in
      if n = 0 \<or> s = [] then s else trim_with wide (drop n s))"
  by pat_completeness auto
termination
  by (relation "measure (\<lambda>(wide, s). length s)") auto

declare trim_with.simps [simp del]

definition trim_start :: "string \<Rightarrow> string" where
  "trim_start s = trim_with wide_whitespace s"

definition trim_end :: "string \<Rightarrow> string" where
  "trim_end s = rev (trim_with (map rev wide_whitespace) (rev s))"

definition trim :: "string \<Rightarrow> string" where
  "trim s = trim_start (trim_end s)"

text \<open>\<open>chars().any(char::is_whitespace)\<close>.\<close>

definition has_whitespace :: "string \<Rightarrow> bool" where
  "has_whitespace s \<longleftrightarrow>
     list_ex (\<lambda>c. c \<in> set ascii_whitespace) s \<or> list_ex (str_contains s) wide_whitespace"

section \<open>Numbers\<close>

text \<open>Decimal digits, as \<open>Display\<close> prints an unsigned integer.\<close>

fun show_nat :: "nat \<Rightarrow> string" where
  "show_nat n =
     (if n < 10 then [char_of (48 + n)] else show_nat (n div 10) @ [char_of (48 + n mod 10)])"

declare show_nat.simps [simp del]

text \<open>Saturating 64-bit arithmetic.\<close>

definition i64_min :: int where "i64_min = - 9223372036854775808"
definition i64_max :: int where "i64_max = 9223372036854775807"

definition sat_i64 :: "int \<Rightarrow> int" where
  "sat_i64 x = max i64_min (min i64_max x)"

definition saturating_add :: "int \<Rightarrow> int \<Rightarrow> int" where
  "saturating_add a b = sat_i64 (a + b)"

definition saturating_mul :: "int \<Rightarrow> int \<Rightarrow> int" where
  "saturating_mul a b = sat_i64 (a * b)"

definition clamp :: "int \<Rightarrow> int \<Rightarrow> int \<Rightarrow> int" where
  "clamp lo hi x = (if x < lo then lo else if x > hi then hi else x)"

section \<open>Lemmas on strings\<close>

lemma starts_with_iff: "starts_with s p \<longleftrightarrow> (\<exists>r. s = p @ r)"
  by (induction s p rule: starts_with.induct) auto

lemma starts_with_append [simp]: "starts_with (p @ r) p"
  by (auto simp: starts_with_iff)

lemma starts_with_self [simp]: "starts_with s s"
  by (auto simp: starts_with_iff)

lemma ends_with_iff: "ends_with s p \<longleftrightarrow> (\<exists>r. s = r @ p)"
proof -
  have "ends_with s p \<longleftrightarrow> (\<exists>r. rev s = rev p @ r)"
    by (simp add: ends_with_def starts_with_iff)
  also have "\<dots> \<longleftrightarrow> (\<exists>r. s = r @ p)"
    by (metis rev_append rev_rev_ident)
  finally show ?thesis .
qed

lemma strip_prefix_Some: "strip_prefix p s = Some r \<longleftrightarrow> s = p @ r"
  by (auto simp: strip_prefix_def starts_with_iff)

lemma strip_prefix_None: "strip_prefix p s = None \<longleftrightarrow> \<not> starts_with s p"
  by (auto simp: strip_prefix_def)

lemma strip_prefix_append [simp]: "strip_prefix p (p @ r) = Some r"
  by (simp add: strip_prefix_Some)

lemma strip_suffix_Some: "strip_suffix p s = Some r \<longleftrightarrow> s = r @ p"
  by (auto simp: strip_suffix_def ends_with_iff)

lemma split_on_not_Nil [simp]: "split_on d s \<noteq> []"
  by (cases s) (auto split: list.splits)

lemma split_on_no_delim [simp]: "d \<notin> set s \<Longrightarrow> split_on d s = [s]"
  by (induction s) auto

lemma split_on_append_delim:
  "d \<notin> set s \<Longrightarrow> split_on d (s @ d # r) = s # split_on d r"
  by (induction s) auto

lemma split_on_snoc: "split_on d (s @ [d]) = split_on d s @ [[]]"
proof (induction s)
  case Nil
  then show ?case by simp
next
  case (Cons c s)
  then show ?case by (cases "split_on d s") auto
qed

lemma split_on_pieces: "p \<in> set (split_on d s) \<Longrightarrow> d \<notin> set p"
  by (induction s arbitrary: p) (auto split: list.splits if_splits)

lemma join_Cons: "xs \<noteq> [] \<Longrightarrow> join sep (x # xs) = x @ sep @ join sep xs"
  by (cases xs) auto

lemma join_snoc: "xs \<noteq> [] \<Longrightarrow> join sep (xs @ [y]) = join sep xs @ sep @ y"
  by (induction xs rule: induct_list012) (simp_all add: join_Cons)

lemma join_split_on: "join [d] (split_on d s) = s"
proof (induction s)
  case Nil
  then show ?case by simp
next
  case (Cons c s)
  obtain l ls where eq: "split_on d s = l # ls"
    by (cases "split_on d s") auto
  show ?case
  proof (cases "c = d")
    case True
    with Cons.IH show ?thesis by (simp add: join_Cons)
  next
    case False
    with Cons.IH eq show ?thesis by (cases ls) auto
  qed
qed

lemma split_on_join:
  "ls \<noteq> [] \<Longrightarrow> (\<And>l. l \<in> set ls \<Longrightarrow> d \<notin> set l) \<Longrightarrow> split_on d (join [d] ls) = ls"
proof (induction ls)
  case Nil
  then show ?case by simp
next
  case (Cons l ls)
  show ?case
  proof (cases "ls = []")
    case True
    with Cons.prems show ?thesis by simp
  next
    case False
    with Cons show ?thesis by (simp add: join_Cons split_on_append_delim)
  qed
qed

lemma strip_cr_simps [simp]:
  "strip_cr [] = []"
  "strip_cr (s @ [CR]) = s"
  by (simp_all add: strip_cr_def)

lemma strip_cr_id: "s = [] \<or> last s \<noteq> CR \<Longrightarrow> strip_cr s = s"
  by (auto simp: strip_cr_def)

lemma lines_of_pieces_id:
  "\<forall>p \<in> set ps. strip_cr p = p \<Longrightarrow> last ps \<noteq> [] \<Longrightarrow> lines_of_pieces ps = ps"
  by (induction ps rule: lines_of_pieces.induct) auto

text \<open>Lines without line feeds or trailing carriage returns survive \<open>join("\n")\<close> and \<open>lines()\<close>.\<close>

lemma str_lines_join:
  assumes "ls \<noteq> []" and "\<And>l. l \<in> set ls \<Longrightarrow> LF \<notin> set l" and "\<And>l. l \<in> set ls \<Longrightarrow> strip_cr l = l"
    and "last ls \<noteq> []"
  shows "str_lines (join [LF] ls) = ls"
  using assms by (simp add: str_lines_def split_on_join lines_of_pieces_id)

lemma trim_with_stop: "ws_width wide s = 0 \<Longrightarrow> trim_with wide s = s"
  by (subst trim_with.simps) simp

lemma trim_with_step:
  "ws_width wide s = n \<Longrightarrow> 0 < n \<Longrightarrow> s \<noteq> [] \<Longrightarrow> trim_with wide s = trim_with wide (drop n s)"
  by (subst trim_with.simps) simp

lemma ws_width_Nil [simp]: "ws_width wide [] = 0"
  by (simp add: ws_width_def)

lemma trim_with_Nil [simp]: "trim_with wide [] = []"
  by (rule trim_with_stop) simp

text \<open>An ASCII byte that is not white space stops the scan: no wide encoding begins or ends with it.\<close>

lemma wide_whitespace_ends:
  "\<forall>w \<in> set wide_whitespace. w \<noteq> [] \<and> 128 \<le> byte (hd w) \<and> 128 \<le> byte (last w)"
  by code_simp

lemma ws_width_ascii_gen:
  assumes "c \<notin> set ascii_whitespace" and "\<forall>w \<in> set wide. w \<noteq> [] \<and> c \<noteq> hd w"
  shows "ws_width wide (c # s) = 0"
proof -
  have "find (starts_with (c # s)) wide = None"
    using assms(2) by (auto simp: find_None_iff starts_with_iff Cons_eq_append_conv)
  with assms(1) show ?thesis by (simp add: ws_width_def)
qed

lemma ws_width_ascii:
  assumes "byte c < 128" and "c \<notin> set ascii_whitespace"
  shows "ws_width wide_whitespace (c # s) = 0"
    and "ws_width (map rev wide_whitespace) (c # s) = 0"
  using assms wide_whitespace_ends
  by (fastforce intro!: ws_width_ascii_gen simp: hd_rev)+

lemma trim_start_ascii:
  "byte c < 128 \<Longrightarrow> c \<notin> set ascii_whitespace \<Longrightarrow> trim_start (c # s) = c # s"
  by (simp add: trim_start_def trim_with_stop ws_width_ascii)

lemma trim_end_ascii:
  "byte c < 128 \<Longrightarrow> c \<notin> set ascii_whitespace \<Longrightarrow> trim_end (s @ [c]) = s @ [c]"
  by (simp add: trim_end_def trim_with_stop ws_width_ascii)

lemma trim_with_suffix: "\<exists>p. s = p @ trim_with wide s"
proof (induction wide s rule: trim_with.induct)
  case (1 wide s)
  show ?case
  proof (cases "ws_width wide s = 0 \<or> s = []")
    case True
    then show ?thesis by (subst trim_with.simps) auto
  next
    case False
    define n where "n = ws_width wide s"
    from False have "trim_with wide s = trim_with wide (drop n s)"
      by (auto simp: n_def intro: trim_with_step)
    moreover from 1 False obtain p where "drop n s = p @ trim_with wide (drop n s)"
      by (auto simp: n_def)
    ultimately have "s = (take n s @ p) @ trim_with wide s"
      by (metis append.assoc append_take_drop_id)
    then show ?thesis by blast
  qed
qed

lemma ws_width_trim_with: "trim_with wide s \<noteq> [] \<Longrightarrow> ws_width wide (trim_with wide s) = 0"
proof (induction wide s rule: trim_with.induct)
  case (1 wide s)
  show ?case
  proof (cases "ws_width wide s = 0 \<or> s = []")
    case True
    with "1.prems" show ?thesis by (auto simp: trim_with_stop)
  next
    case False
    define n where "n = ws_width wide s"
    from False have eq: "trim_with wide s = trim_with wide (drop n s)"
      by (auto simp: n_def intro: trim_with_step)
    with 1 False show ?thesis by (auto simp: n_def)
  qed
qed

lemma trim_with_idem [simp]: "trim_with wide (trim_with wide s) = trim_with wide s"
  by (cases "trim_with wide s = []") (auto intro: trim_with_stop ws_width_trim_with)

lemma trim_end_idem [simp]: "trim_end (trim_end s) = trim_end s"
  by (simp add: trim_end_def)

lemma trim_end_prefix: "\<exists>r. s = trim_end s @ r"
proof -
  obtain p where "rev s = p @ trim_with (map rev wide_whitespace) (rev s)"
    using trim_with_suffix by blast
  then have "s = trim_end s @ rev p"
    unfolding trim_end_def by (metis rev_append rev_rev_ident)
  then show ?thesis by blast
qed

lemma trim_end_Nil [simp]: "trim_end [] = []"
  by (simp add: trim_end_def)

lemma trim_Nil [simp]: "trim [] = []"
  by (simp add: trim_def trim_start_def)

text \<open>
  An ASCII byte also separates what is on its two sides: no wide encoding contains it.
\<close>

lemma wide_whitespace_bytes: "\<forall>w \<in> set wide_whitespace. \<forall>b \<in> set w. 128 \<le> byte b"
  by code_simp

lemma ascii_not_in_wide:
  "byte c < 128 \<Longrightarrow> \<forall>w \<in> set wide_whitespace. c \<notin> set w"
  "byte c < 128 \<Longrightarrow> \<forall>w \<in> set (map rev wide_whitespace). c \<notin> set w"
  using wide_whitespace_bytes by fastforce+

lemma starts_with_across:
  "c \<notin> set w \<Longrightarrow> starts_with (xs @ c # ys) w = starts_with xs w"
  by (induction xs w rule: starts_with.induct) (auto elim: starts_with.elims)

lemma find_cong_list: "(\<And>x. x \<in> set xs \<Longrightarrow> P x = Q x) \<Longrightarrow> find P xs = find Q xs"
  by (induction xs) auto

lemma ws_width_across:
  assumes "\<forall>w \<in> set wide. c \<notin> set w" and "xs \<noteq> []"
  shows "ws_width wide (xs @ c # ys) = ws_width wide xs"
proof -
  obtain x xs' where xs: "xs = x # xs'" using assms(2) by (cases xs) auto
  have "find (starts_with (xs @ c # ys)) wide = find (starts_with xs) wide"
    using assms(1) by (intro find_cong_list) (simp add: starts_with_across)
  with xs show ?thesis by (simp add: ws_width_def)
qed

lemma ws_width_le: "ws_width wide xs \<le> length xs"
proof (cases xs)
  case (Cons x xs')
  have "length w \<le> length xs" if "find (starts_with xs) wide = Some w" for w
    using that by (auto simp: find_Some_iff starts_with_iff)
  with Cons show ?thesis by (auto simp: ws_width_def split: option.splits)
qed simp

lemma trim_with_snoc:
  assumes "\<forall>w \<in> set wide. w \<noteq> [] \<and> c \<notin> set w" and "c \<notin> set ascii_whitespace"
  shows "\<exists>ys. trim_with wide (xs @ [c]) = ys @ [c]"
proof (induction xs rule: length_induct)
  case (1 xs)
  show ?case
  proof (cases "ws_width wide (xs @ [c]) = 0")
    case True
    then show ?thesis by (simp add: trim_with_stop)
  next
    case False
    have "xs \<noteq> []"
    proof
      assume "xs = []"
      moreover have "ws_width wide [c] = 0"
        using assms by (intro ws_width_ascii_gen) (auto dest: hd_in_set)
      ultimately show False using False by simp
    qed
    with assms(1) have w: "ws_width wide (xs @ [c]) = ws_width wide xs"
      by (intro ws_width_across) auto
    have "trim_with wide (xs @ [c]) = trim_with wide (drop (ws_width wide xs) xs @ [c])"
      using False w ws_width_le [of wide xs] by (subst trim_with_step) auto
    moreover have "length (drop (ws_width wide xs) xs) < length xs"
      using False w \<open>xs \<noteq> []\<close> by auto
    ultimately show ?thesis using 1 by auto
  qed
qed

lemma trim_end_Cons_ascii:
  assumes "byte c < 128" and "c \<notin> set ascii_whitespace"
  shows "\<exists>r. trim_end (c # s) = c # r"
proof -
  obtain ys where "trim_with (map rev wide_whitespace) (rev s @ [c]) = ys @ [c]"
    using trim_with_snoc [of "map rev wide_whitespace" c "rev s"] assms
      ascii_not_in_wide(2) [OF assms(1)] wide_whitespace_ends by fastforce
  then show ?thesis by (simp add: trim_end_def)
qed

lemma trim_with_fixpoint: "trim_with wide s = s \<Longrightarrow> ws_width wide s = 0"
proof (rule ccontr)
  assume fix_s: "trim_with wide s = s" and n: "ws_width wide s \<noteq> 0"
  then have "s \<noteq> []" by auto
  with n have "trim_with wide s = trim_with wide (drop (ws_width wide s) s)"
    by (simp add: trim_with_step)
  moreover obtain q where "drop (ws_width wide s) s = q @ trim_with wide (drop (ws_width wide s) s)"
    using trim_with_suffix by blast
  ultimately have "length s \<le> length (drop (ws_width wide s) s)"
    using fix_s by (metis le_add2 length_append)
  moreover have "0 < length s" using \<open>s \<noteq> []\<close> by simp
  ultimately show False using n unfolding length_drop by linarith
qed

lemma trim_end_append_ascii:
  assumes "byte c < 128" and "s \<noteq> []" and "trim_end s = s"
  shows "trim_end (q @ c # s) = q @ c # s"
proof -
  let ?w = "map rev wide_whitespace"
  from assms(3) have "trim_with ?w (rev s) = rev s"
    by (metis rev_rev_ident trim_end_def)
  then have "ws_width ?w (rev s) = 0" by (rule trim_with_fixpoint)
  with assms have "ws_width ?w (rev s @ c # rev q) = 0"
    by (subst ws_width_across) (auto dest: ascii_not_in_wide)
  then show ?thesis by (simp add: trim_end_def trim_with_stop)
qed

lemma sat_i64_bounds: "i64_min \<le> sat_i64 x" "sat_i64 x \<le> i64_max"
  by (simp_all add: sat_i64_def i64_min_def i64_max_def)

lemma sat_i64_id: "i64_min \<le> x \<Longrightarrow> x \<le> i64_max \<Longrightarrow> sat_i64 x = x"
  by (simp add: sat_i64_def)

lemma clamp_bounds: "lo \<le> hi \<Longrightarrow> lo \<le> clamp lo hi x \<and> clamp lo hi x \<le> hi"
  by (simp add: clamp_def)

section \<open>Strings without white space\<close>

lemma str_contains_iff: "str_contains s p \<longleftrightarrow> (\<exists>a b. s = a @ p @ b)"
proof (induction s p rule: str_contains.induct)
  case (2 c s p)
  then show ?case by (auto simp: starts_with_iff Cons_eq_append_conv)
qed simp

lemma no_whitespace_width:
  assumes "\<not> has_whitespace s"
  shows "ws_width wide_whitespace s = 0" and "ws_width (map rev wide_whitespace) (rev s) = 0"
proof -
  have ascii: "c \<notin> set ascii_whitespace" if "c \<in> set s" for c
    using assms that by (auto simp: has_whitespace_def list_ex_iff)
  have wide: "\<nexists>a b. s = a @ w @ b" if "w \<in> set wide_whitespace" for w
    using assms that by (auto simp: has_whitespace_def list_ex_iff str_contains_iff)
  have "find (starts_with s) wide_whitespace = None"
    using wide by (auto simp: find_None_iff starts_with_iff) (metis append_Nil)
  then show "ws_width wide_whitespace s = 0"
    using ascii by (cases s) (auto simp: ws_width_def)
  have "find (starts_with (rev s)) (map rev wide_whitespace) = None"
    using wide by (auto simp: find_None_iff starts_with_iff rev_swap) (metis append_Nil2)
  then show "ws_width (map rev wide_whitespace) (rev s) = 0"
    using ascii by (cases s rule: rev_cases) (auto simp: ws_width_def)
qed

lemma trim_no_whitespace: "\<not> has_whitespace s \<Longrightarrow> trim s = s"
  using no_whitespace_width [of s]
  by (simp add: trim_def trim_start_def trim_end_def trim_with_stop)

lemma set_trim_with: "set (trim_with wide s) \<subseteq> set s"
proof -
  obtain p where "s = p @ trim_with wide s" using trim_with_suffix by blast
  then have "set s = set p \<union> set (trim_with wide s)" by (metis set_append)
  then show ?thesis by blast
qed

lemma set_trim: "set (trim s) \<subseteq> set s"
proof -
  have "set (trim_end s) \<subseteq> set s"
    using set_trim_with [of "map rev wide_whitespace" "rev s"] by (simp add: trim_end_def)
  then show ?thesis
    using set_trim_with [of wide_whitespace "trim_end s"] by (auto simp: trim_def trim_start_def)
qed

definition lowercase_char :: "char \<Rightarrow> char" where
  "lowercase_char c = (if 65 \<le> byte c \<and> byte c \<le> 90 then char_of (byte c + 32) else c)"

lemma to_ascii_lowercase_map: "to_ascii_lowercase s = map lowercase_char s"
  by (simp add: to_ascii_lowercase_def lowercase_char_def)

lemma lowercase_char_idem: "lowercase_char (lowercase_char c) = lowercase_char c"
  by (simp add: lowercase_char_def byte_def)

lemma to_ascii_lowercase_idem [simp]: "to_ascii_lowercase (to_ascii_lowercase s) = to_ascii_lowercase s"
  by (simp add: to_ascii_lowercase_map lowercase_char_idem o_def)

lemma lowercase_char_below:
  "byte d < 65 \<Longrightarrow> lowercase_char c = d \<longleftrightarrow> c = d"
  by (auto simp: lowercase_char_def byte_def)

lemma set_lowercase_below: "byte d < 65 \<Longrightarrow> d \<in> set (to_ascii_lowercase s) \<longleftrightarrow> d \<in> set s"
  unfolding to_ascii_lowercase_map set_map image_iff using lowercase_char_below [of d] by metis

lemma split_once_Some:
  "split_once d s = Some (l, r) \<Longrightarrow> s = l @ d # r \<and> d \<notin> set l"
  by (induction d s arbitrary: l rule: split_once.induct) (auto split: if_splits option.splits)

lemma rsplit_once_Some:
  assumes "rsplit_once d s = Some (l, r)"
  shows "s = l @ d # r \<and> d \<notin> set r"
proof -
  obtain l' r' where split: "split_once d (rev s) = Some (l', r')" and "l = rev r'" "r = rev l'"
    using assms by (auto simp: rsplit_once_def split: option.splits)
  then show ?thesis using split_once_Some [OF split] by (simp add: rev_swap)
qed

section \<open>Appending a line\<close>

lemma split_on_append: "split_on d (s @ d # r) = split_on d s @ split_on d r"
proof (induction s)
  case (Cons c s)
  then show ?case by (cases "split_on d s") auto
qed simp

lemma lines_of_pieces_snoc:
  "lines_of_pieces (ps @ [q]) = map strip_cr ps @ (if q = [] then [] else [q])"
  by (induction ps rule: induct_list012) auto

lemma split_on_last:
  obtains ps q where "split_on d s = ps @ [q]" and "s = (if ps = [] then q else join [d] ps @ d # q)"
proof -
  obtain ps q where split: "split_on d s = ps @ [q]"
    by (cases "split_on d s" rule: rev_cases) auto
  then have "s = join [d] (ps @ [q])" using join_split_on [of d s] by simp
  with split show thesis by (intro that) (auto simp: join_snoc)
qed

text \<open>A line added after a final line feed, or after adding the missing one.\<close>

lemma str_lines_append_line:
  assumes "LF \<notin> set line" and "strip_cr line = line" and "s = [] \<or> last s \<noteq> CR"
  shows "str_lines ((if s \<noteq> [] \<and> \<not> ends_with s [LF] then s @ [LF] else s) @ line @ [LF]) =
    str_lines s @ [line]"
proof -
  obtain ps q where split: "split_on LF s = ps @ [q]" and s: "s = (if ps = [] then q else join [LF] ps @ LF # q)"
    by (rule split_on_last)
  have tail: "split_on LF (line @ [LF]) = [line, []]"
    using assms(1) split_on_snoc [of LF line] by simp
  show ?thesis
  proof (cases "q = []")
    case True
    then have done_line: "s = [] \<or> ends_with s [LF]" using s by (auto simp: ends_with_iff)
    show ?thesis
    proof (cases "s = []")
      case True
      then show ?thesis using assms(2) tail by (simp add: str_lines_def)
    next
      case False
      with True s have s': "s = join [LF] ps @ [LF]" by (auto split: if_splits)
      have "split_on LF (join [LF] ps) = ps"
        using split split_on_snoc [of LF "join [LF] ps"] True by (simp add: s')
      then have "split_on LF (s @ line @ [LF]) = ps @ [line, []]"
        using split_on_append [of LF "join [LF] ps" "line @ [LF]"] tail by (simp add: s')
      then have "str_lines (s @ line @ [LF]) = lines_of_pieces ((ps @ [line]) @ [[]])"
        by (simp add: str_lines_def)
      then show ?thesis
        using assms(2) done_line False True split
        by (simp add: str_lines_def lines_of_pieces_snoc del: append_assoc)
    qed
  next
    case False
    then have last: "last s = last q" "s \<noteq> []" using s by (auto split: if_splits)
    have q: "strip_cr q = q" using assms(3) last by (simp add: strip_cr_def)
    have "LF \<notin> set q" using split_on_pieces [of q LF s] split by simp
    then have "last q \<noteq> LF" using False by (metis last_in_set)
    then have open_line: "\<not> ends_with s [LF]" using last by (auto simp: ends_with_iff)
    have "split_on LF (s @ LF # line @ [LF]) = split_on LF s @ split_on LF (line @ [LF])"
      using split_on_append [of LF s "line @ [LF]"] by simp
    then have "str_lines ((s @ [LF]) @ line @ [LF]) = lines_of_pieces ((ps @ [q, line]) @ [[]])"
      by (simp add: str_lines_def split tail)
    then show ?thesis
      using assms(2) open_line last(2) False split q
      by (simp add: str_lines_def lines_of_pieces_snoc del: append_assoc)
  qed
qed

end
