(* ===== verification/Patch_Parser.thy ===== *)
theory Patch_Parser
  imports Prelude
begin

text \<open>
  \<open>codex-rs/apply-patch/src/parser.rs\<close> and \<open>streaming_parser.rs\<close>: from patch text to hunks.

  The streaming parser is a state machine fed with text deltas; every complete line is one step.
  \<open>push_delta\<close> and \<open>finish\<close> return the parser they leave behind together with their result, since
  the Rust methods mutate the parser before they can fail.  Paths are the strings the patch spells.
\<close>

section \<open>Data\<close>

definition BEGIN_PATCH_MARKER :: string where "BEGIN_PATCH_MARKER = ''*** Begin Patch''"
definition END_PATCH_MARKER :: string where "END_PATCH_MARKER = ''*** End Patch''"
definition ADD_FILE_MARKER :: string where "ADD_FILE_MARKER = ''*** Add File: ''"
definition DELETE_FILE_MARKER :: string where "DELETE_FILE_MARKER = ''*** Delete File: ''"
definition UPDATE_FILE_MARKER :: string where "UPDATE_FILE_MARKER = ''*** Update File: ''"
definition MOVE_TO_MARKER :: string where "MOVE_TO_MARKER = ''*** Move to: ''"
definition EOF_MARKER :: string where "EOF_MARKER = ''*** End of File''"
definition CHANGE_CONTEXT_MARKER :: string where "CHANGE_CONTEXT_MARKER = ''@@ ''"
definition EMPTY_CHANGE_CONTEXT_MARKER :: string where "EMPTY_CHANGE_CONTEXT_MARKER = ''@@''"
definition ENVIRONMENT_ID_MARKER :: string where "ENVIRONMENT_ID_MARKER = ''*** Environment ID:''"
definition NO_NEWLINE_AT_END_OF_FILE_MARKER :: string where
  "NO_NEWLINE_AT_END_OF_FILE_MARKER = CHR 0x5C # '' No newline at end of file''"

lemmas marker_defs =
  BEGIN_PATCH_MARKER_def END_PATCH_MARKER_def ADD_FILE_MARKER_def DELETE_FILE_MARKER_def
  UPDATE_FILE_MARKER_def MOVE_TO_MARKER_def EOF_MARKER_def CHANGE_CONTEXT_MARKER_def
  EMPTY_CHANGE_CONTEXT_MARKER_def ENVIRONMENT_ID_MARKER_def NO_NEWLINE_AT_END_OF_FILE_MARKER_def

datatype parse_error =
    InvalidPatchError string
  | InvalidHunkError (message: string) (line_number: nat)

record update_file_chunk =
  change_context :: "string option"
  old_lines :: "string list"
  new_lines :: "string list"
  is_end_of_file :: bool

datatype hunk =
    AddFile (path: string) (contents: string)
  | DeleteFile (path: string)
  | UpdateFile (path: string) (move_path: "string option") (chunks: "update_file_chunk list")

text \<open>\<open>Hunk::path\<close>: the destination for a rename.\<close>

fun hunk_path :: "hunk \<Rightarrow> string" where
  "hunk_path (AddFile p _) = p"
| "hunk_path (DeleteFile p) = p"
| "hunk_path (UpdateFile _ (Some q) _) = q"
| "hunk_path (UpdateFile p None _) = p"

text \<open>The path \<open>Hunk::resolve_path\<close> resolves: the source of a rename.\<close>

fun hunk_source_path :: "hunk \<Rightarrow> string" where
  "hunk_source_path (UpdateFile p _ _) = p"
| "hunk_source_path (AddFile p c) = hunk_path (AddFile p c)"
| "hunk_source_path (DeleteFile p) = hunk_path (DeleteFile p)"

datatype streaming_parser_mode =
    NotStarted
  | StartedPatch
  | ModeAddFile
  | ModeDeleteFile
  | ModeUpdateFile (hunk_line_number: nat)
  | EndedPatch

record streaming_parser_state =
  mode :: streaming_parser_mode
  hunks :: "hunk list"
  environment_id :: "string option"

record streaming_patch_parser =
  line_buffer :: string
  state :: streaming_parser_state
  line_no :: nat

definition default_parser :: streaming_patch_parser where
  "default_parser =
     \<lparr>line_buffer = [],
      state = \<lparr>mode = NotStarted, hunks = [], environment_id = None\<rparr>,
      line_no = 0\<rparr>"

definition set_mode :: "streaming_parser_mode \<Rightarrow> streaming_patch_parser \<Rightarrow> streaming_patch_parser" where
  "set_mode m p = p\<lparr>state := (state p)\<lparr>mode := m\<rparr>\<rparr>"

definition set_hunks :: "hunk list \<Rightarrow> streaming_patch_parser \<Rightarrow> streaming_patch_parser" where
  "set_hunks hs p = p\<lparr>state := (state p)\<lparr>hunks := hs\<rparr>\<rparr>"

section \<open>Messages\<close>

definition msg_bad_header :: "string \<Rightarrow> string" where
  "msg_bad_header trimmed =
     CHR 0x27 # trimmed @ CHR 0x27 # '' is not a valid hunk header. Valid hunk headers: '' @
     CHR 0x27 # ''*** Add File: {path}'' @ CHR 0x27 # '', '' @
     CHR 0x27 # ''*** Delete File: {path}'' @ CHR 0x27 # '', '' @
     CHR 0x27 # ''*** Update File: {path}'' @ [CHR 0x27]"

definition msg_unexpected_line :: "string \<Rightarrow> string" where
  "msg_unexpected_line line =
     ''Unexpected line found in update hunk: '' @ CHR 0x27 # line @ CHR 0x27 #
     ''. Every line should start with '' @ CHR 0x27 # '' '' @ CHR 0x27 # '' (context line), '' @
     CHR 0x27 # ''+'' @ CHR 0x27 # '' (added line), or '' @
     CHR 0x27 # ''-'' @ CHR 0x27 # '' (removed line)''"

definition msg_expected_context :: "string \<Rightarrow> string" where
  "msg_expected_context line =
     ''Expected update hunk to start with a @@ context marker, got: '' @
     CHR 0x27 # line @ [CHR 0x27]"

definition msg_no_lines :: string where
  "msg_no_lines = ''Update hunk does not contain any lines''"

definition msg_empty_update :: "string \<Rightarrow> string" where
  "msg_empty_update p =
     ''Update file hunk for path '' @ CHR 0x27 # p @ CHR 0x27 # '' is empty''"

definition msg_last_line :: string where
  "msg_last_line = ''The last line of the patch must be '' @ CHR 0x27 # END_PATCH_MARKER @ [CHR 0x27]"

definition msg_first_line :: string where
  "msg_first_line =
     ''The first line of the patch must be '' @ CHR 0x27 # BEGIN_PATCH_MARKER @ [CHR 0x27]"

section \<open>Lines\<close>

definition chunk_empty :: "update_file_chunk \<Rightarrow> bool" where
  "chunk_empty c \<longleftrightarrow> old_lines c = [] \<and> new_lines c = []"

definition ensure_update_hunk_is_not_empty ::
  "streaming_patch_parser \<Rightarrow> string \<Rightarrow> parse_error + unit" where
  "ensure_update_hunk_is_not_empty p line =
     (case last_opt (hunks (state p)) of
        Some (UpdateFile pth _ cs) \<Rightarrow>
          (case (cs, mode (state p)) of
             ([], ModeUpdateFile n) \<Rightarrow> Inl (InvalidHunkError (msg_empty_update pth) n)
           | _ \<Rightarrow>
             if last_is chunk_empty cs then
               (if line = END_PATCH_MARKER then Inl (InvalidHunkError msg_no_lines (line_no p))
                else Inl (InvalidHunkError (msg_unexpected_line line) (line_no p)))
             else Inr ())
      | _ \<Rightarrow> Inr ())"

text \<open>The boolean tells whether the line was a header or the end marker.\<close>

definition handle_hunk_headers_and_end_patch ::
  "streaming_patch_parser \<Rightarrow> string \<Rightarrow> parse_error + (bool \<times> streaming_patch_parser)" where
  "handle_hunk_headers_and_end_patch p trimmed =
     (case (if mode (state p) = StartedPatch then strip_prefix ENVIRONMENT_ID_MARKER trimmed
            else None) of
        Some env \<Rightarrow>
          if environment_id (state p) \<noteq> None then
            Inl (InvalidPatchError ''apply_patch environment_id cannot be specified more than once'')
          else if trim env = [] then
            Inl (InvalidPatchError ''apply_patch environment_id cannot be empty'')
          else Inr (True, p\<lparr>state := (state p)\<lparr>environment_id := Some (trim env)\<rparr>\<rparr>)
      | None \<Rightarrow>
     if trimmed = END_PATCH_MARKER then
       and_then (ensure_update_hunk_is_not_empty p trimmed) (\<lambda>_. Inr (True, set_mode EndedPatch p))
     else (case strip_prefix ADD_FILE_MARKER trimmed of
        Some pth \<Rightarrow>
          and_then (ensure_update_hunk_is_not_empty p trimmed) (\<lambda>_.
            Inr (True, set_mode ModeAddFile (set_hunks (hunks (state p) @ [AddFile pth []]) p)))
      | None \<Rightarrow>
     (case strip_prefix DELETE_FILE_MARKER trimmed of
        Some pth \<Rightarrow>
          and_then (ensure_update_hunk_is_not_empty p trimmed) (\<lambda>_.
            Inr (True, set_mode ModeDeleteFile (set_hunks (hunks (state p) @ [DeleteFile pth]) p)))
      | None \<Rightarrow>
     (case strip_prefix UPDATE_FILE_MARKER trimmed of
        Some pth \<Rightarrow>
          and_then (ensure_update_hunk_is_not_empty p trimmed) (\<lambda>_.
            Inr (True, set_mode (ModeUpdateFile (line_no p))
                         (set_hunks (hunks (state p) @ [UpdateFile pth None []]) p)))
      | None \<Rightarrow> Inr (False, p)))))"

definition empty_chunk :: "string option \<Rightarrow> update_file_chunk" where
  "empty_chunk ctx =
     \<lparr>change_context = ctx, old_lines = [], new_lines = [], is_end_of_file = False\<rparr>"

text \<open>\<open>if chunks.is_empty() { push an empty chunk }\<close>, then append to the last chunk's lines.\<close>

definition add_lines ::
  "string list \<Rightarrow> string list \<Rightarrow> update_file_chunk list \<Rightarrow> update_file_chunk list" where
  "add_lines old new cs =
     map_last (\<lambda>c. c\<lparr>old_lines := old_lines c @ old, new_lines := new_lines c @ new\<rparr>)
       (if cs = [] then [empty_chunk None] else cs)"

definition is_context_marker :: "string \<Rightarrow> bool" where
  "is_context_marker update_line \<longleftrightarrow>
     update_line = EMPTY_CHANGE_CONTEXT_MARKER \<or> starts_with update_line CHANGE_CONTEXT_MARKER"

text \<open>
  The body of an update hunk: what a line that is no header does to the move path and the chunks
  of the last hunk.
\<close>

definition update_hunk_line ::
  "nat \<Rightarrow> string \<Rightarrow> string option \<Rightarrow> update_file_chunk list
     \<Rightarrow> parse_error + (string option \<times> update_file_chunk list)" where
  "update_hunk_line ln line mv cs =
     (let update_line = trim_end line in
      if last_is is_end_of_file cs \<and> update_line = [] then Inr (mv, cs)
      else if last_is is_end_of_file cs \<and> \<not> is_context_marker update_line then
        Inl (InvalidHunkError (msg_expected_context line) ln)
      else if cs = [] \<and> mv = None \<and> starts_with update_line MOVE_TO_MARKER then
        Inr (strip_prefix MOVE_TO_MARKER update_line, cs)
      else if is_context_marker update_line \<and> last_is chunk_empty cs then
        Inl (InvalidHunkError (msg_unexpected_line line) ln)
      else if update_line = EMPTY_CHANGE_CONTEXT_MARKER then
        Inr (mv, cs @ [empty_chunk None])
      else if starts_with update_line CHANGE_CONTEXT_MARKER then
        Inr (mv, cs @ [empty_chunk (strip_prefix CHANGE_CONTEXT_MARKER update_line)])
      else if update_line = EOF_MARKER then
        (if last_is chunk_empty cs then Inl (InvalidHunkError msg_no_lines ln)
         else Inr (mv, map_last (\<lambda>c. c\<lparr>is_end_of_file := True\<rparr>) cs))
      else if update_line = NO_NEWLINE_AT_END_OF_FILE_MARKER then Inr (mv, cs)
      else (case line of
          [] \<Rightarrow> Inr (mv, add_lines [[]] [[]] cs)
        | c # rest \<Rightarrow>
            if c = CHR '' '' then Inr (mv, add_lines [rest] [rest] cs)
            else if c = CHR ''+'' then Inr (mv, add_lines [] [rest] cs)
            else if c = CHR ''-'' then Inr (mv, add_lines [rest] [] cs)
            else if last_is (\<lambda>c. \<not> chunk_empty c) cs then
              Inl (InvalidHunkError (msg_expected_context line) ln)
            else Inl (InvalidHunkError (msg_unexpected_line line) ln)))"

definition process_line :: "streaming_patch_parser \<Rightarrow> string \<Rightarrow> parse_error + streaming_patch_parser" where
  "process_line p line =
     (let trimmed = trim line;
          bad_header = Inl (InvalidHunkError (msg_bad_header trimmed) (line_no p))
      in case mode (state p) of
        NotStarted \<Rightarrow>
          if trimmed = BEGIN_PATCH_MARKER then Inr (set_mode StartedPatch p)
          else Inl (InvalidPatchError msg_first_line)
      | StartedPatch \<Rightarrow>
          and_then (handle_hunk_headers_and_end_patch p trimmed) (\<lambda>(handled, p').
            if handled then Inr p' else bad_header)
      | ModeAddFile \<Rightarrow>
          and_then (handle_hunk_headers_and_end_patch p trimmed) (\<lambda>(handled, p').
            if handled then Inr p'
            else (case (strip_prefix ''+'' line, last_opt (hunks (state p'))) of
                (Some l, Some (AddFile pth txt)) \<Rightarrow>
                  Inr (set_hunks (map_last (\<lambda>_. AddFile pth (txt @ l @ [LF])) (hunks (state p'))) p')
              | _ \<Rightarrow> bad_header))
      | ModeDeleteFile \<Rightarrow>
          and_then (handle_hunk_headers_and_end_patch p trimmed) (\<lambda>(handled, p').
            if handled then Inr p' else bad_header)
      | ModeUpdateFile n \<Rightarrow>
          and_then (handle_hunk_headers_and_end_patch p (trim_end line)) (\<lambda>(handled, p').
            if handled then Inr p'
            else (case last_opt (hunks (state p')) of
                Some (UpdateFile pth mv cs) \<Rightarrow>
                  and_then (update_hunk_line (line_no p') line mv cs) (\<lambda>(mv', cs').
                    Inr (set_mode (ModeUpdateFile n)
                      (set_hunks (map_last (\<lambda>_. UpdateFile pth mv' cs') (hunks (state p'))) p')))
              | _ \<Rightarrow> Inl (InvalidHunkError (msg_unexpected_line line) (line_no p'))))
      | EndedPatch \<Rightarrow>
          if trimmed = [] then Inr p else Inl (InvalidPatchError msg_last_line))"

section \<open>Deltas\<close>

text \<open>A complete line: the buffer is taken and counted before the line is processed.\<close>

definition take_line :: "streaming_patch_parser \<Rightarrow> streaming_patch_parser" where
  "take_line p = p\<lparr>line_buffer := [], line_no := Suc (line_no p)\<rparr>"

fun push_chars ::
  "streaming_patch_parser \<Rightarrow> string \<Rightarrow> streaming_patch_parser \<times> (parse_error + unit)" where
  "push_chars p [] = (p, Inr ())"
| "push_chars p (ch # delta) =
     (if ch = LF then
        (case process_line (take_line p) (strip_cr (line_buffer p)) of
           Inl e \<Rightarrow> (take_line p, Inl e)
         | Inr p' \<Rightarrow> push_chars p' delta)
      else push_chars (p\<lparr>line_buffer := line_buffer p @ [ch]\<rparr>) delta)"

definition push_delta ::
  "streaming_patch_parser \<Rightarrow> string \<Rightarrow> streaming_patch_parser \<times> (parse_error + hunk list)" where
  "push_delta p delta =
     (case push_chars p delta of
        (p', Inl e) \<Rightarrow> (p', Inl e)
      | (p', Inr _) \<Rightarrow> (p', Inr (hunks (state p'))))"

definition finish ::
  "streaming_patch_parser \<Rightarrow> streaming_patch_parser \<times> (parse_error + hunk list)" where
  "finish p =
     (case (if line_buffer p = [] then Inr p
            else if trim (line_buffer p) = END_PATCH_MARKER then
              and_then (ensure_update_hunk_is_not_empty (take_line p) (trim (line_buffer p)))
                (\<lambda>_. Inr (set_mode EndedPatch (take_line p)))
            else process_line (take_line p) (line_buffer p)) of
        Inl e \<Rightarrow> (take_line p, Inl e)
      | Inr p' \<Rightarrow>
          if mode (state p') \<noteq> EndedPatch then (p', Inl (InvalidPatchError msg_last_line))
          else (p', Inr (hunks (state p'))))"

section \<open>Whole patches\<close>

datatype parse_mode = Strict | Lenient

record apply_patch_args =
  args_patch :: string
  args_hunks :: "hunk list"
  args_workdir :: "string option"
  args_environment_id :: "string option"

definition msg_first_line_got :: "string \<Rightarrow> string" where
  "msg_first_line_got first = msg_first_line @ '' but got: '' @ CHR 0x27 # first @ [CHR 0x27]"

definition msg_incomplete :: string where
  "msg_incomplete =
     ''The patch is incomplete; it must start with '' @ CHR 0x27 # BEGIN_PATCH_MARKER @ CHR 0x27 #
     '' and end with '' @ CHR 0x27 # END_PATCH_MARKER @ [CHR 0x27]"

definition msg_last_line_got :: "string \<Rightarrow> string" where
  "msg_last_line_got l =
     msg_last_line @ '' but got: '' @ CHR 0x27 # l @ CHR 0x27 #
     ''. Note: file directives like '' @ CHR 0x27 # ''Update File:'' @ CHR 0x27 # '', '' @
     CHR 0x27 # ''Add File:'' @ CHR 0x27 # '', and the end marker '' @
     CHR 0x27 # ''End Patch'' @ CHR 0x27 # '' must be on the same line as '' @
     CHR 0x27 # ''***'' @ CHR 0x27 # '', not on a separate line.''"

definition check_start_and_end_lines_strict ::
  "string option \<Rightarrow> string option \<Rightarrow> parse_error + unit" where
  "check_start_and_end_lines_strict first_line last_line =
     (case (map_option trim first_line, map_option trim last_line) of
        (Some f, Some l) \<Rightarrow>
          if f = BEGIN_PATCH_MARKER \<and> l = END_PATCH_MARKER then Inr ()
          else if f \<noteq> BEGIN_PATCH_MARKER then Inl (InvalidPatchError (msg_first_line_got f))
          else Inl (InvalidPatchError (msg_last_line_got l))
      | (Some f, None) \<Rightarrow>
          if f \<noteq> BEGIN_PATCH_MARKER then Inl (InvalidPatchError (msg_first_line_got f))
          else Inl (InvalidPatchError msg_incomplete)
      | (None, _) \<Rightarrow> Inl (InvalidPatchError msg_incomplete))"

definition check_patch_boundaries_strict :: "string list \<Rightarrow> parse_error + string list" where
  "check_patch_boundaries_strict ls =
     and_then
       (check_start_and_end_lines_strict
          (case ls of [] \<Rightarrow> None | l # _ \<Rightarrow> Some l) (last_opt ls))
       (\<lambda>_. Inr ls)"

definition heredoc_openers :: "string list" where
  "heredoc_openers =
     [''<<EOF'', ''<<'' @ CHR 0x27 # ''EOF'' @ [CHR 0x27], ''<<'' @ CHR 0x22 # ''EOF'' @ [CHR 0x22]]"

definition check_patch_boundaries_lenient :: "string list \<Rightarrow> parse_error + string list" where
  "check_patch_boundaries_lenient ls =
     (case check_patch_boundaries_strict ls of
        Inr ls' \<Rightarrow> Inr ls'
      | Inl e \<Rightarrow>
          if length ls \<ge> 2 then
            (if hd ls \<in> set heredoc_openers \<and> ends_with (last ls) ''EOF'' \<and> length ls \<ge> 4
             then check_patch_boundaries_strict (butlast (tl ls))
             else Inl e)
          else Inl e)"

definition parse_patch_text :: "string \<Rightarrow> parse_mode \<Rightarrow> parse_error + apply_patch_args" where
  "parse_patch_text patch pm =
     (let ls = str_lines (trim patch) in
      and_then (case pm of Strict \<Rightarrow> check_patch_boundaries_strict ls
                         | Lenient \<Rightarrow> check_patch_boundaries_lenient ls) (\<lambda>patch_lines.
      (let patch' = join [LF] patch_lines;
           (p, r) = push_delta default_parser patch'
       in and_then r (\<lambda>_.
          (let (p', r') = finish p in
           and_then r' (\<lambda>hs.
             Inr \<lparr>args_patch = patch', args_hunks = hs, args_workdir = None,
                  args_environment_id = environment_id (state p')\<rparr>))))))"

definition PARSE_IN_STRICT_MODE :: bool where "PARSE_IN_STRICT_MODE = False"

definition parse_patch :: "string \<Rightarrow> parse_error + apply_patch_args" where
  "parse_patch patch =
     (let pm = (if PARSE_IN_STRICT_MODE then Strict else Lenient) in parse_patch_text patch pm)"

section \<open>Deltas compose\<close>

text \<open>
  Feeding a text in pieces is feeding it at once: a caller that streams model output sees the hunks
  it would see had the text arrived whole, and fails at the same character with the same error.
\<close>

lemma push_chars_append:
  "push_chars p (xs @ ys) =
     (case push_chars p xs of (p', Inl e) \<Rightarrow> (p', Inl e) | (p', Inr _) \<Rightarrow> push_chars p' ys)"
  by (induction p xs rule: push_chars.induct) (auto split: sum.splits)

lemma push_delta_append:
  "push_delta p (xs @ ys) =
     (case push_delta p xs of (p', Inl e) \<Rightarrow> (p', Inl e) | (p', Inr _) \<Rightarrow> push_delta p' ys)"
  by (simp add: push_delta_def push_chars_append split: prod.splits sum.splits)

fun push_deltas ::
  "streaming_patch_parser \<Rightarrow> string list \<Rightarrow> streaming_patch_parser \<times> (parse_error + hunk list)" where
  "push_deltas p [] = (p, Inr (hunks (state p)))"
| "push_deltas p (d # ds) =
     (case push_delta p d of (p', Inl e) \<Rightarrow> (p', Inl e) | (p', Inr _) \<Rightarrow> push_deltas p' ds)"


section \<open>The parser's invariant\<close>

text \<open>
  A finished hunk: an update has at least one chunk and every chunk has lines; the contents of an
  added file are whole lines.
\<close>

fun hunk_complete :: "hunk \<Rightarrow> bool" where
  "hunk_complete (AddFile _ txt) \<longleftrightarrow> txt = [] \<or> last txt = LF"
| "hunk_complete (DeleteFile _) \<longleftrightarrow> True"
| "hunk_complete (UpdateFile _ _ cs) \<longleftrightarrow> cs \<noteq> [] \<and> (\<forall>c \<in> set cs. \<not> chunk_empty c)"

text \<open>The hunk a mode is still adding to.\<close>

fun hunk_open :: "streaming_parser_mode \<Rightarrow> hunk \<Rightarrow> bool" where
  "hunk_open ModeAddFile (AddFile p txt) \<longleftrightarrow> hunk_complete (AddFile p txt)"
| "hunk_open ModeDeleteFile (DeleteFile p) \<longleftrightarrow> True"
| "hunk_open (ModeUpdateFile n) (UpdateFile p mv cs) \<longleftrightarrow> (\<forall>c \<in> set (butlast cs). \<not> chunk_empty c)"
| "hunk_open _ _ \<longleftrightarrow> False"

fun state_inv :: "streaming_parser_mode \<Rightarrow> hunk list \<Rightarrow> bool" where
  "state_inv NotStarted hs \<longleftrightarrow> hs = []"
| "state_inv StartedPatch hs \<longleftrightarrow> hs = []"
| "state_inv EndedPatch hs \<longleftrightarrow> (\<forall>h \<in> set hs. hunk_complete h)"
| "state_inv m hs \<longleftrightarrow> hs \<noteq> [] \<and> (\<forall>h \<in> set (butlast hs). hunk_complete h) \<and> hunk_open m (last hs)"

definition parser_inv :: "streaming_patch_parser \<Rightarrow> bool" where
  "parser_inv p \<longleftrightarrow>
     state_inv (mode (state p)) (hunks (state p)) \<and>
     (\<forall>e. environment_id (state p) = Some e \<longrightarrow> e \<noteq> [])"

lemma set_mode_simps [simp]:
  "mode (state (set_mode m p)) = m"
  "hunks (state (set_mode m p)) = hunks (state p)"
  "environment_id (state (set_mode m p)) = environment_id (state p)"
  "line_no (set_mode m p) = line_no p"
  "line_buffer (set_mode m p) = line_buffer p"
  by (simp_all add: set_mode_def)

lemma set_hunks_simps [simp]:
  "mode (state (set_hunks hs p)) = mode (state p)"
  "hunks (state (set_hunks hs p)) = hs"
  "environment_id (state (set_hunks hs p)) = environment_id (state p)"
  "line_no (set_hunks hs p) = line_no p"
  "line_buffer (set_hunks hs p) = line_buffer p"
  by (simp_all add: set_hunks_def)

lemma take_line_simps [simp]:
  "state (take_line p) = state p"
  "line_buffer (take_line p) = []"
  "line_no (take_line p) = Suc (line_no p)"
  by (simp_all add: take_line_def)

lemma parser_inv_take_line [simp]: "parser_inv (take_line p) = parser_inv p"
  by (simp add: parser_inv_def)

lemma parser_inv_buffer [simp]: "parser_inv (p\<lparr>line_buffer := b\<rparr>) = parser_inv p"
  by (simp add: parser_inv_def)

lemma parser_inv_default: "parser_inv default_parser"
  by (simp add: parser_inv_def default_parser_def)

text \<open>Closing a hunk: whenever the emptiness check passes, every hunk so far is finished.\<close>

lemma list_all_last:
  "xs \<noteq> [] \<Longrightarrow> (\<forall>x \<in> set xs. P x) \<longleftrightarrow> (\<forall>x \<in> set (butlast xs). P x) \<and> P (last xs)"
  by (cases xs rule: rev_cases) auto

lemma ensure_closes_update:
  assumes "hunks (state p) \<noteq> []" and "last (hunks (state p)) = UpdateFile pth mv cs"
    and "mode (state p) = ModeUpdateFile n" and "ensure_update_hunk_is_not_empty p line = Inr ()"
    and "\<forall>c \<in> set (butlast cs). \<not> chunk_empty c"
  shows "hunk_complete (UpdateFile pth mv cs)"
proof -
  from assms have "cs \<noteq> []" and "\<not> chunk_empty (last cs)"
    by (auto simp: ensure_update_hunk_is_not_empty_def last_opt_def last_is_def
        split: list.splits if_splits)
  with assms(5) show ?thesis by (simp add: list_all_last)
qed

lemma ensure_closes:
  assumes "parser_inv p" and "ensure_update_hunk_is_not_empty p line = Inr ()"
  shows "\<forall>h \<in> set (hunks (state p)). hunk_complete h"
proof (cases "mode (state p)")
  case (ModeUpdateFile n)
  with assms obtain pth mv cs where "last (hunks (state p)) = UpdateFile pth mv cs"
    and "hunks (state p) \<noteq> []" and "\<forall>c \<in> set (butlast cs). \<not> chunk_empty c"
    by (cases "last (hunks (state p))") (auto simp: parser_inv_def)
  with ensure_closes_update [OF this(2,1) ModeUpdateFile assms(2)] assms(1) ModeUpdateFile
  show ?thesis by (simp add: parser_inv_def list_all_last)
next
  case ModeAddFile
  with assms(1) show ?thesis
    by (cases "last (hunks (state p))") (auto simp: parser_inv_def list_all_last)
next
  case ModeDeleteFile
  with assms(1) show ?thesis
    by (cases "last (hunks (state p))") (auto simp: parser_inv_def list_all_last)
qed (use assms(1) in \<open>auto simp: parser_inv_def\<close>)

lemma handle_headers_inv:
  assumes "parser_inv p" and "handle_hunk_headers_and_end_patch p t = Inr (handled, p')"
  shows "parser_inv p'" and "\<not> handled \<Longrightarrow> p' = p"
  using assms ensure_closes [OF assms(1)]
  by (auto simp: handle_hunk_headers_and_end_patch_def parser_inv_def
      split: option.splits if_splits)

lemma add_lines_nonempty:
  assumes "old \<noteq> [] \<or> new \<noteq> []" and "\<forall>c \<in> set (butlast cs). \<not> chunk_empty c"
  shows "\<forall>c \<in> set (add_lines old new cs). \<not> chunk_empty c"
  using assms by (cases cs rule: rev_cases) (auto simp: add_lines_def chunk_empty_def empty_chunk_def)

lemma butlast_set_mono: "\<forall>c \<in> set cs. P c \<Longrightarrow> \<forall>c \<in> set (butlast cs). P c"
  by (auto dest: in_set_butlastD)

text \<open>The four things a line can do to the chunks of an update.\<close>

lemma update_hunk_line_shape:
  assumes "update_hunk_line ln line mv cs = Inr (mv', cs')"
  obtains (same) "cs' = cs"
  | (new) ctx where "cs' = cs @ [empty_chunk ctx]" and "\<not> last_is chunk_empty cs"
  | (eof) "cs' = map_last (\<lambda>c. c\<lparr>is_end_of_file := True\<rparr>) cs"
  | (lines) old new where "cs' = add_lines old new cs" and "old \<noteq> [] \<or> new \<noteq> []"
  using assms unfolding update_hunk_line_def Let_def is_context_marker_def
  by (auto split: if_splits list.splits)

lemma update_hunk_line_inv:
  assumes "update_hunk_line ln line mv cs = Inr (mv', cs')"
    and "\<forall>c \<in> set (butlast cs). \<not> chunk_empty c"
  shows "\<forall>c \<in> set (butlast cs'). \<not> chunk_empty c"
  using assms(1)
proof (cases rule: update_hunk_line_shape)
  case same
  with assms(2) show ?thesis by simp
next
  case (new ctx)
  with assms(2) show ?thesis by (cases cs rule: rev_cases) (auto simp: butlast_append)
next
  case eof
  with assms(2) show ?thesis by (cases cs rule: rev_cases) auto
next
  case (lines old new)
  with butlast_set_mono [OF add_lines_nonempty [OF lines(2) assms(2)]] show ?thesis by simp
qed

lemma process_line_inv:
  assumes "parser_inv p" and "process_line p line = Inr p'"
  shows "parser_inv p'"
proof (cases "mode (state p)")
  case NotStarted
  with assms show ?thesis
    by (auto simp: process_line_def Let_def parser_inv_def split: if_splits)
next
  case StartedPatch
  with assms handle_headers_inv [OF assms(1)] show ?thesis
    by (auto simp: process_line_def Let_def split: if_splits)
next
  case ModeDeleteFile
  with assms handle_headers_inv [OF assms(1)] show ?thesis
    by (auto simp: process_line_def Let_def split: if_splits)
next
  case EndedPatch
  with assms show ?thesis
    by (auto simp: process_line_def Let_def split: if_splits)
next
  case ModeAddFile
  from assms(2) ModeAddFile obtain handled q where
    h: "handle_hunk_headers_and_end_patch p (trim line) = Inr (handled, q)"
    by (auto simp: process_line_def Let_def)
  show ?thesis
  proof (cases handled)
    case True
    with assms h ModeAddFile handle_headers_inv(1) [OF assms(1) h] show ?thesis
      by (auto simp: process_line_def Let_def)
  next
    case False
    with h handle_headers_inv(2) [OF assms(1) h] have "q = p" by simp
    with assms h False ModeAddFile show ?thesis
      by (cases "hunks (state p)" rule: rev_cases)
        (auto simp: process_line_def Let_def parser_inv_def split: option.splits hunk.splits)
  qed
next
  case (ModeUpdateFile n)
  from assms(2) ModeUpdateFile obtain handled q where
    h: "handle_hunk_headers_and_end_patch p (trim_end line) = Inr (handled, q)"
    by (auto simp: process_line_def Let_def)
  show ?thesis
  proof (cases handled)
    case True
    with assms h ModeUpdateFile handle_headers_inv(1) [OF assms(1) h] show ?thesis
      by (auto simp: process_line_def Let_def)
  next
    case False
    with h handle_headers_inv(2) [OF assms(1) h] have "q = p" by simp
    with assms h False ModeUpdateFile show ?thesis
      by (cases "hunks (state p)" rule: rev_cases)
        (auto simp: process_line_def Let_def parser_inv_def update_hunk_line_inv
          split: option.splits hunk.splits)
  qed
qed

lemma push_chars_inv: "parser_inv p \<Longrightarrow> push_chars p cs = (p', r) \<Longrightarrow> parser_inv p'"
  by (induction p cs arbitrary: p' r rule: push_chars.induct)
    (auto split: if_splits sum.splits dest: process_line_inv [rotated])

lemma push_delta_inv: "parser_inv p \<Longrightarrow> push_delta p d = (p', r) \<Longrightarrow> parser_inv p'"
  by (auto simp: push_delta_def split: prod.splits sum.splits dest: push_chars_inv)

lemma finish_ok:
  assumes "parser_inv p" and "finish p = (p', Inr hs)"
  shows "parser_inv p'" and "hs = hunks (state p')" and "\<forall>h \<in> set hs. hunk_complete h"
proof -
  show inv: "parser_inv p'"
  proof (cases "line_buffer p = []")
    case True
    with assms show ?thesis by (auto simp: finish_def split: if_splits)
  next
    case False
    note closes = ensure_closes [of "take_line p"]
    from False assms closes show ?thesis
      by (auto simp: finish_def parser_inv_def [of "set_mode EndedPatch _"] split: if_splits sum.splits
          dest: process_line_inv [rotated]) (auto simp: parser_inv_def)
  qed
  from assms(2) have "mode (state p') = EndedPatch" and hs: "hs = hunks (state p')"
    by (auto simp: finish_def split: sum.splits if_splits)
  with inv show "hs = hunks (state p')" and "\<forall>h \<in> set hs. hunk_complete h"
    by (auto simp: parser_inv_def)
qed

lemma parse_patch_text_run:
  assumes "parse_patch_text s pm = Inr args"
  obtains p p' where "push_delta default_parser (args_patch args) = (p, Inr (hunks (state p)))"
    and "finish p = (p', Inr (args_hunks args))"
    and "args_environment_id args = environment_id (state p')"
proof -
  obtain ls where run: "(let (p, r) = push_delta default_parser (join [LF] ls)
       in and_then r (\<lambda>_. let (p', r') = finish p in
            and_then r' (\<lambda>hs. Inr \<lparr>args_patch = join [LF] ls, args_hunks = hs, args_workdir = None,
              args_environment_id = environment_id (state p')\<rparr>))) = Inr args"
    using assms by (auto simp: parse_patch_text_def Let_def)
  obtain p r where push: "push_delta default_parser (join [LF] ls) = (p, r)"
    by (cases "push_delta default_parser (join [LF] ls)")
  obtain p' r' where fin: "finish p = (p', r')" by (cases "finish p")
  from run push fin obtain hs hs' where "r = Inr hs'" and "r' = Inr hs"
    and args: "args = \<lparr>args_patch = join [LF] ls, args_hunks = hs, args_workdir = None,
      args_environment_id = environment_id (state p')\<rparr>"
    by auto
  moreover from push \<open>r = Inr hs'\<close> have "hs' = hunks (state p)"
    by (auto simp: push_delta_def split: prod.splits sum.splits)
  ultimately show thesis using push fin that by auto
qed

text \<open>
  Every hunk of an accepted patch is complete: each update has at least one chunk, no chunk is
  empty, added files consist of whole lines, and an environment id that is present is not empty.
\<close>

lemma parse_patch_hunks_complete:
  assumes "parse_patch s = Inr args"
  shows "(\<forall>h \<in> set (args_hunks args). hunk_complete h) \<and> args_environment_id args \<noteq> Some []"
proof -
  from assms obtain pm where "parse_patch_text s pm = Inr args"
    by (auto simp: parse_patch_def Let_def)
  then obtain p p' where push: "push_delta default_parser (args_patch args) = (p, Inr (hunks (state p)))"
    and fin: "finish p = (p', Inr (args_hunks args))"
    and env: "args_environment_id args = environment_id (state p')"
    by (rule parse_patch_text_run)
  have "parser_inv p" using push_delta_inv [OF parser_inv_default push] .
  from finish_ok [OF this fin] env show ?thesis
    by (auto simp: parser_inv_def)
qed

definition sample_patch :: string where
  "sample_patch =
     join [LF] [BEGIN_PATCH_MARKER, ENVIRONMENT_ID_MARKER @ '' e1'', UPDATE_FILE_MARKER @ ''f'', ''@@ fn'', ''-a'', ''+b'',
       END_PATCH_MARKER]"

lemma parse_patch_hunks_complete_witness:
  "parse_patch sample_patch =
     Inr \<lparr>args_patch = sample_patch,
          args_hunks = [UpdateFile ''f'' None
            [\<lparr>change_context = Some ''fn'', old_lines = [''a''], new_lines = [''b''], is_end_of_file = False\<rparr>]],
          args_workdir = None, args_environment_id = Some ''e1''\<rparr> \<and>
   hunk_complete (UpdateFile ''f'' None
     [\<lparr>change_context = Some ''fn'', old_lines = [''a''], new_lines = [''b''], is_end_of_file = False\<rparr>])"
proof -
  have parsed: "parse_patch sample_patch =
     Inr \<lparr>args_patch = sample_patch,
          args_hunks = [UpdateFile ''f'' None
            [\<lparr>change_context = Some ''fn'', old_lines = [''a''], new_lines = [''b''], is_end_of_file = False\<rparr>]],
          args_workdir = None, args_environment_id = Some ''e1''\<rparr>"
    by code_simp
  show ?thesis using parsed parse_patch_hunks_complete [OF parsed] by (simp only:) simp
qed

end
