(* ===== verification/Patch_Roundtrip.thy ===== *)
theory Patch_Roundtrip
  imports Patch_Parser
begin

text \<open>
  Printing and parsing patches.  \<open>render_patch\<close> writes hunks in the documented patch grammar
  (\<open>codex-rs/apply-patch/src/parser.rs\<close>, module comment); the main theorem is that \<open>parse_patch\<close>
  reads back exactly the hunks that were written.  \<open>renderable\<close> says which hunks the line format
  can carry at all: paths and context lines without line feeds or trailing white space, content
  lines without line feeds or a trailing carriage return.
\<close>

section \<open>Rendering\<close>

definition render_chunk :: "update_file_chunk \<Rightarrow> string list" where
  "render_chunk c =
     (case change_context c of
        None \<Rightarrow> EMPTY_CHANGE_CONTEXT_MARKER
      | Some ctx \<Rightarrow> CHANGE_CONTEXT_MARKER @ ctx) #
     map (Cons CHR ''-'') (old_lines c) @ map (Cons CHR ''+'') (new_lines c) @
     (if is_end_of_file c then [EOF_MARKER] else [])"

fun render_hunk :: "hunk \<Rightarrow> string list" where
  "render_hunk (AddFile p txt) =
     (ADD_FILE_MARKER @ p) # map (Cons CHR ''+'') (butlast (split_on LF txt))"
| "render_hunk (DeleteFile p) = [DELETE_FILE_MARKER @ p]"
| "render_hunk (UpdateFile p mv cs) =
     (UPDATE_FILE_MARKER @ p) #
     (case mv of None \<Rightarrow> [] | Some q \<Rightarrow> [MOVE_TO_MARKER @ q]) @
     concat (map render_chunk cs)"

definition render_patch :: "hunk list \<Rightarrow> string" where
  "render_patch hs =
     join [LF] (BEGIN_PATCH_MARKER # concat (map render_hunk hs) @ [END_PATCH_MARKER])"

definition line_ok :: "string \<Rightarrow> bool" where
  "line_ok l \<longleftrightarrow> LF \<notin> set l \<and> strip_cr l = l"

definition text_ok :: "string \<Rightarrow> bool" where
  "text_ok t \<longleftrightarrow> t \<noteq> [] \<and> trim_end t = t \<and> LF \<notin> set t"

definition chunk_renderable :: "update_file_chunk \<Rightarrow> bool" where
  "chunk_renderable c \<longleftrightarrow>
     (case change_context c of None \<Rightarrow> True | Some ctx \<Rightarrow> text_ok ctx) \<and>
     \<not> chunk_empty c \<and> list_all line_ok (old_lines c) \<and> list_all line_ok (new_lines c)"

fun renderable :: "hunk \<Rightarrow> bool" where
  "renderable (AddFile p txt) \<longleftrightarrow>
     text_ok p \<and> hunk_complete (AddFile p txt) \<and> list_all line_ok (split_on LF txt)"
| "renderable (DeleteFile p) \<longleftrightarrow> text_ok p"
| "renderable (UpdateFile p mv cs) \<longleftrightarrow>
     text_ok p \<and> (case mv of None \<Rightarrow> True | Some q \<Rightarrow> text_ok q) \<and>
     cs \<noteq> [] \<and> list_all chunk_renderable cs"

section \<open>Rendered lines under trimming\<close>

lemma printable_ascii:
  "byte CHR ''*'' < 128" "byte CHR ''+'' < 128" "byte CHR ''-'' < 128" "byte CHR ''@'' < 128"
  "byte CHR '' '' < 128"
  "CHR ''*'' \<notin> set ascii_whitespace" "CHR ''+'' \<notin> set ascii_whitespace"
  "CHR ''-'' \<notin> set ascii_whitespace" "CHR ''@'' \<notin> set ascii_whitespace"
  by (simp_all add: byte_def ascii_whitespace_def)

text \<open>A marker that ends in a space, followed by a trimmed text, is not changed by trimming.\<close>

lemma trim_end_marker:
  assumes "text_ok t" and "m = q @ '' ''"
  shows "trim_end (m @ t) = m @ t"
  using trim_end_append_ascii [of "CHR '' ''" t q] assms printable_ascii
  by (simp add: text_ok_def)

lemma trim_star:
  assumes "trim_end (CHR ''*'' # s) = CHR ''*'' # s"
  shows "trim (CHR ''*'' # s) = CHR ''*'' # s"
  using assms by (simp add: trim_def trim_start_ascii printable_ascii)

lemma trim_markers:
  assumes "text_ok t"
  shows "trim_end (ADD_FILE_MARKER @ t) = ADD_FILE_MARKER @ t"
    and "trim_end (DELETE_FILE_MARKER @ t) = DELETE_FILE_MARKER @ t"
    and "trim_end (UPDATE_FILE_MARKER @ t) = UPDATE_FILE_MARKER @ t"
    and "trim_end (MOVE_TO_MARKER @ t) = MOVE_TO_MARKER @ t"
    and "trim_end (CHANGE_CONTEXT_MARKER @ t) = CHANGE_CONTEXT_MARKER @ t"
  using trim_end_marker [OF assms, of ADD_FILE_MARKER "''*** Add File:''"]
    trim_end_marker [OF assms, of DELETE_FILE_MARKER "''*** Delete File:''"]
    trim_end_marker [OF assms, of UPDATE_FILE_MARKER "''*** Update File:''"]
    trim_end_marker [OF assms, of MOVE_TO_MARKER "''*** Move to:''"]
    trim_end_marker [OF assms, of CHANGE_CONTEXT_MARKER "''@@''"]
  by (simp_all add: marker_defs)

lemma trim_header:
  assumes "text_ok t"
  shows "trim (ADD_FILE_MARKER @ t) = ADD_FILE_MARKER @ t"
    and "trim (DELETE_FILE_MARKER @ t) = DELETE_FILE_MARKER @ t"
    and "trim (UPDATE_FILE_MARKER @ t) = UPDATE_FILE_MARKER @ t"
  using trim_markers [OF assms] trim_star by (simp_all add: marker_defs)

lemma trim_fixed:
  "trim BEGIN_PATCH_MARKER = BEGIN_PATCH_MARKER"
  "trim END_PATCH_MARKER = END_PATCH_MARKER"
  "trim_end END_PATCH_MARKER = END_PATCH_MARKER"
  "trim_end EOF_MARKER = EOF_MARKER"
  "trim_end EMPTY_CHANGE_CONTEXT_MARKER = EMPTY_CHANGE_CONTEXT_MARKER"
  by code_simp+

lemma trim_end_sign:
  obtains r where "trim_end (CHR ''-'' # l) = CHR ''-'' # r"
  using trim_end_Cons_ascii printable_ascii by blast

lemma trim_end_plus:
  obtains r where "trim_end (CHR ''+'' # l) = CHR ''+'' # r"
  using trim_end_Cons_ascii printable_ascii by blast

lemma trim_plus:
  obtains r where "trim (CHR ''+'' # l) = CHR ''+'' # r"
proof -
  obtain r where "trim_end (CHR ''+'' # l) = CHR ''+'' # r" by (rule trim_end_plus)
  then have "trim (CHR ''+'' # l) = CHR ''+'' # r"
    by (simp add: trim_def trim_start_ascii printable_ascii)
  then show thesis by (rule that)
qed

section \<open>One line\<close>

definition ready :: "streaming_patch_parser \<Rightarrow> bool" where
  "ready p \<longleftrightarrow>
     mode (state p) \<notin> {NotStarted, EndedPatch} \<and> (\<forall>h \<in> set (hunks (state p)). hunk_complete h)"

lemma ready_take_line [simp]: "ready (take_line p) = ready p"
  by (simp add: ready_def)

lemma ensure_ready: "ready p \<Longrightarrow> ensure_update_hunk_is_not_empty p line = Inr ()"
  by (cases "hunks (state p)" rule: rev_cases)
    (auto simp: ready_def ensure_update_hunk_is_not_empty_def last_is_def split: hunk.splits list.splits)

lemma handle_plain:
  "\<not> starts_with t ''***'' \<Longrightarrow> handle_hunk_headers_and_end_patch p t = Inr (False, p)"
  by (auto simp: handle_hunk_headers_and_end_patch_def strip_prefix_def marker_defs starts_with_iff
      split: option.splits)

lemma handle_move_eof:
  "mode (state p) \<noteq> StartedPatch \<Longrightarrow>
     handle_hunk_headers_and_end_patch p (MOVE_TO_MARKER @ q) = Inr (False, p)"
  "mode (state p) \<noteq> StartedPatch \<Longrightarrow>
     handle_hunk_headers_and_end_patch p EOF_MARKER = Inr (False, p)"
  by (simp_all add: handle_hunk_headers_and_end_patch_def strip_prefix_def marker_defs)

lemma handle_add:
  "ready p \<Longrightarrow> handle_hunk_headers_and_end_patch p (ADD_FILE_MARKER @ q) =
     Inr (True, set_mode ModeAddFile (set_hunks (hunks (state p) @ [AddFile q []]) p))"
  by (simp add: handle_hunk_headers_and_end_patch_def strip_prefix_def marker_defs ensure_ready)

lemma handle_delete:
  "ready p \<Longrightarrow> handle_hunk_headers_and_end_patch p (DELETE_FILE_MARKER @ q) =
     Inr (True, set_mode ModeDeleteFile (set_hunks (hunks (state p) @ [DeleteFile q]) p))"
  by (simp add: handle_hunk_headers_and_end_patch_def strip_prefix_def marker_defs ensure_ready)

lemma handle_update:
  "ready p \<Longrightarrow> handle_hunk_headers_and_end_patch p (UPDATE_FILE_MARKER @ q) =
     Inr (True, set_mode (ModeUpdateFile (line_no p))
       (set_hunks (hunks (state p) @ [UpdateFile q None []]) p))"
  by (simp add: handle_hunk_headers_and_end_patch_def strip_prefix_def marker_defs ensure_ready)

text \<open>A handled header ends the processing of its line in every mode of a started patch.\<close>

lemma process_handled:
  assumes "ready p" and "trim l = t" and "trim_end l = t"
    and "handle_hunk_headers_and_end_patch p t = Inr (True, p')"
  shows "process_line p l = Inr p'"
  using assms by (cases "mode (state p)") (auto simp: ready_def process_line_def Let_def)

lemma process_add_line:
  assumes "mode (state p) = ModeAddFile" and "hunks (state p) = hs @ [AddFile q txt]"
  shows "process_line p (CHR ''+'' # l) = Inr (set_hunks (hs @ [AddFile q (txt @ l @ [LF])]) p)"
proof -
  obtain r where "trim (CHR ''+'' # l) = CHR ''+'' # r" by (rule trim_plus)
  then have "handle_hunk_headers_and_end_patch p (trim (CHR ''+'' # l)) = Inr (False, p)"
    by (simp add: handle_plain)
  with assms show ?thesis
    by (simp add: process_line_def Let_def strip_prefix_def)
qed

lemma process_update_line:
  assumes "mode (state p) = ModeUpdateFile n" and "hunks (state p) = hs @ [UpdateFile q mv cs]"
    and "handle_hunk_headers_and_end_patch p (trim_end l) = Inr (False, p)"
    and "update_hunk_line (line_no p) l mv cs = Inr (mv', cs')"
  shows "process_line p l =
     Inr (set_mode (ModeUpdateFile n) (set_hunks (hs @ [UpdateFile q mv' cs']) p))"
  using assms by (simp add: process_line_def Let_def)

lemma update_move:
  "text_ok t \<Longrightarrow> update_hunk_line ln (MOVE_TO_MARKER @ t) None [] = Inr (Some t, [])"
  by (simp add: update_hunk_line_def Let_def trim_markers)

definition context_line :: "string option \<Rightarrow> string" where
  "context_line ctx =
     (case ctx of None \<Rightarrow> EMPTY_CHANGE_CONTEXT_MARKER | Some c \<Rightarrow> CHANGE_CONTEXT_MARKER @ c)"

lemma trim_end_context_line:
  "(case ctx of None \<Rightarrow> True | Some c \<Rightarrow> text_ok c) \<Longrightarrow> trim_end (context_line ctx) = context_line ctx"
  by (auto simp: context_line_def trim_fixed trim_markers split: option.splits)

lemma update_context:
  assumes "case ctx of None \<Rightarrow> True | Some c \<Rightarrow> text_ok c" and "\<not> last_is chunk_empty cs"
  shows "update_hunk_line ln (context_line ctx) mv cs = Inr (mv, cs @ [empty_chunk ctx])"
  using assms trim_end_context_line [OF assms(1)]
  by (cases ctx) (auto simp: update_hunk_line_def Let_def context_line_def is_context_marker_def
      marker_defs strip_prefix_def text_ok_def)

lemma update_minus:
  assumes "\<not> is_end_of_file c"
  shows "update_hunk_line ln (CHR ''-'' # l) mv (cs @ [c]) =
     Inr (mv, cs @ [c\<lparr>old_lines := old_lines c @ [l]\<rparr>])"
proof -
  obtain r where "trim_end (CHR ''-'' # l) = CHR ''-'' # r" by (rule trim_end_sign)
  with assms show ?thesis
    by (simp add: update_hunk_line_def Let_def is_context_marker_def marker_defs add_lines_def)
qed

lemma update_plus:
  assumes "\<not> is_end_of_file c"
  shows "update_hunk_line ln (CHR ''+'' # l) mv (cs @ [c]) =
     Inr (mv, cs @ [c\<lparr>new_lines := new_lines c @ [l]\<rparr>])"
proof -
  obtain r where "trim_end (CHR ''+'' # l) = CHR ''+'' # r" by (rule trim_end_plus)
  with assms show ?thesis
    by (simp add: update_hunk_line_def Let_def is_context_marker_def marker_defs add_lines_def)
qed

lemma update_eof:
  assumes "\<not> is_end_of_file c" and "\<not> chunk_empty c"
  shows "update_hunk_line ln EOF_MARKER mv (cs @ [c]) = Inr (mv, cs @ [c\<lparr>is_end_of_file := True\<rparr>])"
  using assms by (simp add: update_hunk_line_def Let_def is_context_marker_def trim_fixed)
    (simp add: marker_defs)

section \<open>Sequences of lines\<close>

fun feed_lines :: "streaming_patch_parser \<Rightarrow> string list \<Rightarrow> parse_error + streaming_patch_parser" where
  "feed_lines p [] = Inr p"
| "feed_lines p (l # ls) = and_then (process_line (take_line p) l) (\<lambda>p'. feed_lines p' ls)"

lemma feed_lines_append:
  "feed_lines p (xs @ ys) = and_then (feed_lines p xs) (\<lambda>p'. feed_lines p' ys)"
  by (induction xs arbitrary: p) (auto simp: and_then_assoc)

text \<open>What a run of lines leaves behind, as far as the rest of the parse depends on it.\<close>

definition reaches ::
  "streaming_patch_parser \<Rightarrow> string list \<Rightarrow> streaming_patch_parser \<Rightarrow> bool" where
  "reaches p ls p' \<longleftrightarrow>
     feed_lines p ls = Inr p' \<and>
     (line_buffer p = [] \<longrightarrow> line_buffer p' = []) \<and>
     environment_id (state p') = environment_id (state p)"

lemma reaches_Nil: "reaches p [] p"
  by (simp add: reaches_def)

lemma reaches_append: "reaches p xs q \<Longrightarrow> reaches q ys r \<Longrightarrow> reaches p (xs @ ys) r"
  by (auto simp: reaches_def feed_lines_append)

lemma reaches_Cons:
  "process_line (take_line p) l = Inr q \<Longrightarrow> line_buffer q = [] \<Longrightarrow>
     environment_id (state q) = environment_id (state p) \<Longrightarrow> reaches q ls r \<Longrightarrow> reaches p (l # ls) r"
  by (auto simp: reaches_def)

lemma reaches_single:
  "process_line (take_line p) l = Inr q \<Longrightarrow> line_buffer q = [] \<Longrightarrow>
     environment_id (state q) = environment_id (state p) \<Longrightarrow> reaches p [l] q"
  by (auto simp: reaches_def)

text \<open>The parser is inside the last hunk.\<close>

definition in_add :: "streaming_patch_parser \<Rightarrow> hunk list \<Rightarrow> string \<Rightarrow> string \<Rightarrow> bool" where
  "in_add p hs q body \<longleftrightarrow> mode (state p) = ModeAddFile \<and> hunks (state p) = hs @ [AddFile q body]"

definition in_update ::
  "streaming_patch_parser \<Rightarrow> hunk list \<Rightarrow> string \<Rightarrow> string option \<Rightarrow> update_file_chunk list \<Rightarrow> bool" where
  "in_update p hs q mv cs \<longleftrightarrow>
     (\<exists>n. mode (state p) = ModeUpdateFile n) \<and> hunks (state p) = hs @ [UpdateFile q mv cs]"

lemma reaches_add_lines:
  "in_add p hs q body \<Longrightarrow>
     \<exists>p'. reaches p (map (Cons CHR ''+'') ls) p' \<and>
          in_add p' hs q (body @ concat (map (\<lambda>l. l @ [LF]) ls))"
proof (induction ls arbitrary: p body)
  case Nil
  then show ?case by (auto intro: reaches_Nil)
next
  case (Cons l ls)
  let ?p = "set_hunks (hs @ [AddFile q (body @ l @ [LF])]) (take_line p)"
  have step: "process_line (take_line p) (CHR ''+'' # l) = Inr ?p"
    using Cons.prems by (intro process_add_line) (auto simp: in_add_def)
  have "in_add ?p hs q (body @ l @ [LF])"
    using Cons.prems by (simp add: in_add_def)
  from Cons.IH [OF this] obtain p' where
    "reaches ?p (map (Cons CHR ''+'') ls) p'"
    "in_add p' hs q ((body @ l @ [LF]) @ concat (map (\<lambda>l. l @ [LF]) ls))"
    by blast
  then show ?case
    by (intro exI [of _ p']) (auto intro: reaches_Cons [OF step])
qed

text \<open>One line inside an update hunk.\<close>

lemma reaches_update_line:
  assumes "in_update p hs q mv cs"
    and "handle_hunk_headers_and_end_patch (take_line p) (trim_end l) = Inr (False, take_line p)"
    and "\<And>ln. update_hunk_line ln l mv cs = Inr (mv', cs')"
  shows "\<exists>p'. reaches p [l] p' \<and> in_update p' hs q mv' cs'"
proof -
  from assms(1) obtain n where m: "mode (state p) = ModeUpdateFile n"
    and h: "hunks (state p) = hs @ [UpdateFile q mv cs]"
    by (auto simp: in_update_def)
  let ?p = "set_mode (ModeUpdateFile n) (set_hunks (hs @ [UpdateFile q mv' cs']) (take_line p))"
  have "process_line (take_line p) l = Inr ?p"
    using m h assms(2,3) by (intro process_update_line) auto
  then have "reaches p [l] ?p" by (rule reaches_single) simp_all
  then show ?thesis by (intro exI [of _ ?p]) (simp add: in_update_def)
qed

lemma reaches_map:
  assumes step: "\<And>p x c. in_update p hs q mv (cs @ [c]) \<Longrightarrow> \<not> is_end_of_file c \<Longrightarrow>
      \<exists>p'. reaches p [g x] p' \<and> in_update p' hs q mv (cs @ [upd c x])"
    and eof: "\<And>c x. is_end_of_file (upd c x) = is_end_of_file c"
    and "in_update p hs q mv (cs @ [c])" and "\<not> is_end_of_file c"
  shows "\<exists>p'. reaches p (map g xs) p' \<and> in_update p' hs q mv (cs @ [foldl upd c xs])"
  using assms(3,4)
proof (induction xs arbitrary: p c)
  case Nil
  then show ?case by (auto intro: reaches_Nil)
next
  case (Cons x xs)
  from step [OF Cons.prems] obtain p1 where p1: "reaches p [g x] p1"
    "in_update p1 hs q mv (cs @ [upd c x])" by blast
  with Cons.IH [of p1 "upd c x"] Cons.prems(2) eof obtain p2 where
    "reaches p1 (map g xs) p2" "in_update p2 hs q mv (cs @ [foldl upd (upd c x) xs])"
    by auto
  with p1 reaches_append [of p "[g x]" p1 "map g xs" p2] show ?case by auto
qed

lemma foldl_old: "foldl (\<lambda>c l. c\<lparr>old_lines := old_lines c @ [l]\<rparr>) c ls =
    c\<lparr>old_lines := old_lines c @ ls\<rparr>"
  by (induction ls arbitrary: c) auto

lemma foldl_new: "foldl (\<lambda>c l. c\<lparr>new_lines := new_lines c @ [l]\<rparr>) c ls =
    c\<lparr>new_lines := new_lines c @ ls\<rparr>"
  by (induction ls arbitrary: c) auto

lemma handle_minus: "handle_hunk_headers_and_end_patch p (trim_end (CHR ''-'' # l)) = Inr (False, p)"
proof -
  obtain r where "trim_end (CHR ''-'' # l) = CHR ''-'' # r" by (rule trim_end_sign)
  then show ?thesis by (simp add: handle_plain)
qed

lemma handle_plus: "handle_hunk_headers_and_end_patch p (trim_end (CHR ''+'' # l)) = Inr (False, p)"
proof -
  obtain r where "trim_end (CHR ''+'' # l) = CHR ''+'' # r" by (rule trim_end_plus)
  then show ?thesis by (simp add: handle_plain)
qed

lemma handle_context:
  "(case ctx of None \<Rightarrow> True | Some c \<Rightarrow> text_ok c) \<Longrightarrow>
     handle_hunk_headers_and_end_patch p (trim_end (context_line ctx)) = Inr (False, p)"
  by (simp add: trim_end_context_line) (auto intro!: handle_plain simp: context_line_def marker_defs
      split: option.splits)

lemma reaches_minus_lines:
  assumes "in_update p hs q mv (cs @ [c])" and "\<not> is_end_of_file c"
  shows "\<exists>p'. reaches p (map (Cons CHR ''-'') ls) p' \<and>
     in_update p' hs q mv (cs @ [c\<lparr>old_lines := old_lines c @ ls\<rparr>])"
  using reaches_map [where g = "Cons CHR ''-''" and upd = "\<lambda>c l. c\<lparr>old_lines := old_lines c @ [l]\<rparr>"
      and xs = ls, OF _ _ assms]
    reaches_update_line [OF _ handle_minus update_minus]
  by (simp add: foldl_old)

lemma reaches_plus_lines:
  assumes "in_update p hs q mv (cs @ [c])" and "\<not> is_end_of_file c"
  shows "\<exists>p'. reaches p (map (Cons CHR ''+'') ls) p' \<and>
     in_update p' hs q mv (cs @ [c\<lparr>new_lines := new_lines c @ ls\<rparr>])"
  using reaches_map [where g = "Cons CHR ''+''" and upd = "\<lambda>c l. c\<lparr>new_lines := new_lines c @ [l]\<rparr>"
      and xs = ls, OF _ _ assms]
    reaches_update_line [OF _ handle_plus update_plus]
  by (simp add: foldl_new)

lemma reaches_eof:
  assumes "in_update p hs q mv (cs @ [c])" and "\<not> is_end_of_file c" and "\<not> chunk_empty c"
  shows "\<exists>p'. reaches p (if b then [EOF_MARKER] else []) p' \<and>
     in_update p' hs q mv (cs @ [c\<lparr>is_end_of_file := b\<rparr>])"
proof (cases b)
  case True
  have "mode (state (take_line p)) \<noteq> StartedPatch" using assms(1) by (auto simp: in_update_def)
  then have "handle_hunk_headers_and_end_patch (take_line p) (trim_end EOF_MARKER) =
      Inr (False, take_line p)"
    by (simp add: trim_fixed handle_move_eof)
  from reaches_update_line [OF assms(1) this update_eof [OF assms(2,3)]] True show ?thesis by simp
next
  case False
  with assms have "c\<lparr>is_end_of_file := b\<rparr> = c" by simp
  with assms(1) False show ?thesis by (auto intro: reaches_Nil)
qed

lemma reaches_chunk:
  assumes "in_update p hs q mv cs" and "chunk_renderable c" and "\<forall>c \<in> set cs. \<not> chunk_empty c"
  shows "\<exists>p'. reaches p (render_chunk c) p' \<and> in_update p' hs q mv (cs @ [c])"
proof -
  let ?ctx = "change_context c"
  from assms(2) have ctx: "case ?ctx of None \<Rightarrow> True | Some x \<Rightarrow> text_ok x"
    and ne: "\<not> chunk_empty c" by (auto simp: chunk_renderable_def)
  have open_cs: "\<not> last_is chunk_empty cs" using assms(3) by (auto simp: last_is_def)
  obtain p1 where p1: "reaches p [context_line ?ctx] p1" "in_update p1 hs q mv (cs @ [empty_chunk ?ctx])"
    using reaches_update_line [OF assms(1) handle_context [OF ctx] update_context [OF ctx open_cs]]
    by blast
  obtain p2 where p2: "reaches p1 (map (Cons CHR ''-'') (old_lines c)) p2"
    "in_update p2 hs q mv (cs @ [(empty_chunk ?ctx)\<lparr>old_lines := old_lines c\<rparr>])"
    using reaches_minus_lines [OF p1(2), of "old_lines c"] by (auto simp: empty_chunk_def)
  obtain p3 where p3: "reaches p2 (map (Cons CHR ''+'') (new_lines c)) p3"
    "in_update p3 hs q mv (cs @ [(empty_chunk ?ctx)\<lparr>old_lines := old_lines c, new_lines := new_lines c\<rparr>])"
    using reaches_plus_lines [OF p2(2), of "new_lines c"] by (auto simp: empty_chunk_def)
  let ?c = "(empty_chunk ?ctx)\<lparr>old_lines := old_lines c, new_lines := new_lines c\<rparr>"
  have whole: "?c\<lparr>is_end_of_file := is_end_of_file c\<rparr> = c" and "\<not> is_end_of_file ?c" and "\<not> chunk_empty ?c"
    using ne by (simp_all add: empty_chunk_def chunk_empty_def)
  from reaches_eof [OF p3(2) this(2,3), of "is_end_of_file c", unfolded whole] obtain p4 where
    p4: "reaches p3 (if is_end_of_file c then [EOF_MARKER] else []) p4" "in_update p4 hs q mv (cs @ [c])"
    by blast
  have "render_chunk c = [context_line ?ctx] @ map (Cons CHR ''-'') (old_lines c) @
      map (Cons CHR ''+'') (new_lines c) @ (if is_end_of_file c then [EOF_MARKER] else [])"
    by (simp add: render_chunk_def context_line_def)
  with reaches_append [OF p1(1) reaches_append [OF p2(1) reaches_append [OF p3(1) p4(1)]]] p4(2)
  show ?thesis by (intro exI [of _ p4]) simp
qed

lemma reaches_chunks:
  assumes "in_update p hs q mv cs" and "list_all chunk_renderable new" and "\<forall>c \<in> set cs. \<not> chunk_empty c"
  shows "\<exists>p'. reaches p (concat (map render_chunk new)) p' \<and> in_update p' hs q mv (cs @ new)"
  using assms
proof (induction new arbitrary: p cs)
  case Nil
  then show ?case by (auto intro: reaches_Nil)
next
  case (Cons c new)
  then obtain p1 where p1: "reaches p (render_chunk c) p1" "in_update p1 hs q mv (cs @ [c])"
    using reaches_chunk [OF Cons.prems(1), of c] by auto
  moreover obtain p2 where "reaches p1 (concat (map render_chunk new)) p2"
    "in_update p2 hs q mv ((cs @ [c]) @ new)"
    using Cons.IH [OF p1(2)] Cons.prems by (auto simp: chunk_renderable_def)
  ultimately show ?case by (auto intro: reaches_append)
qed

section \<open>Whole hunks and patches\<close>

lemma ready_in_add: "in_add p hs q body \<Longrightarrow> \<forall>h \<in> set hs. hunk_complete h \<Longrightarrow>
    hunk_complete (AddFile q body) \<Longrightarrow> ready p"
  by (auto simp: in_add_def ready_def)

lemma ready_in_update: "in_update p hs q mv cs \<Longrightarrow> \<forall>h \<in> set hs. hunk_complete h \<Longrightarrow>
    hunk_complete (UpdateFile q mv cs) \<Longrightarrow> ready p"
  by (auto simp: in_update_def ready_def)

lemma split_on_lines:
  "hunk_complete (AddFile q body) \<Longrightarrow> concat (map (\<lambda>l. l @ [LF]) (butlast (split_on LF body))) = body"
proof -
  have "concat (map (\<lambda>l. l @ [LF]) (butlast ps)) @ last ps = join [LF] ps" if "ps \<noteq> []" for ps
    using that by (induction ps) (auto simp: join_Cons)
  from this [of "split_on LF body"] have
    eq: "concat (map (\<lambda>l. l @ [LF]) (butlast (split_on LF body))) @ last (split_on LF body) = body"
    by (simp add: join_split_on)
  assume "hunk_complete (AddFile q body)"
  moreover have "last (split_on LF body) = []" if "body \<noteq> []" "last body = LF"
    using that split_on_snoc [of LF "butlast body"] by (cases body rule: rev_cases) auto
  ultimately show ?thesis using eq by (cases "body = []") auto
qed

lemma reaches_hunk:
  assumes "ready p" and "renderable h"
  shows "\<exists>p'. reaches p (render_hunk h) p' \<and> ready p' \<and> hunks (state p') = hunks (state p) @ [h]"
proof (cases h)
  case (AddFile q body)
  let ?p = "set_mode ModeAddFile (set_hunks (hunks (state p) @ [AddFile q []]) (take_line p))"
  have step: "process_line (take_line p) (ADD_FILE_MARKER @ q) = Inr ?p"
    using assms AddFile handle_add [of "take_line p" q]
    by (intro process_handled) (auto simp: trim_header trim_markers)
  have "in_add ?p (hunks (state p)) q []" by (simp add: in_add_def)
  moreover have "concat (map (\<lambda>l. l @ [LF]) (butlast (split_on LF body))) = body"
    using assms(2) AddFile by (intro split_on_lines) simp
  ultimately obtain p' where
    p': "reaches ?p (map (Cons CHR ''+'') (butlast (split_on LF body))) p'"
    "in_add p' (hunks (state p)) q body"
    using reaches_add_lines [of ?p _ q "[]" "butlast (split_on LF body)"] by (metis append_Nil)
  have "ready p'"
    using p'(2) assms AddFile by (intro ready_in_add) (auto simp: ready_def)
  with p' AddFile reaches_Cons [OF step _ _ p'(1)] show ?thesis by (auto simp: in_add_def)
next
  case (DeleteFile q)
  let ?p = "set_mode ModeDeleteFile (set_hunks (hunks (state p) @ [DeleteFile q]) (take_line p))"
  have "process_line (take_line p) (DELETE_FILE_MARKER @ q) = Inr ?p"
    using assms DeleteFile handle_delete [of "take_line p" q]
    by (intro process_handled) (auto simp: trim_header trim_markers)
  then have "reaches p (render_hunk h) ?p" using DeleteFile by (auto intro: reaches_single)
  moreover have "ready ?p" using assms(1) by (auto simp: ready_def)
  ultimately show ?thesis using DeleteFile by (intro exI [of _ ?p]) simp
next
  case (UpdateFile q mv cs)
  let ?hs = "hunks (state p)"
  let ?p = "set_mode (ModeUpdateFile (Suc (line_no p))) (set_hunks (?hs @ [UpdateFile q None []]) (take_line p))"
  have step: "process_line (take_line p) (UPDATE_FILE_MARKER @ q) = Inr ?p"
    using assms UpdateFile handle_update [of "take_line p" q]
    by (intro process_handled) (auto simp: trim_header trim_markers)
  have p0: "in_update ?p ?hs q None []" by (simp add: in_update_def)
  obtain p1 where p1: "reaches ?p (case mv of None \<Rightarrow> [] | Some q \<Rightarrow> [MOVE_TO_MARKER @ q]) p1"
    "in_update p1 ?hs q mv []"
  proof (cases mv)
    case None
    with p0 show thesis by (intro that [of ?p]) (auto intro: reaches_Nil)
  next
    case (Some t)
    with assms(2) UpdateFile have t: "text_ok t" by simp
    have "handle_hunk_headers_and_end_patch (take_line ?p) (trim_end (MOVE_TO_MARKER @ t)) =
        Inr (False, take_line ?p)"
      using t by (simp add: trim_markers handle_move_eof)
    from reaches_update_line [OF p0 this update_move [OF t]] Some that show thesis by auto
  qed
  obtain p2 where p2: "reaches p1 (concat (map render_chunk cs)) p2" "in_update p2 ?hs q mv cs"
    using reaches_chunks [OF p1(2), of cs] assms(2) UpdateFile by auto
  have complete: "hunk_complete (UpdateFile q mv cs)"
    using assms(2) UpdateFile by (auto simp: list_all_iff chunk_renderable_def)
  have "reaches p (render_hunk h) p2"
    using UpdateFile reaches_Cons [OF step _ _ reaches_append [OF p1(1) p2(1)]] by simp
  moreover have "ready p2" using ready_in_update [OF p2(2) _ complete] assms(1) by (simp add: ready_def)
  ultimately show ?thesis using p2(2) UpdateFile by (auto simp: in_update_def)
qed

lemma reaches_hunks:
  assumes "ready p" and "list_all renderable hs"
  shows "\<exists>p'. reaches p (concat (map render_hunk hs)) p' \<and> ready p' \<and>
     hunks (state p') = hunks (state p) @ hs"
  using assms
proof (induction hs arbitrary: p)
  case Nil
  then show ?case by (auto intro: reaches_Nil)
next
  case (Cons h hs)
  then obtain p1 where p1: "reaches p (render_hunk h) p1" "ready p1"
    "hunks (state p1) = hunks (state p) @ [h]"
    using reaches_hunk by fastforce
  with Cons.IH [OF p1(2)] Cons.prems obtain p2 where "reaches p1 (concat (map render_hunk hs)) p2"
    "ready p2" "hunks (state p2) = hunks (state p1) @ hs" by auto
  with p1 show ?case by (auto intro: reaches_append)
qed

section \<open>From lines to text\<close>

lemma handle_buffer:
  "handle_hunk_headers_and_end_patch p t = Inr (b, p') \<Longrightarrow> line_buffer p' = line_buffer p"
  by (auto simp: handle_hunk_headers_and_end_patch_def split: option.splits if_splits)

lemma process_line_buffer: "process_line p l = Inr p' \<Longrightarrow> line_buffer p' = line_buffer p"
  by (cases "mode (state p)")
    (auto simp: process_line_def Let_def split: if_splits option.splits hunk.splits dest!: handle_buffer)

lemma push_chars_no_lf:
  "LF \<notin> set l \<Longrightarrow> push_chars p l = (p\<lparr>line_buffer := line_buffer p @ l\<rparr>, Inr ())"
  by (induction l arbitrary: p) auto

lemma take_line_buffer [simp]: "take_line (p\<lparr>line_buffer := b\<rparr>) = take_line p"
  by (simp add: take_line_def)

lemma push_chars_lines:
  assumes "feed_lines p ls = Inr p'" and "line_buffer p = []" and "list_all line_ok ls"
  shows "push_chars p (concat (map (\<lambda>l. l @ [LF]) ls) @ rest) = push_chars p' rest"
  using assms
proof (induction ls arbitrary: p)
  case Nil
  then show ?case by simp
next
  case (Cons l ls)
  from Cons.prems obtain q where q: "process_line (take_line p) l = Inr q" "feed_lines q ls = Inr p'"
    by auto
  from process_line_buffer [OF q(1)] have "line_buffer q = []" by simp
  with Cons.IH [OF q(2)] Cons.prems q(1) show ?case
    by (simp add: push_chars_append push_chars_no_lf line_ok_def)
qed

lemma text_ok_last: "text_ok t \<Longrightarrow> last t \<noteq> CR"
proof
  assume t: "text_ok t" and "last t = CR"
  then obtain u where u: "t = u @ [CR]" by (metis append_butlast_last_id text_ok_def)
  from t have "trim_with (map rev wide_whitespace) (rev t) = rev t"
    unfolding text_ok_def trim_end_def by (metis rev_rev_ident)
  then have "ws_width (map rev wide_whitespace) (rev t) = 0" by (rule trim_with_fixpoint)
  with u show False by (simp add: ws_width_def ascii_whitespace_def)
qed

lemma line_ok_text: "text_ok t \<Longrightarrow> LF \<notin> set m \<Longrightarrow> line_ok (m @ t)"
  using text_ok_last [of t] by (auto simp: line_ok_def text_ok_def intro: strip_cr_id)

lemma line_ok_sign: "line_ok l \<Longrightarrow> c \<noteq> LF \<Longrightarrow> c \<noteq> CR \<Longrightarrow> line_ok (c # l)"
  by (auto simp: line_ok_def strip_cr_def split: if_splits)

lemma line_ok_markers:
  "LF \<notin> set ADD_FILE_MARKER" "LF \<notin> set DELETE_FILE_MARKER" "LF \<notin> set UPDATE_FILE_MARKER"
  "LF \<notin> set MOVE_TO_MARKER" "LF \<notin> set CHANGE_CONTEXT_MARKER"
  "line_ok EMPTY_CHANGE_CONTEXT_MARKER" "line_ok EOF_MARKER" "line_ok BEGIN_PATCH_MARKER"
  "line_ok END_PATCH_MARKER"
  by (simp_all add: marker_defs line_ok_def strip_cr_def)

lemma list_all_sign:
  "list_all line_ok ls \<Longrightarrow> list_all line_ok (map (Cons CHR ''-'') ls)"
  "list_all line_ok ls \<Longrightarrow> list_all line_ok (map (Cons CHR ''+'') ls)"
  by (auto simp: list_all_iff intro: line_ok_sign)

lemma line_ok_chunk: "chunk_renderable c \<Longrightarrow> list_all line_ok (render_chunk c)"
  by (auto simp: chunk_renderable_def render_chunk_def line_ok_markers line_ok_text list_all_sign
      split: option.splits)

lemma line_ok_hunk: "renderable h \<Longrightarrow> list_all line_ok (render_hunk h)"
proof (cases h)
  case (AddFile q body)
  assume h: "renderable h"
  then have "list_all line_ok (butlast (split_on LF body))"
    using AddFile by (auto simp: list_all_iff dest: in_set_butlastD)
  with h AddFile show ?thesis by (simp add: line_ok_text line_ok_markers list_all_sign)
next
  case (UpdateFile q mv cs)
  assume h: "renderable h"
  with UpdateFile have "list_all line_ok (concat (map render_chunk cs))"
    by (auto simp: list_all_iff dest!: line_ok_chunk)
  with h UpdateFile show ?thesis
    by (auto simp: line_ok_text line_ok_markers split: option.splits)
qed (simp add: line_ok_text line_ok_markers)

definition patch_lines :: "hunk list \<Rightarrow> string list" where
  "patch_lines hs = BEGIN_PATCH_MARKER # concat (map render_hunk hs)"

lemma render_patch_eq: "render_patch hs = join [LF] (patch_lines hs @ [END_PATCH_MARKER])"
  by (simp add: render_patch_def patch_lines_def)

lemma patch_lines_ok: "list_all renderable hs \<Longrightarrow> list_all line_ok (patch_lines hs)"
  by (auto simp: patch_lines_def line_ok_markers list_all_iff dest!: line_ok_hunk)

lemma join_lf_snoc: "join [LF] (ls @ [l]) = concat (map (\<lambda>l. l @ [LF]) ls) @ l"
proof (induction ls)
  case (Cons x ls)
  then show ?case by (simp add: join_Cons)
qed simp

lemma trim_render: "trim (render_patch hs) = render_patch hs"
proof -
  obtain a where "render_patch hs = CHR ''*'' # a"
    by (auto simp: render_patch_def join_Cons BEGIN_PATCH_MARKER_def)
  moreover obtain b where b: "render_patch hs = b @ [CHR ''h'']"
    by (simp add: render_patch_eq join_lf_snoc END_PATCH_MARKER_def)
  moreover have "trim_end (render_patch hs) = render_patch hs"
    unfolding b by (rule trim_end_ascii) (simp_all add: byte_def ascii_whitespace_def)
  ultimately show ?thesis by (simp add: trim_def trim_start_ascii printable_ascii)
qed

lemma str_lines_render:
  "list_all renderable hs \<Longrightarrow> str_lines (render_patch hs) = patch_lines hs @ [END_PATCH_MARKER]"
  unfolding render_patch_eq
  using patch_lines_ok [of hs] line_ok_markers(9)
  by (intro str_lines_join) (auto simp: list_all_iff line_ok_def END_PATCH_MARKER_def)

lemma run_render:
  assumes "list_all renderable hs"
  shows "\<exists>p p'. push_delta default_parser (render_patch hs) = (p, Inr (hunks (state p))) \<and>
     finish p = (p', Inr hs) \<and> environment_id (state p') = None"
proof -
  let ?s = "set_mode StartedPatch (take_line default_parser)"
  have start: "process_line (take_line default_parser) BEGIN_PATCH_MARKER = Inr ?s"
    by (simp add: process_line_def trim_fixed default_parser_def)
  have "ready ?s" by (simp add: ready_def default_parser_def)
  from reaches_hunks [OF this assms] obtain p where p:
    "reaches ?s (concat (map render_hunk hs)) p" "ready p" "hunks (state p) = hs"
    by (auto simp: default_parser_def)
  have all: "reaches default_parser (patch_lines hs) p"
    unfolding patch_lines_def by (rule reaches_Cons [OF start _ _ p(1)]) simp_all
  let ?p = "p\<lparr>line_buffer := END_PATCH_MARKER\<rparr>"
  have "push_chars default_parser (render_patch hs) = push_chars p END_PATCH_MARKER"
    using all patch_lines_ok [OF assms]
    by (simp add: render_patch_eq join_lf_snoc push_chars_lines reaches_def default_parser_def)
  also have "\<dots> = (?p, Inr ())"
    using all line_ok_markers(9)
    by (simp add: push_chars_no_lf line_ok_def reaches_def default_parser_def)
  finally have push: "push_delta default_parser (render_patch hs) = (?p, Inr (hunks (state ?p)))"
    by (simp add: push_delta_def)
  have "ensure_update_hunk_is_not_empty (take_line p) END_PATCH_MARKER = Inr ()"
    using p(2) by (simp add: ensure_ready)
  then have "finish ?p = (set_mode EndedPatch (take_line p), Inr hs)"
    using p(3) by (simp add: finish_def trim_fixed) (simp add: marker_defs)
  with push all show ?thesis by (auto simp: reaches_def default_parser_def)
qed

text \<open>
  C11: parsing inverts rendering: for hunks the line format can carry, \<open>parse_patch\<close> accepts the
  rendered patch and returns exactly those hunks, with the patch text unchanged.
\<close>

theorem parse_render_patch:
  assumes "list_all renderable hs"
  shows "parse_patch (render_patch hs) =
     Inr \<lparr>args_patch = render_patch hs, args_hunks = hs, args_workdir = None,
          args_environment_id = None\<rparr>"
proof -
  have "check_patch_boundaries_strict (patch_lines hs @ [END_PATCH_MARKER]) =
      Inr (patch_lines hs @ [END_PATCH_MARKER])"
    by (simp add: check_patch_boundaries_strict_def check_start_and_end_lines_strict_def
        patch_lines_def trim_fixed last_opt_def)
  with run_render [OF assms] show ?thesis
    by (auto simp: parse_patch_def PARSE_IN_STRICT_MODE_def parse_patch_text_def Let_def trim_render
        str_lines_render [OF assms] check_patch_boundaries_lenient_def render_patch_eq [symmetric])
qed

definition sample_hunks :: "hunk list" where
  "sample_hunks =
     [AddFile ''a.txt'' (''hi'' @ [LF]),
      UpdateFile ''b.txt'' (Some ''c.txt'')
        [\<lparr>change_context = Some ''fn f'', old_lines = [''x'', '' y ''], new_lines = [''z''],
          is_end_of_file = True\<rparr>],
      DeleteFile ''d.txt'']"

theorem parse_render_patch_witness:
  "list_all renderable sample_hunks \<and>
   parse_patch (render_patch sample_hunks) =
     Inr \<lparr>args_patch = render_patch sample_hunks, args_hunks = sample_hunks, args_workdir = None,
          args_environment_id = None\<rparr>"
proof -
  have "list_all renderable sample_hunks" by code_simp
  then show ?thesis using parse_render_patch [of sample_hunks] by simp
qed

end
