(* ===== verification/Seek_Sequence.thy ===== *)
theory Seek_Sequence
  imports Prelude
begin

text \<open>
  \<open>codex-rs/apply-patch/src/seek_sequence.rs\<close>: locating the lines of a patch chunk in a file.

  Four passes of decreasing strictness look for the first window of the file that equals the
  pattern; each pass compares lines through a key (the line itself, without trailing white space,
  without surrounding white space, with typographic punctuation normalised).  The locale
  \<open>coarser\<close> states the contract between two consecutive passes: lines the stricter key identifies
  the coarser key identifies too.
\<close>

section \<open>Definitions\<close>

text \<open>
  The punctuation table of \<open>normalise\<close>: the UTF-8 encoding of each scalar value it replaces.
\<close>

definition fancy_dashes :: "string list" where
  "fancy_dashes =
     map (\<lambda>b. [CHR 0xE2, CHR 0x80, b])
       [CHR 0x90, CHR 0x91, CHR 0x92, CHR 0x93, CHR 0x94, CHR 0x95] @
     [[CHR 0xE2, CHR 0x88, CHR 0x92]]"

definition fancy_single_quotes :: "string list" where
  "fancy_single_quotes =
     map (\<lambda>b. [CHR 0xE2, CHR 0x80, b]) [CHR 0x98, CHR 0x99, CHR 0x9A, CHR 0x9B]"

definition fancy_double_quotes :: "string list" where
  "fancy_double_quotes =
     map (\<lambda>b. [CHR 0xE2, CHR 0x80, b]) [CHR 0x9C, CHR 0x9D, CHR 0x9E, CHR 0x9F]"

definition odd_spaces :: "string list" where
  "odd_spaces =
     [[CHR 0xC2, CHR 0xA0]] @
     map (\<lambda>b. [CHR 0xE2, CHR 0x80, b])
       [CHR 0x82, CHR 0x83, CHR 0x84, CHR 0x85, CHR 0x86, CHR 0x87, CHR 0x88, CHR 0x89, CHR 0x8A,
        CHR 0xAF] @
     [[CHR 0xE2, CHR 0x81, CHR 0x9F], [CHR 0xE3, CHR 0x80, CHR 0x80]]"

definition punctuation_table :: "(string \<times> char) list" where
  "punctuation_table =
     map (\<lambda>w. (w, CHR ''-'')) fancy_dashes @
     map (\<lambda>w. (w, CHR 0x27)) fancy_single_quotes @
     map (\<lambda>w. (w, CHR 0x22)) fancy_double_quotes @
     map (\<lambda>w. (w, CHR '' '')) odd_spaces"

text \<open>
  \<open>chars().map(..).collect()\<close>.  The first argument counts the bytes still to be skipped of a
  scalar value that has been replaced.
\<close>

fun normalise_chars :: "nat \<Rightarrow> string \<Rightarrow> string" where
  "normalise_chars n [] = []"
| "normalise_chars (Suc n) (c # s) = normalise_chars n s"
| "normalise_chars 0 (c # s) =
     (case find (\<lambda>(w, _). starts_with (c # s) w) punctuation_table of
        None \<Rightarrow> c # normalise_chars 0 s
      | Some (w, d) \<Rightarrow> d # normalise_chars (length w - 1) s)"

definition normalise :: "string \<Rightarrow> string" where
  "normalise s = normalise_chars 0 (trim s)"

text \<open>The window of the file a pattern would replace, and its comparison under a key.\<close>

definition window_matches ::
  "(string \<Rightarrow> string) \<Rightarrow> string list \<Rightarrow> string list \<Rightarrow> nat \<Rightarrow> bool" where
  "window_matches key lines pattern i \<longleftrightarrow>
     list_all2 (\<lambda>l p. key l = key p) (take (length pattern) (drop i lines)) pattern"

text \<open>One pass: \<open>for i in start..=stop\<close>, with \<open>count = stop + 1 - start\<close> iterations.\<close>

fun seek_pass ::
  "(string \<Rightarrow> string) \<Rightarrow> string list \<Rightarrow> string list \<Rightarrow> nat \<Rightarrow> nat \<Rightarrow> nat option" where
  "seek_pass key lines pattern i 0 = None"
| "seek_pass key lines pattern i (Suc n) =
     (if window_matches key lines pattern i then Some i
      else seek_pass key lines pattern (Suc i) n)"

definition search_start :: "string list \<Rightarrow> string list \<Rightarrow> nat \<Rightarrow> bool \<Rightarrow> nat" where
  "search_start lines pattern start eof =
     (if eof \<and> length pattern \<le> length lines then length lines - length pattern else start)"

text \<open>The iterations of \<open>search_start..=lines.len().saturating_sub(pattern.len())\<close>.\<close>

definition pass_len :: "string list \<Rightarrow> string list \<Rightarrow> nat \<Rightarrow> nat" where
  "pass_len lines pattern s = Suc (length lines - length pattern) - s"

definition seek_sequence ::
  "string list \<Rightarrow> string list \<Rightarrow> nat \<Rightarrow> bool \<Rightarrow> nat option" where
  "seek_sequence lines pattern start eof =
     (if pattern = [] then Some start
      else if length pattern > length lines then None
      else
        let s = search_start lines pattern start eof;
            n = pass_len lines pattern s
        in case seek_pass id lines pattern s n of
             Some i \<Rightarrow> Some i
           | None \<Rightarrow>
          (case seek_pass trim_end lines pattern s n of
             Some i \<Rightarrow> Some i
           | None \<Rightarrow>
          (case seek_pass trim lines pattern s n of
             Some i \<Rightarrow> Some i
           | None \<Rightarrow> seek_pass normalise lines pattern s n)))"

section \<open>One pass\<close>

text \<open>A pass returns the first matching window of its range, if there is one.\<close>

lemma range_Cons: "{i..<i + Suc n} = insert i {Suc i..<Suc i + n}"
  by auto

lemma seek_pass_None_iff:
  "seek_pass key lines pattern i n = None \<longleftrightarrow>
     (\<forall>k \<in> {i..<i + n}. \<not> window_matches key lines pattern k)"
  by (induction n arbitrary: i) (simp_all add: range_Cons del: add_Suc_right add_Suc)

lemma seek_pass_Some_iff:
  "seek_pass key lines pattern i n = Some j \<longleftrightarrow>
     j \<in> {i..<i + n} \<and> window_matches key lines pattern j \<and>
     (\<forall>k \<in> {i..<j}. \<not> window_matches key lines pattern k)"
proof (induction n arbitrary: i)
  case 0
  then show ?case by simp
next
  case (Suc n)
  show ?case
  proof (cases "window_matches key lines pattern i")
    case True
    then have "(\<forall>k \<in> {i..<j}. \<not> window_matches key lines pattern k) \<longleftrightarrow> j \<le> i"
      by (auto simp: Ball_def not_less intro: leI)
    with True show ?thesis by auto
  next
    case False
    have "{i..<j} = (if i < j then insert i {Suc i..<j} else {})"
      by auto
    with False Suc.IH show ?thesis by (auto simp: Suc_le_eq le_less)
  qed
qed

lemma window_matches_length:
  "window_matches key lines pattern i \<Longrightarrow> pattern \<noteq> [] \<Longrightarrow> i + length pattern \<le> length lines"
  by (cases "i \<le> length lines") (auto simp: window_matches_def dest!: list_all2_lengthD)

section \<open>The contract between consecutive passes\<close>

locale coarser =
  fixes key1 :: "string \<Rightarrow> string"
    and key2 :: "string \<Rightarrow> string"
  assumes coarser_key: "key1 x = key1 y \<Longrightarrow> key2 x = key2 y"
begin

lemma window_mono: "window_matches key1 lines pattern i \<Longrightarrow> window_matches key2 lines pattern i"
  unfolding window_matches_def by (erule list_all2_mono) (rule coarser_key)

lemma seek_pass_None_mono:
  "seek_pass key2 lines pattern i n = None \<Longrightarrow> seek_pass key1 lines pattern i n = None"
  unfolding seek_pass_None_iff using window_mono by blast

end

interpretation exact_rstrip: coarser id trim_end
  by unfold_locales (simp only: id_apply)

interpretation rstrip_strip: coarser trim_end trim
  by unfold_locales (simp only: trim_def)

interpretation strip_normalise: coarser trim normalise
  by unfold_locales (simp only: normalise_def)

interpretation exact_strip: coarser id trim
  by unfold_locales (simp only: id_apply)

interpretation exact_normalise: coarser id normalise
  by unfold_locales (simp only: id_apply)

interpretation rstrip_normalise: coarser trim_end normalise
  by unfold_locales (blast intro: rstrip_strip.coarser_key strip_normalise.coarser_key)

lemmas pass_window_mono =
  exact_normalise.window_mono rstrip_normalise.window_mono strip_normalise.window_mono


section \<open>The whole search\<close>

text \<open>The keys of the passes, strictest first, and the specification of a pass.\<close>

definition pass_keys :: "(string \<Rightarrow> string) list" where
  "pass_keys = [id, trim_end, trim, normalise]"

definition first_window ::
  "(string \<Rightarrow> string) \<Rightarrow> string list \<Rightarrow> string list \<Rightarrow> nat \<Rightarrow> nat \<Rightarrow> bool" where
  "first_window key lines pattern s i \<longleftrightarrow>
     s \<le> i \<and> window_matches key lines pattern i \<and>
     (\<forall>j \<in> {s..<i}. \<not> window_matches key lines pattern j)"

definition no_window :: "(string \<Rightarrow> string) \<Rightarrow> string list \<Rightarrow> string list \<Rightarrow> nat \<Rightarrow> bool" where
  "no_window key lines pattern s \<longleftrightarrow> (\<forall>j \<ge> s. \<not> window_matches key lines pattern j)"

text \<open>The number of iterations of the code's loops covers every window there can be.\<close>

lemma window_in_range:
  assumes "pattern \<noteq> []" and "window_matches key lines pattern j" and "s \<le> j"
  shows "j \<in> {s..<s + pass_len lines pattern s}"
  unfolding pass_len_def using window_matches_length [OF assms(2,1)] assms(3) by auto

lemma seek_pass_full_Some:
  assumes "pattern \<noteq> []"
  shows "seek_pass key lines pattern s (pass_len lines pattern s) = Some i \<longleftrightarrow>
           first_window key lines pattern s i"
  using window_in_range [OF assms, of key lines i s]
  by (auto simp: seek_pass_Some_iff first_window_def)

lemma seek_pass_full_None:
  assumes "pattern \<noteq> []"
  shows "seek_pass key lines pattern s (pass_len lines pattern s) = None \<longleftrightarrow>
           no_window key lines pattern s"
  unfolding seek_pass_None_iff no_window_def
  using window_in_range [OF assms] by (meson atLeastLessThan_iff)

lemma long_pattern_no_window:
  "length lines < length pattern \<Longrightarrow> no_window key lines pattern s"
  unfolding no_window_def using window_matches_length by fastforce

lemma first_window_some: "first_window key lines pattern s i \<Longrightarrow> \<not> no_window key lines pattern s"
  by (auto simp: first_window_def no_window_def)

lemma or_else_Some:
  "(case a of Some j \<Rightarrow> Some j | None \<Rightarrow> b) = Some i \<longleftrightarrow> a = Some i \<or> a = None \<and> b = Some i"
  by (cases a) auto

lemma or_else_None:
  "(case a of Some j \<Rightarrow> Some j | None \<Rightarrow> b) = None \<longleftrightarrow> a = None \<and> b = None"
  by (cases a) auto

lemma ex_prefix_Cons:
  "(\<exists>k < length (x # xs). P ((x # xs) ! k) \<and> (\<forall>k' < k. Q ((x # xs) ! k'))) \<longleftrightarrow>
     P x \<or> Q x \<and> (\<exists>k < length xs. P (xs ! k) \<and> (\<forall>k' < k. Q (xs ! k')))"
  by (auto simp: Ex_less_Suc2 All_less_Suc2)

lemma pass_keys_ex:
  "(\<exists>k < length pass_keys. P (pass_keys ! k) \<and> (\<forall>k' < k. Q (pass_keys ! k'))) \<longleftrightarrow>
     P id \<or> Q id \<and> (P trim_end \<or> Q trim_end \<and> (P trim \<or> Q trim \<and> P normalise))"
  unfolding pass_keys_def ex_prefix_Cons by simp

lemma seek_sequence_Some_iff:
  assumes "pattern \<noteq> []"
  shows "seek_sequence lines pattern start eof = Some i \<longleftrightarrow>
    (\<exists>k < length pass_keys.
       first_window (pass_keys ! k) lines pattern (search_start lines pattern start eof) i \<and>
       (\<forall>k' < k. no_window (pass_keys ! k') lines pattern (search_start lines pattern start eof)))"
proof (cases "length lines < length pattern")
  case True
  then show ?thesis
    using assms by (auto simp: seek_sequence_def dest!: first_window_some intro: long_pattern_no_window)
next
  case False
  define s where "s = search_start lines pattern start eof"
  note full = seek_pass_full_Some [OF assms, of _ lines s] seek_pass_full_None [OF assms, of _ lines s]
  show ?thesis
    unfolding s_def [symmetric]
      pass_keys_ex [where P = "\<lambda>key. first_window key lines pattern s i"
        and Q = "\<lambda>key. no_window key lines pattern s"]
    using False assms
    by (simp add: seek_sequence_def s_def [symmetric] Let_def or_else_Some full)
qed



text \<open>
  The search fails exactly when the pattern is non-empty and no window at or after the search
  start matches even after normalisation, the most permissive comparison.
\<close>

lemma seek_sequence_None:
  "seek_sequence lines pattern start eof = None \<longleftrightarrow>
     pattern \<noteq> [] \<and> no_window normalise lines pattern (search_start lines pattern start eof)"
proof (cases "pattern = [] \<or> length lines < length pattern")
  case True
  then show ?thesis
    by (auto simp: seek_sequence_def intro: long_pattern_no_window)
next
  case False
  define s where "s = search_start lines pattern start eof"
  from False have pat: "pattern \<noteq> []" by simp
  have lenient: "no_window key lines pattern s"
    if "no_window normalise lines pattern s" and "key \<in> {id, trim_end, trim}" for key
    using that pass_window_mono unfolding no_window_def by blast
  have "seek_sequence lines pattern start eof = None \<longleftrightarrow>
      no_window id lines pattern s \<and> no_window trim_end lines pattern s \<and>
      no_window trim lines pattern s \<and> no_window normalise lines pattern s"
    using False
    by (simp add: seek_sequence_def s_def [symmetric] Let_def or_else_None
        seek_pass_full_None [OF pat])
  also have "\<dots> \<longleftrightarrow> no_window normalise lines pattern s"
    using lenient by blast
  finally show ?thesis using pat by (simp add: s_def)
qed

text \<open>What the callers of the search use of it.\<close>

lemma seek_sequence_sound:
  assumes "seek_sequence lines pattern start eof = Some i" and "pattern \<noteq> []"
  shows "i + length pattern \<le> length lines"
    and "window_matches normalise lines pattern i"
    and "search_start lines pattern start eof \<le> i"
proof -
  define s where "s = search_start lines pattern start eof"
  obtain k where k: "k < length pass_keys" and w: "first_window (pass_keys ! k) lines pattern s i"
    using seek_sequence_Some_iff [OF assms(2), of lines start eof i] assms(1)
    by (auto simp: s_def)
  from w have m: "window_matches (pass_keys ! k) lines pattern i" and "s \<le> i"
    by (auto simp: first_window_def)
  with assms(2) show "i + length pattern \<le> length lines" and "search_start lines pattern start eof \<le> i"
    by (auto simp: s_def intro: window_matches_length)
  have "pass_keys ! k \<in> {id, trim_end, trim, normalise}"
    using nth_mem [OF k] by (simp add: pass_keys_def)
  with m show "window_matches normalise lines pattern i"
    by (auto dest: pass_window_mono)
qed

lemma seek_sequence_exact:
  assumes "window_matches id lines pattern i" and "pattern \<noteq> []"
    and "search_start lines pattern start eof \<le> i"
    and "\<forall>j \<in> {search_start lines pattern start eof..<i}. \<not> window_matches id lines pattern j"
  shows "seek_sequence lines pattern start eof = Some i"
proof -
  have "first_window (pass_keys ! 0) lines pattern (search_start lines pattern start eof) i"
    using assms by (simp add: first_window_def pass_keys_def)
  then show ?thesis
    using seek_sequence_Some_iff [OF assms(2), of lines start eof i]
    by (force simp: pass_keys_def)
qed

lemma search_start_no_eof [simp]: "search_start lines pattern start False = start"
  by (simp add: search_start_def)

lemma seek_sequence_Nil [simp]: "seek_sequence lines [] start eof = Some start"
  by (simp add: seek_sequence_def)

end
