(* ===== verification/Patch_Lines.thy ===== *)
theory Patch_Lines
  imports Seek_Sequence Patch_Parser "HOL-Library.Multiset"
begin

text \<open>
  The line edits of \<open>codex-rs/apply-patch/src/lib.rs\<close>: from the text of a file and the chunks of an
  update hunk to the new text.

  A replacement is \<open>(start_index, old_len, new_lines)\<close>.  \<open>Vec::insert\<close> panics past the end, so the
  loops that insert return an option whose \<open>None\<close> is that panic; that it never happens is a theorem
  below.
\<close>

section \<open>Operations\<close>

type_synonym replacement = "nat \<times> nat \<times> string list"

definition CRLF :: string where "CRLF = [CR, LF]"

definition detect_source_line_ending :: "string \<Rightarrow> string" where
  "detect_source_line_ending source = (if str_contains source CRLF then CRLF else [LF])"

definition split_lines_for_patch :: "string \<Rightarrow> string \<Rightarrow> string list" where
  "split_lines_for_patch source source_line_ending =
     map (\<lambda>line. if source_line_ending = CRLF then strip_cr line else line) (split_on LF source)"

text \<open>The two errors of \<open>compute_replacements\<close>.\<close>

definition msg_context_not_found :: "string \<Rightarrow> string \<Rightarrow> string" where
  "msg_context_not_found ctx_line pth =
     ''Failed to find context '' @ CHR 0x27 # ctx_line @ CHR 0x27 # '' in '' @ pth"

definition msg_lines_not_found :: "string \<Rightarrow> string list \<Rightarrow> string" where
  "msg_lines_not_found pth old =
     ''Failed to find expected lines in '' @ pth @ '':'' @ LF # join [LF] old"

text \<open>One round of the loop over the chunks: the replacement it schedules and the next \<open>line_index\<close>.\<close>

definition seek_context ::
  "string list \<Rightarrow> string \<Rightarrow> update_file_chunk \<Rightarrow> nat \<Rightarrow> string + nat" where
  "seek_context original_lines pth chunk line_index =
     (case change_context chunk of
        None \<Rightarrow> Inr line_index
      | Some ctx_line \<Rightarrow>
          (case seek_sequence original_lines [ctx_line] line_index False of
             Some idx \<Rightarrow> Inr (idx + 1)
           | None \<Rightarrow> Inl (msg_context_not_found ctx_line pth)))"

definition insertion_idx :: "string list \<Rightarrow> nat" where
  "insertion_idx original_lines =
     (if last_is (\<lambda>l. l = []) original_lines then length original_lines - 1
      else length original_lines)"

definition locate_old_lines ::
  "string list \<Rightarrow> update_file_chunk \<Rightarrow> nat \<Rightarrow> (nat \<times> string list \<times> string list) option" where
  "locate_old_lines original_lines chunk line_index =
     (let pattern = old_lines chunk; new_slice = new_lines chunk in
      case seek_sequence original_lines pattern line_index (is_end_of_file chunk) of
        Some start_idx \<Rightarrow> Some (start_idx, pattern, new_slice)
      | None \<Rightarrow>
          if last_is (\<lambda>l. l = []) pattern then
            (let pattern' = butlast pattern;
                 new_slice' = (if last_is (\<lambda>l. l = []) new_slice then butlast new_slice else new_slice)
             in map_option (\<lambda>start_idx. (start_idx, pattern', new_slice'))
                  (seek_sequence original_lines pattern' line_index (is_end_of_file chunk)))
          else None)"

definition chunk_replacement ::
  "string list \<Rightarrow> string \<Rightarrow> update_file_chunk \<Rightarrow> nat \<Rightarrow> string + (replacement \<times> nat)" where
  "chunk_replacement original_lines pth chunk line_index =
     and_then (seek_context original_lines pth chunk line_index) (\<lambda>line_index.
       if old_lines chunk = [] then
         Inr ((insertion_idx original_lines, 0, new_lines chunk), line_index)
       else (case locate_old_lines original_lines chunk line_index of
           Some (start_idx, pattern, new_slice) \<Rightarrow>
             Inr ((start_idx, length pattern, new_slice), start_idx + length pattern)
         | None \<Rightarrow> Inl (msg_lines_not_found pth (old_lines chunk))))"

fun scan_chunks ::
  "string list \<Rightarrow> string \<Rightarrow> update_file_chunk list \<Rightarrow> nat \<Rightarrow> string + replacement list" where
  "scan_chunks original_lines pth [] line_index = Inr []"
| "scan_chunks original_lines pth (chunk # cs) line_index =
     and_then (chunk_replacement original_lines pth chunk line_index) (\<lambda>(r, line_index).
       and_then (scan_chunks original_lines pth cs line_index) (\<lambda>rs. Inr (r # rs)))"

text \<open>\<open>sort_by_key\<close> is a stable sort, as \<^const>\<open>sort_key\<close> is.\<close>

definition compute_replacements ::
  "string list \<Rightarrow> string \<Rightarrow> update_file_chunk list \<Rightarrow> string + replacement list" where
  "compute_replacements original_lines pth cs =
     and_then (scan_chunks original_lines pth cs 0) (\<lambda>rs. Inr (sort_key fst rs))"

definition vec_remove :: "nat \<Rightarrow> 'a list \<Rightarrow> 'a list" where
  "vec_remove i xs = take i xs @ drop (Suc i) xs"

definition vec_insert :: "nat \<Rightarrow> 'a \<Rightarrow> 'a list \<Rightarrow> 'a list option" where
  "vec_insert i x xs = (if i \<le> length xs then Some (take i xs @ x # drop i xs) else None)"

fun remove_old :: "nat \<Rightarrow> nat \<Rightarrow> 'a list \<Rightarrow> 'a list" where
  "remove_old start_idx 0 xs = xs"
| "remove_old start_idx (Suc n) xs =
     remove_old start_idx n (if start_idx < length xs then vec_remove start_idx xs else xs)"

fun insert_new :: "nat \<Rightarrow> 'a list \<Rightarrow> 'a list \<Rightarrow> 'a list option" where
  "insert_new i [] xs = Some xs"
| "insert_new i (y # ys) xs = Option.bind (vec_insert i y xs) (insert_new (Suc i) ys)"

fun apply_each :: "replacement list \<Rightarrow> string list \<Rightarrow> string list option" where
  "apply_each [] xs = Some xs"
| "apply_each ((start_idx, old_len, new_segment) # rs) xs =
     Option.bind (insert_new start_idx new_segment (remove_old start_idx old_len xs)) (apply_each rs)"

definition apply_replacements :: "string list \<Rightarrow> replacement list \<Rightarrow> string list option" where
  "apply_replacements xs replacements = apply_each (rev replacements) xs"

text \<open>
  \<open>derive_new_contents_from_chunks\<close> after the file has been read.  \<open>None\<close> is a panic, \<open>Inl\<close> a
  \<open>ComputeReplacements\<close> error.
\<close>

definition original_lines_of :: "string \<Rightarrow> string list" where
  "original_lines_of source =
     (let xs = split_lines_for_patch source (detect_source_line_ending source) in
      if last_is (\<lambda>l. l = []) xs then butlast xs else xs)"

definition terminate_lines :: "string list \<Rightarrow> string list" where
  "terminate_lines xs = (if last_is (\<lambda>l. l = []) xs then xs else xs @ [[]])"

definition new_contents_from_chunks ::
  "string \<Rightarrow> string \<Rightarrow> update_file_chunk list \<Rightarrow> (string + string) option" where
  "new_contents_from_chunks pth original cs =
     (case compute_replacements (original_lines_of original) pth cs of
        Inl e \<Rightarrow> Some (Inl e)
      | Inr replacements \<Rightarrow>
          map_option (\<lambda>xs. Inr (join (detect_source_line_ending original) (terminate_lines xs)))
            (apply_replacements (original_lines_of original) replacements))"

section \<open>Single replacements\<close>

lemma remove_old_eq: "remove_old i n xs = take i xs @ drop (i + n) xs"
proof (induction n arbitrary: xs)
  case (Suc n)
  then show ?case by (auto simp: vec_remove_def min_def add.commute)
qed simp

lemma insert_new_eq: "i \<le> length xs \<Longrightarrow> insert_new i ys xs = Some (take i xs @ ys @ drop i xs)"
proof (induction ys arbitrary: i xs)
  case (Cons y ys)
  then show ?case by (simp add: vec_insert_def)
qed simp

fun replace_region :: "replacement \<Rightarrow> string list \<Rightarrow> string list" where
  "replace_region (i, n, new) xs = take i xs @ new @ drop (i + n) xs"

lemma apply_each_Cons:
  assumes "i \<le> length xs"
  shows "apply_each ((i, n, new) # rs) xs = apply_each rs (replace_region (i, n, new) xs)"
  using assms by (simp add: remove_old_eq insert_new_eq)

lemma length_replace_region: "i \<le> length xs \<Longrightarrow> i \<le> length (replace_region (i, n, new) xs)"
  by simp

text \<open>Descending replacements never run past the end of the vector.\<close>

lemma apply_each_descending:
  assumes "sorted_wrt (\<lambda>r r'. fst r' \<le> fst r) rs" and "\<forall>r \<in> set rs. fst r \<le> length xs"
  shows "apply_each rs xs = Some (fold replace_region rs xs)"
  using assms
proof (induction rs arbitrary: xs)
  case (Cons r rs)
  obtain i n new where r: "r = (i, n, new)" by (cases r)
  have i: "i \<le> length xs" and below: "\<forall>r' \<in> set rs. fst r' \<le> i"
    using Cons.prems r by auto
  have "\<forall>r' \<in> set rs. fst r' \<le> length (replace_region r xs)"
    using below length_replace_region [OF i, of n new] r by (auto intro: order_trans)
  with Cons.IH Cons.prems(1) show ?case
    unfolding r apply_each_Cons [OF i] by (simp add: r)
qed simp

lemma apply_replacements_ascending:
  assumes "sorted (map fst rs)" and "\<forall>r \<in> set rs. fst r \<le> length xs"
  shows "apply_replacements xs rs = Some (foldr replace_region rs xs)"
proof -
  have "sorted_wrt (\<lambda>r r'. fst r' \<le> fst r) (rev rs)"
    using assms(1) by (simp add: sorted_wrt_rev sorted_map)
  with assms(2) show ?thesis
    unfolding apply_replacements_def by (simp add: apply_each_descending foldr_conv_fold)
qed

section \<open>One pass over disjoint regions\<close>

text \<open>The reference: copy the lines before each region, emit its new lines, skip its old lines.\<close>

fun splice_lines :: "nat \<Rightarrow> replacement list \<Rightarrow> string list \<Rightarrow> string list" where
  "splice_lines pos [] xs = xs"
| "splice_lines pos ((i, n, new) # rs) xs =
     take (i - pos) xs @ new @ splice_lines (i + n) rs (drop (i + n - pos) xs)"

definition before_region :: "replacement \<Rightarrow> replacement \<Rightarrow> bool" where
  "before_region r r' \<longleftrightarrow> fst r + fst (snd r) \<le> fst r'"

definition disjoint_regions :: "nat \<Rightarrow> replacement list \<Rightarrow> bool" where
  "disjoint_regions len rs \<longleftrightarrow>
     sorted_wrt before_region rs \<and> (\<forall>r \<in> set rs. fst r + fst (snd r) \<le> len)"

lemma splice_shift:
  assumes "pos \<le> p" and "\<forall>r \<in> set rs. p \<le> fst r"
  shows "splice_lines pos rs xs = take (p - pos) xs @ splice_lines p rs (drop (p - pos) xs)"
proof (cases rs)
  case (Cons r rs')
  obtain i n new where r: "r = (i, n, new)" by (cases r)
  have p: "p \<le> i" using assms(2) Cons r by simp
  have "take (i - pos) xs = take (p - pos) xs @ take (i - p) (drop (p - pos) xs)"
    using assms(1) p by (simp flip: take_add)
  moreover have "drop (i + n - p) (drop (p - pos) xs) = drop (i + n - pos) xs"
    using assms(1) p by simp
  ultimately show ?thesis by (simp add: Cons r)
qed simp

lemma foldr_replace_region_splice:
  assumes "disjoint_regions (length xs) rs"
  shows "foldr replace_region rs xs = splice_lines 0 rs xs"
  using assms
proof (induction rs)
  case (Cons r rs)
  obtain i n new where r: "r = (i, n, new)" by (cases r)
  have tail: "\<forall>r' \<in> set rs. i + n \<le> fst r'" and fits: "i + n \<le> length xs"
    using Cons.prems r by (auto simp: disjoint_regions_def before_region_def)
  have "foldr replace_region rs xs = splice_lines 0 rs xs"
    using Cons by (simp add: disjoint_regions_def)
  also have "\<dots> = take (i + n) xs @ splice_lines (i + n) rs (drop (i + n) xs)"
    using splice_shift [of 0 "i + n" rs xs] tail by simp
  finally show ?case
    using fits by (simp add: r min_def)
qed simp

lemma disjoint_regions_sorted: "disjoint_regions len rs \<Longrightarrow> sorted (map fst rs)"
  unfolding disjoint_regions_def sorted_map
  by (erule conjE, erule sorted_wrt_mono_rel [rotated]) (simp add: before_region_def)

lemma apply_disjoint_regions:
  assumes "disjoint_regions (length xs) rs"
  shows "apply_replacements xs rs = Some (splice_lines 0 rs xs)"
proof -
  have "\<forall>r \<in> set rs. fst r \<le> length xs"
    using assms by (fastforce simp: disjoint_regions_def)
  with disjoint_regions_sorted [OF assms] show ?thesis
    by (simp add: apply_replacements_ascending foldr_replace_region_splice [OF assms])
qed

section \<open>Where the chunks go\<close>

text \<open>
  What one chunk may ask for: an addition at the insertion index, or a region whose lines match its
  old lines (or all but an empty last one) under the search's comparison.
\<close>

definition fits_chunk :: "string list \<Rightarrow> update_file_chunk \<Rightarrow> replacement \<Rightarrow> bool" where
  "fits_chunk xs chunk r \<longleftrightarrow>
     (case r of (i, n, new) \<Rightarrow>
        if old_lines chunk = [] then i = insertion_idx xs \<and> n = 0 \<and> new = new_lines chunk
        else \<exists>pat \<in> {old_lines chunk, butlast (old_lines chunk)}.
               n = length pat \<and> i + n \<le> length xs \<and> window_matches normalise xs pat i \<and>
               new \<in> {new_lines chunk, butlast (new_lines chunk)})"

lemma window_matches_Nil [simp]: "window_matches key xs [] i"
  by (simp add: window_matches_def)

lemma insertion_idx_le: "insertion_idx xs \<le> length xs"
  by (simp add: insertion_idx_def)

lemma seek_context_bounds:
  assumes "seek_context xs pth chunk k = Inr k'" and "k \<le> length xs"
  shows "k \<le> k' \<and> k' \<le> length xs"
  using assms seek_sequence_sound
  by (fastforce simp: seek_context_def split: option.splits)

lemma seek_sequence_bounds:
  assumes "seek_sequence xs pat k eof = Some i" and "k \<le> length xs"
  shows "i + length pat \<le> length xs" and "window_matches normalise xs pat i"
    and "\<not> eof \<Longrightarrow> k \<le> i"
  using assms seek_sequence_sound [OF assms(1)] by (cases "pat = []"; simp)+

lemma locate_old_lines_cases:
  assumes "locate_old_lines xs chunk k = Some (i, pat, new)"
  shows "seek_sequence xs pat k (is_end_of_file chunk) = Some i"
    and "pat \<in> {old_lines chunk, butlast (old_lines chunk)}"
    and "new \<in> {new_lines chunk, butlast (new_lines chunk)}"
  using assms by (auto simp: locate_old_lines_def Let_def split: option.splits if_splits)

text \<open>One chunk: its replacement fits it, and the index moves forward unless the chunk is at the end
  of the file.\<close>

lemma chunk_replacement_fits:
  assumes "chunk_replacement xs pth chunk k = Inr (r, k')" and "k \<le> length xs"
  shows "fits_chunk xs chunk r" and "fst r + fst (snd r) \<le> length xs" and "k' \<le> length xs"
    and "\<not> is_end_of_file chunk \<Longrightarrow> k \<le> k'"
    and "\<not> is_end_of_file chunk \<Longrightarrow>
           old_lines chunk = [] \<and> fst r = insertion_idx xs \<and> fst (snd r) = 0 \<or>
           k \<le> fst r \<and> fst r + fst (snd r) \<le> k'"
proof -
  obtain k1 where ctx: "seek_context xs pth chunk k = Inr k1"
    using assms(1) by (auto simp: chunk_replacement_def)
  have k1: "k \<le> k1" "k1 \<le> length xs"
    using seek_context_bounds [OF ctx assms(2)] by auto
  have goal: "fits_chunk xs chunk r \<and> fst r + fst (snd r) \<le> length xs \<and> k' \<le> length xs \<and>
      (\<not> is_end_of_file chunk \<longrightarrow> k \<le> k' \<and>
         (old_lines chunk = [] \<and> fst r = insertion_idx xs \<and> fst (snd r) = 0 \<or>
          k \<le> fst r \<and> fst r + fst (snd r) \<le> k'))"
  proof (cases "old_lines chunk = []")
    case True
    then have "r = (insertion_idx xs, 0, new_lines chunk)" "k' = k1"
      using assms(1) ctx by (auto simp: chunk_replacement_def)
    with True k1 show ?thesis
      by (simp add: fits_chunk_def insertion_idx_le)
  next
    case False
    then obtain i pat new where loc: "locate_old_lines xs chunk k1 = Some (i, pat, new)"
      and r: "r = (i, length pat, new)" and k': "k' = i + length pat"
      using assms(1) ctx by (auto simp: chunk_replacement_def split: option.splits)
    note found = locate_old_lines_cases [OF loc]
    note place = seek_sequence_bounds [OF found(1) k1(2)]
    have "fits_chunk xs chunk r"
      unfolding fits_chunk_def r using False found(2,3) place(1,2) by auto
    with place k1 show ?thesis by (auto simp: r k')
  qed
  then show "fits_chunk xs chunk r" and "fst r + fst (snd r) \<le> length xs" and "k' \<le> length xs"
    and "\<not> is_end_of_file chunk \<Longrightarrow> k \<le> k'"
    and "\<not> is_end_of_file chunk \<Longrightarrow>
           old_lines chunk = [] \<and> fst r = insertion_idx xs \<and> fst (snd r) = 0 \<or>
           k \<le> fst r \<and> fst r + fst (snd r) \<le> k'"
    by auto
qed

lemma scan_chunks_fits:
  assumes "scan_chunks xs pth cs k = Inr rs" and "k \<le> length xs"
  shows "list_all2 (fits_chunk xs) cs rs \<and> (\<forall>r \<in> set rs. fst r + fst (snd r) \<le> length xs)"
  using assms
proof (induction cs arbitrary: k rs)
  case (Cons c cs)
  then obtain r k' rs' where one: "chunk_replacement xs pth c k = Inr (r, k')"
    and rest: "scan_chunks xs pth cs k' = Inr rs'" and rs: "rs = r # rs'"
    by auto
  note fit = chunk_replacement_fits [OF one Cons.prems(2)]
  show ?case
    using Cons.IH [OF rest fit(3)] fit(1,2) by (simp add: rs)
qed simp

text \<open>Sorting keeps each chunk's replacement, so every index is in range whatever the chunks are.\<close>

lemma compute_replacements_safe:
  assumes "compute_replacements xs pth cs = Inr rs"
  shows "sorted (map fst rs)" and "\<forall>r \<in> set rs. fst r + fst (snd r) \<le> length xs"
    and "\<exists>rs'. mset rs' = mset rs \<and> list_all2 (fits_chunk xs) cs rs'"
proof -
  obtain rs' where scan: "scan_chunks xs pth cs 0 = Inr rs'" and rs: "rs = sort_key fst rs'"
    using assms by (auto simp: compute_replacements_def)
  note fits = scan_chunks_fits [OF scan le0]
  show "sorted (map fst rs)" by (simp add: rs)
  show "\<forall>r \<in> set rs. fst r + fst (snd r) \<le> length xs" using fits by (simp add: rs)
  show "\<exists>rs'. mset rs' = mset rs \<and> list_all2 (fits_chunk xs) cs rs'"
    using fits by (intro exI [of _ rs']) (simp add: rs)
qed

lemma apply_computed_replacements:
  assumes "compute_replacements xs pth cs = Inr rs"
  shows "apply_replacements xs rs = Some (foldr replace_region rs xs)"
proof (rule apply_replacements_ascending)
  show "sorted (map fst rs)" by (rule compute_replacements_safe [OF assms])
  show "\<forall>r \<in> set rs. fst r \<le> length xs"
    using compute_replacements_safe(2) [OF assms] by (meson add_leE)
qed

text \<open>Without end-of-file chunks the scheduled regions follow each other, additions apart.\<close>

definition scan_order :: "nat \<Rightarrow> replacement \<Rightarrow> replacement \<Rightarrow> bool" where
  "scan_order len r r' \<longleftrightarrow> before_region r r' \<or> fst r = len"

lemma scan_chunks_ordered:
  assumes "scan_chunks xs pth cs k = Inr rs" and "k \<le> length xs"
    and "\<forall>c \<in> set cs. \<not> is_end_of_file c" and "insertion_idx xs = length xs"
  shows "sorted_wrt (scan_order (length xs)) rs \<and> (\<forall>r \<in> set rs. k \<le> fst r)"
  using assms
proof (induction cs arbitrary: k rs)
  case (Cons c cs)
  then obtain r k' rs' where one: "chunk_replacement xs pth c k = Inr (r, k')"
    and rest: "scan_chunks xs pth cs k' = Inr rs'" and rs: "rs = r # rs'"
    by auto
  note fit = chunk_replacement_fits [OF one Cons.prems(2)]
  have no_eof: "\<not> is_end_of_file c" using Cons.prems(3) by simp
  have tail: "sorted_wrt (scan_order (length xs)) rs'" "\<forall>r' \<in> set rs'. k' \<le> fst r'"
    using Cons.IH [OF rest fit(3)] Cons.prems by auto
  from fit(5) [OF no_eof] have "\<forall>r' \<in> set rs'. scan_order (length xs) r r'" and "k \<le> fst r"
    using tail(2) Cons.prems(2,4) by (auto simp: scan_order_def before_region_def)
  moreover have "\<forall>r' \<in> set rs'. k \<le> fst r'"
    using tail(2) fit(4) [OF no_eof] by auto
  ultimately show ?case using tail(1) by (simp add: rs)
qed simp

lemma mset_partition_key:
  assumes "\<forall>r \<in> set rs. fst r \<le> (len :: nat)"
  shows "mset (filter (\<lambda>r. fst r < len) rs @ filter (\<lambda>r. fst r = len) rs) = mset rs"
  using assms by (induction rs) (auto simp: le_less)

lemma filter_key_partition:
  "filter (\<lambda>x. fst k = fst x) (filter (\<lambda>r. fst r < len) rs @ filter (\<lambda>r. fst r = (len :: nat)) rs) =
   filter (\<lambda>x. fst k = fst x) (filter (\<lambda>r. fst r \<le> len) rs)"
  by (cases "fst k < len"; cases "fst k = len")
    (auto intro!: filter_cong simp: filter_empty_conv)

lemma sort_regions:
  assumes "sorted_wrt (scan_order len) rs" and fits: "\<forall>r \<in> set rs. fst r + fst (snd r) \<le> len"
  shows "disjoint_regions len (sort_key fst rs)"
proof -
  let ?early = "filter (\<lambda>r. fst r < len) rs" and ?late = "filter (\<lambda>r. fst r = len) rs"
  have le: "\<forall>r \<in> set rs. fst r \<le> len" using fits by (meson add_leE)
  have early: "sorted_wrt before_region ?early"
    by (rule sorted_wrt_mono_rel [of _ "scan_order len"])
      (auto simp: scan_order_def sorted_wrt_filter assms(1))
  have late: "sorted_wrt before_region ?late"
    by (rule sorted_wrt_mono_rel [of _ "\<lambda>_ _. True"])
      (use fits in \<open>auto simp: before_region_def sorted_wrt_iff_nth_less\<close>)
  have both: "sorted_wrt before_region (?early @ ?late)"
    using early late fits by (auto simp: sorted_wrt_append before_region_def)
  have "sort_key fst rs = ?early @ ?late"
  proof (rule properties_for_sort_key)
    show "mset (?early @ ?late) = mset rs" by (rule mset_partition_key [OF le])
    show "filter (\<lambda>x. fst k = fst x) (?early @ ?late) = filter (\<lambda>x. fst k = fst x) rs" for k
      unfolding filter_key_partition using le by (metis (mono_tags, lifting) filter_True)
    show "sorted (map fst (?early @ ?late))"
      unfolding sorted_map by (rule sorted_wrt_mono_rel [OF _ both]) (simp add: before_region_def)
  qed
  with both fits show ?thesis by (auto simp: disjoint_regions_def)
qed

section \<open>Properties\<close>


text \<open>
  Applying sorted, disjoint, in-range replacements last to first, removing and inserting one
  line at a time in place, is the one-pass splice of the file.
\<close>

lemma apply_replacements_splice:
  assumes "disjoint_regions (length xs) rs"
  shows "apply_replacements xs rs = Some (splice_lines 0 rs xs)"
  using assms by (rule apply_disjoint_regions)

lemma apply_replacements_splice_witness:
  "disjoint_regions (length [''a'', ''b'', ''c'', ''d'']) [(0, 1, [''x'', ''y'']), (2, 1, []), (4, 0, [''e''])] \<and>
   apply_replacements [''a'', ''b'', ''c'', ''d''] [(0, 1, [''x'', ''y'']), (2, 1, []), (4, 0, [''e''])] =
     Some [''x'', ''y'', ''b'', ''d'', ''e'']"
proof -
  have regions: "disjoint_regions (length [''a'', ''b'', ''c'', ''d''])
      [(0, 1, [''x'', ''y'']), (2, 1, []), (4, 0, [''e''])]"
    by (simp add: disjoint_regions_def before_region_def)
  show ?thesis
    using regions apply_replacements_splice [OF regions] by (simp add: numeral_eq_Suc)
qed


definition sample_source :: "string list" where
  "sample_source = [''fn a() {'', ''  one'', ''}'', ''fn b() {'', ''  one'', ''}'']"

definition sample_chunks :: "update_file_chunk list" where
  "sample_chunks =
     [\<lparr>change_context = Some ''fn b() {'', old_lines = [''  one ''], new_lines = [''  two''],
       is_end_of_file = False\<rparr>,
      \<lparr>change_context = None, old_lines = [], new_lines = [''end''], is_end_of_file = False\<rparr>]"


lemma terminate_lines_snoc: "\<exists>ys. terminate_lines xs = ys @ [[]]"
  by (cases xs rule: rev_cases) (auto simp: terminate_lines_def)

text \<open>
  An updated file is empty or ends with the line ending of its source, even when the source
  lacked a final newline.
\<close>

lemma new_contents_end_with_line_ending:
  assumes "new_contents_from_chunks pth original cs = Some (Inr new)"
  shows "new = [] \<or> ends_with new (detect_source_line_ending original)"
proof -
  obtain xs where "new = join (detect_source_line_ending original) (terminate_lines xs)"
    using assms by (auto simp: new_contents_from_chunks_def split: sum.splits)
  moreover obtain ys where "terminate_lines xs = ys @ [[]]" using terminate_lines_snoc by blast
  ultimately show ?thesis
    by (cases "ys = []") (auto simp: join_snoc ends_with_iff)
qed

lemma new_contents_end_with_line_ending_witness:
  "new_contents_from_chunks ''f'' (''a'' @ CRLF @ ''b'')
     [\<lparr>change_context = None, old_lines = [''b''], new_lines = [''c''], is_end_of_file = False\<rparr>] =
     Some (Inr (''a'' @ CRLF @ ''c'' @ CRLF)) \<and>
   ends_with (''a'' @ CRLF @ ''c'' @ CRLF) (detect_source_line_ending (''a'' @ CRLF @ ''b''))"
proof -
  have run: "new_contents_from_chunks ''f'' (''a'' @ CRLF @ ''b'')
     [\<lparr>change_context = None, old_lines = [''b''], new_lines = [''c''], is_end_of_file = False\<rparr>] =
     Some (Inr (''a'' @ CRLF @ ''c'' @ CRLF))" by code_simp
  show ?thesis using run new_contents_end_with_line_ending [OF run] by simp
qed

text \<open>A file whose lines all end with its line ending.\<close>

definition uniform_endings :: "string \<Rightarrow> bool" where
  "uniform_endings s \<longleftrightarrow>
     last (split_on LF s) = [] \<and>
     (detect_source_line_ending s = CRLF \<longrightarrow> list_all (\<lambda>l. ends_with l [CR]) (butlast (split_on LF s)))"

lemma map_strip_cr_append: "list_all (\<lambda>l. ends_with l [CR]) ls \<Longrightarrow> map (\<lambda>l. strip_cr l @ [CR]) ls = ls"
  by (induction ls) (auto simp: ends_with_iff)

lemma join_move: "join sep (map (\<lambda>l. f l @ u) ls @ [[]]) = join (u @ sep) (map f ls @ [[]])"
  by (induction ls) (simp_all add: join_Cons)

lemma join_original_lines:
  assumes "uniform_endings s"
  shows "join (detect_source_line_ending s) (original_lines_of s @ [[]]) = s"
proof -
  define ls where "ls = butlast (split_on LF s)"
  have split: "split_on LF s = ls @ [[]]"
    using assms append_butlast_last_id [of "split_on LF s"] by (simp add: uniform_endings_def ls_def)
  have lf: "join [LF] (ls @ [[]]) = s"
    using join_split_on [of LF s] by (simp add: split)
  show ?thesis
  proof (cases "detect_source_line_ending s = CRLF")
    case True
    have "map (\<lambda>l. strip_cr l @ [CR]) ls = ls"
      using assms True by (simp add: uniform_endings_def ls_def map_strip_cr_append)
    then have "join CRLF (map strip_cr ls @ [[]]) = s"
      using join_move [of "[LF]" strip_cr "[CR]" ls] lf by (simp add: CRLF_def)
    then show ?thesis
      by (simp add: True original_lines_of_def split_lines_for_patch_def split)
  next
    case False
    then have "detect_source_line_ending s = [LF]" by (simp add: detect_source_line_ending_def split: if_splits)
    with lf show ?thesis
      by (simp add: original_lines_of_def split_lines_for_patch_def split CRLF_def)
  qed
qed

text \<open>
  Splitting a file into lines and joining them again loses nothing.  A file whose lines all
  carry its line ending is reproduced byte for byte from its lines, so an update changes only the
  lines of its regions.
\<close>

lemma lines_roundtrip:
  assumes "uniform_endings s"
  shows "join (detect_source_line_ending s) (original_lines_of s @ [[]]) = s"
  using assms by (rule join_original_lines)

lemma lines_roundtrip_witness:
  "uniform_endings (''a'' @ CRLF @ CRLF @ ''b'' @ CRLF) \<and>
   join CRLF ([''a'', [], ''b''] @ [[]]) = ''a'' @ CRLF @ CRLF @ ''b'' @ CRLF"
proof -
  have uniform: "uniform_endings (''a'' @ CRLF @ CRLF @ ''b'' @ CRLF)" by code_simp
  have "detect_source_line_ending (''a'' @ CRLF @ CRLF @ ''b'' @ CRLF) = CRLF"
    and "original_lines_of (''a'' @ CRLF @ CRLF @ ''b'' @ CRLF) = [''a'', [], ''b'']"
    by code_simp+
  then show ?thesis using uniform lines_roundtrip [OF uniform] by simp
qed

text \<open>
  A patch whose first chunk adds a line (with no old lines) to a file that ends in an empty line
  and whose second chunk replaces that end: both chunks are found.
\<close>

definition swallowing_patch :: string where
  "swallowing_patch =
     join [LF] [BEGIN_PATCH_MARKER, UPDATE_FILE_MARKER @ ''f'', ''@@'', ''+x'', ''@@'', ''-a'', ''-'', ''+b'',
       END_PATCH_MARKER]"

definition swallowing_chunks :: "update_file_chunk list" where
  "swallowing_chunks =
     [\<lparr>change_context = None, old_lines = [], new_lines = [''x''], is_end_of_file = False\<rparr>,
      \<lparr>change_context = None, old_lines = [''a'', []], new_lines = [''b''], is_end_of_file = False\<rparr>]"

text \<open>
  The added line can be lost without an error.  The addition goes before the final empty line,
  inside the region of the second chunk; applied last to first, the second chunk then removes the
  added line instead of its own last old line.
\<close>

lemma pure_addition_can_be_swallowed:
  "parse_patch swallowing_patch =
     Inr \<lparr>args_patch = swallowing_patch, args_hunks = [UpdateFile ''f'' None swallowing_chunks],
       args_workdir = None, args_environment_id = None\<rparr> \<and>
   new_contents_from_chunks ''f'' [CHR ''a'', LF, LF] swallowing_chunks = Some (Inr [CHR ''b'', LF])"
  by code_simp
end
