(* ===== verification/Patch_Files.thy ===== *)
theory Patch_Files
  imports Patch_Lines
begin

text \<open>
  \<open>codex-rs/apply-patch/src/lib.rs\<close>: applying hunks to a file system.

  The executor's file system, the path arithmetic of \<open>PathUri\<close> and the two output streams are the
  fields of one record over an arbitrary world \<open>'w\<close>; the sandbox context, which the code only hands
  through, is part of those functions.  Every operation that changes state returns the world it
  leaves, also when it fails, so a failed write may have truncated its target.
\<close>

section \<open>Data\<close>

datatype io_error_kind = NotFound | InvalidInput | OtherKind

record io_error =
  kind :: io_error_kind
  io_text :: string

record file_metadata =
  is_directory :: bool
  is_file :: bool
  is_symlink :: bool

record 'w executor_fs =
  read_file_text :: "'w \<Rightarrow> string \<Rightarrow> io_error + string"
  get_metadata :: "'w \<Rightarrow> string \<Rightarrow> io_error + file_metadata"
  write_file :: "'w \<Rightarrow> string \<Rightarrow> string \<Rightarrow> (io_error + unit) \<times> 'w"
  create_directory :: "'w \<Rightarrow> string \<Rightarrow> (io_error + unit) \<times> 'w"
  remove :: "'w \<Rightarrow> string \<Rightarrow> (io_error + unit) \<times> 'w"
  uri_join :: "string \<Rightarrow> string \<Rightarrow> string + string"
  uri_parent :: "string \<Rightarrow> string option"
  native_path :: "string \<Rightarrow> string"
  write_stdout :: "'w \<Rightarrow> string \<Rightarrow> (io_error + unit) \<times> 'w"
  write_stderr :: "'w \<Rightarrow> string \<Rightarrow> (io_error + unit) \<times> 'w"

datatype apply_patch_error =
    ParseError parse_error
  | IoError (context_text: string) (io_source: string)
  | ComputeReplacements string
  | PathUri string
  | ImplicitInvocation
  | Panicked

datatype applied_patch_file_change =
    Add (content: string) (overwritten_content: "string option")
  | Delete (content: string)
  | Update (update_move_path: "string option") (old_content: string)
      (overwritten_move_content: "string option") (new_content: string)

record applied_patch_change =
  change_path :: string
  change :: applied_patch_file_change

record applied_patch_delta =
  delta_changes :: "applied_patch_change list"
  exact :: bool

definition delta_empty :: applied_patch_delta where
  "delta_empty = \<lparr>delta_changes = [], exact = True\<rparr>"

definition delta_append :: "applied_patch_delta \<Rightarrow> applied_patch_delta \<Rightarrow> applied_patch_delta" where
  "delta_append d other =
     \<lparr>delta_changes = delta_changes d @ delta_changes other, exact = (exact d \<and> exact other)\<rparr>"

definition push_change ::
  "string \<Rightarrow> applied_patch_file_change \<Rightarrow> applied_patch_delta \<Rightarrow> applied_patch_delta" where
  "push_change p c d = d\<lparr>delta_changes := delta_changes d @ [\<lparr>change_path = p, change = c\<rparr>]\<rparr>"

definition and_exact :: "bool \<Rightarrow> applied_patch_delta \<Rightarrow> applied_patch_delta" where
  "and_exact b d = d\<lparr>exact := exact d \<and> b\<rparr>"

record apply_patch_failure =
  failure_error :: apply_patch_error
  failure_delta :: applied_patch_delta

record affected_paths =
  added :: "string list"
  modified :: "string list"
  deleted :: "string list"

text \<open>
  The errors \<open>apply_hunks_to_files\<close> returns as \<open>anyhow::Error\<close>: an I/O error under a context, an
  \<open>ApplyPatchError\<close>, a path error, or a plain message.
\<close>

datatype anyhow_error =
    AnyContext string io_error
  | AnyPatch apply_patch_error
  | AnyPath string
  | AnyMessage string

text \<open>The \<open>Display\<close> text of the error types; of a context only the outermost layer is shown.\<close>

fun display_parse_error :: "parse_error \<Rightarrow> string" where
  "display_parse_error (InvalidPatchError m) = ''invalid patch: '' @ m"
| "display_parse_error (InvalidHunkError m n) = ''invalid hunk at line '' @ show_nat n @ '', '' @ m"

definition msg_implicit_invocation :: string where
  "msg_implicit_invocation =
     ''patch detected without explicit call to apply_patch. Rerun as ['' @
     CHR 0x22 # ''apply_patch'' @ CHR 0x22 # '', '' @ CHR 0x22 # ''<patch>'' @ CHR 0x22 # '']''"

fun display_error :: "apply_patch_error \<Rightarrow> string" where
  "display_error (ParseError e) = display_parse_error e"
| "display_error (IoError ctx src) = ctx @ '': '' @ src"
| "display_error (ComputeReplacements m) = m"
| "display_error (PathUri m) = m"
| "display_error ImplicitInvocation = msg_implicit_invocation"
| "display_error Panicked = []"

fun display_anyhow :: "anyhow_error \<Rightarrow> string" where
  "display_anyhow (AnyContext ctx _) = ctx"
| "display_anyhow (AnyPatch e) = display_error e"
| "display_anyhow (AnyPath m) = m"
| "display_anyhow (AnyMessage m) = m"

section \<open>File helpers\<close>

definition ensure_not_directory :: "'w executor_fs \<Rightarrow> 'w \<Rightarrow> string \<Rightarrow> io_error + unit" where
  "ensure_not_directory fs w p =
     and_then (get_metadata fs w p) (\<lambda>m.
       if is_directory m then Inl \<lparr>kind = InvalidInput, io_text = ''path is a directory''\<rparr> else Inr ())"

definition remove_failure_was_side_effect_free ::
  "'w executor_fs \<Rightarrow> 'w \<Rightarrow> string \<Rightarrow> string option \<Rightarrow> bool" where
  "remove_failure_was_side_effect_free fs w p expected =
     (case expected of Some text \<Rightarrow> read_file_text fs w p = Inr text | None \<Rightarrow> False)"

definition note_existing_path_delta_support ::
  "'w executor_fs \<Rightarrow> 'w \<Rightarrow> string \<Rightarrow> applied_patch_delta \<Rightarrow> applied_patch_delta" where
  "note_existing_path_delta_support fs w p d =
     (case get_metadata fs w p of
        Inr m \<Rightarrow> if is_file m \<and> \<not> is_symlink m then d else and_exact False d
      | Inl e \<Rightarrow> if kind e = NotFound then d else and_exact False d)"

definition read_optional_file_text_for_delta ::
  "'w executor_fs \<Rightarrow> 'w \<Rightarrow> string \<Rightarrow> applied_patch_delta \<Rightarrow> string option \<times> applied_patch_delta" where
  "read_optional_file_text_for_delta fs w p d =
     (let d = note_existing_path_delta_support fs w p d in
      case read_file_text fs w p of
        Inr text \<Rightarrow> (Some text, d)
      | Inl e \<Rightarrow> if kind e = NotFound then (None, d) else (None, and_exact False d))"

definition failed_to :: "string \<Rightarrow> 'w executor_fs \<Rightarrow> string \<Rightarrow> string" where
  "failed_to what fs p = ''Failed to '' @ what @ '' '' @ native_path fs p"

definition write_file_with_missing_parent_retry ::
  "'w executor_fs \<Rightarrow> 'w \<Rightarrow> string \<Rightarrow> string \<Rightarrow> (anyhow_error + unit) \<times> 'w" where
  "write_file_with_missing_parent_retry fs w p text =
     (case write_file fs w p text of
        (Inr _, w1) \<Rightarrow> (Inr (), w1)
      | (Inl e, w1) \<Rightarrow>
          if kind e \<noteq> NotFound then (Inl (AnyContext (failed_to ''write file'' fs p) e), w1)
          else (case (case uri_parent fs p of
                        Some dir \<Rightarrow> create_directory fs w1 dir | None \<Rightarrow> (Inr (), w1)) of
              (Inl e, w2) \<Rightarrow> (Inl (AnyContext (failed_to ''create parent directories for'' fs p) e), w2)
            | (Inr _, w2) \<Rightarrow>
                (case write_file fs w2 p text of
                   (Inr _, w3) \<Rightarrow> (Inr (), w3)
                 | (Inl e, w3) \<Rightarrow> (Inl (AnyContext (failed_to ''write file'' fs p) e), w3))))"

text \<open>The original and the new text of an updated file.\<close>

definition derive_new_contents_from_chunks ::
  "'w executor_fs \<Rightarrow> 'w \<Rightarrow> string \<Rightarrow> update_file_chunk list \<Rightarrow> apply_patch_error + string \<times> string" where
  "derive_new_contents_from_chunks fs w p cs =
     and_then (map_err (\<lambda>e. IoError (failed_to ''read file to update'' fs p) (io_text e))
                 (read_file_text fs w p)) (\<lambda>original.
       case new_contents_from_chunks (native_path fs p) original cs of
         None \<Rightarrow> Inl Panicked
       | Some (Inl m) \<Rightarrow> Inl (ComputeReplacements m)
       | Some (Inr new) \<Rightarrow> Inr (original, new))"

section \<open>One hunk\<close>

type_synonym 'w hunk_result = "'w \<times> applied_patch_delta \<times> (anyhow_error + unit)"

definition add_hunk ::
  "'w executor_fs \<Rightarrow> string \<Rightarrow> string \<Rightarrow> 'w \<Rightarrow> applied_patch_delta \<Rightarrow> 'w hunk_result" where
  "add_hunk fs p text w d =
     (let (overwritten, d) = read_optional_file_text_for_delta fs w p d in
      case write_file_with_missing_parent_retry fs w p text of
        (Inl e, w') \<Rightarrow> (w', and_exact False d, Inl e)
      | (Inr _, w') \<Rightarrow> (w', push_change p (Add text overwritten) d, Inr ()))"

text \<open>
  \<open>ensure_not_directory\<close> and then \<open>remove\<close>, as both the deletion and the rename do; a failed removal
  keeps the delta exact only if the expected text is still there.
\<close>

definition remove_file ::
  "'w executor_fs \<Rightarrow> string \<Rightarrow> string \<Rightarrow> string option \<Rightarrow> 'w \<Rightarrow> applied_patch_delta \<Rightarrow> 'w hunk_result" where
  "remove_file fs what p expected w d =
     (case ensure_not_directory fs w p of
        Inl e \<Rightarrow> (w, d, Inl (AnyContext (failed_to what fs p) e))
      | Inr _ \<Rightarrow>
          (case remove fs w p of
             (Inl e, w') \<Rightarrow>
               (w', and_exact (remove_failure_was_side_effect_free fs w' p expected) d,
                Inl (AnyContext (failed_to what fs p) e))
           | (Inr _, w') \<Rightarrow> (w', d, Inr ())))"

definition delete_hunk ::
  "'w executor_fs \<Rightarrow> string \<Rightarrow> 'w \<Rightarrow> applied_patch_delta \<Rightarrow> 'w hunk_result" where
  "delete_hunk fs p w d =
     (let d = note_existing_path_delta_support fs w p d;
          deleted_content = (case read_file_text fs w p of Inr text \<Rightarrow> Some text | Inl _ \<Rightarrow> None);
          d = (if deleted_content = None then and_exact False d else d)
      in case remove_file fs ''delete file'' p deleted_content w d of
           (w', d, Inl e) \<Rightarrow> (w', d, Inl e)
         | (w', d, Inr _) \<Rightarrow>
             (w', (case deleted_content of Some text \<Rightarrow> push_change p (Delete text) d | None \<Rightarrow> d), Inr ()))"

definition move_hunk ::
  "'w executor_fs \<Rightarrow> string \<Rightarrow> string \<Rightarrow> string \<Rightarrow> string \<Rightarrow> 'w \<Rightarrow> applied_patch_delta \<Rightarrow> 'w hunk_result" where
  "move_hunk fs p dest original new w d =
     (let (overwritten, d) = read_optional_file_text_for_delta fs w dest d in
      case write_file_with_missing_parent_retry fs w dest new of
        (Inl e, w') \<Rightarrow> (w', and_exact False d, Inl e)
      | (Inr _, w1) \<Rightarrow>
          (let dest_write_change_index = length (delta_changes d);
               d = push_change dest (Add new overwritten) d
           in case remove_file fs ''remove original'' p (Some original) w1 d of
                (w', d, Inl e) \<Rightarrow> (w', d, Inl e)
              | (w', d, Inr _) \<Rightarrow>
                  (w', d\<lparr>delta_changes := (delta_changes d)[dest_write_change_index :=
                          \<lparr>change_path = p, change = Update (Some dest) original overwritten new\<rparr>]\<rparr>,
                   Inr ())))"

definition update_in_place_hunk ::
  "'w executor_fs \<Rightarrow> string \<Rightarrow> string \<Rightarrow> string \<Rightarrow> 'w \<Rightarrow> applied_patch_delta \<Rightarrow> 'w hunk_result" where
  "update_in_place_hunk fs p original new w d =
     (case write_file fs w p new of
        (Inl e, w') \<Rightarrow> (w', and_exact False d, Inl (AnyContext (failed_to ''write file'' fs p) e))
      | (Inr _, w') \<Rightarrow> (w', push_change p (Update None original None new) d, Inr ()))"

definition update_hunk ::
  "'w executor_fs \<Rightarrow> string \<Rightarrow> string \<Rightarrow> string option \<Rightarrow> update_file_chunk list \<Rightarrow> 'w
     \<Rightarrow> applied_patch_delta \<Rightarrow> 'w hunk_result" where
  "update_hunk fs cwd p mv cs w d =
     (let d = note_existing_path_delta_support fs w p d in
      case derive_new_contents_from_chunks fs w p cs of
        Inl e \<Rightarrow> (w, d, Inl (AnyPatch e))
      | Inr (original, new) \<Rightarrow>
          (case mv of
             None \<Rightarrow> update_in_place_hunk fs p original new w d
           | Some dest \<Rightarrow>
               (case uri_join fs cwd dest of
                  Inl m \<Rightarrow> (w, d, Inl (AnyPath m))
                | Inr dest_uri \<Rightarrow> move_hunk fs p dest_uri original new w d)))"

definition apply_hunk ::
  "'w executor_fs \<Rightarrow> string \<Rightarrow> hunk \<Rightarrow> 'w \<Rightarrow> applied_patch_delta \<Rightarrow> 'w hunk_result" where
  "apply_hunk fs cwd h w d =
     (case uri_join fs cwd (hunk_source_path h) of
        Inl m \<Rightarrow> (w, d, Inl (AnyPath m))
      | Inr p \<Rightarrow>
          (case h of
             AddFile _ text \<Rightarrow> add_hunk fs p text w d
           | DeleteFile _ \<Rightarrow> delete_hunk fs p w d
           | UpdateFile _ mv cs \<Rightarrow> update_hunk fs cwd p mv cs w d))"

section \<open>All hunks\<close>

fun note_affected :: "hunk \<Rightarrow> affected_paths \<Rightarrow> affected_paths" where
  "note_affected (AddFile p t) a = a\<lparr>added := added a @ [hunk_path (AddFile p t)]\<rparr>"
| "note_affected (DeleteFile p) a = a\<lparr>deleted := deleted a @ [hunk_path (DeleteFile p)]\<rparr>"
| "note_affected (UpdateFile p mv cs) a = a\<lparr>modified := modified a @ [hunk_path (UpdateFile p mv cs)]\<rparr>"

fun apply_hunk_loop ::
  "'w executor_fs \<Rightarrow> string \<Rightarrow> hunk list \<Rightarrow> affected_paths \<Rightarrow> 'w \<Rightarrow> applied_patch_delta
     \<Rightarrow> 'w \<times> applied_patch_delta \<times> (anyhow_error + affected_paths)" where
  "apply_hunk_loop fs cwd [] a w d = (w, d, Inr a)"
| "apply_hunk_loop fs cwd (h # hs) a w d =
     (case apply_hunk fs cwd h w d of
        (w, d, Inl e) \<Rightarrow> (w, d, Inl e)
      | (w, d, Inr _) \<Rightarrow> apply_hunk_loop fs cwd hs (note_affected h a) w d)"

definition no_affected :: affected_paths where
  "no_affected = \<lparr>added = [], modified = [], deleted = []\<rparr>"

definition apply_hunks_to_files ::
  "'w executor_fs \<Rightarrow> string \<Rightarrow> hunk list \<Rightarrow> 'w \<Rightarrow> applied_patch_delta
     \<Rightarrow> 'w \<times> applied_patch_delta \<times> (anyhow_error + affected_paths)" where
  "apply_hunks_to_files fs cwd hs w d =
     (if hs = [] then (w, d, Inl (AnyMessage ''No files were modified.''))
      else apply_hunk_loop fs cwd hs no_affected w d)"

fun write_lines ::
  "('w \<Rightarrow> string \<Rightarrow> (io_error + unit) \<times> 'w) \<Rightarrow> string list \<Rightarrow> 'w \<Rightarrow> (io_error + unit) \<times> 'w" where
  "write_lines out [] w = (Inr (), w)"
| "write_lines out (l # ls) w =
     (case out w (l @ [LF]) of (Inl e, w) \<Rightarrow> (Inl e, w) | (Inr _, w) \<Rightarrow> write_lines out ls w)"

definition summary_lines :: "affected_paths \<Rightarrow> string list" where
  "summary_lines a =
     ''Success. Updated the following files:'' #
     map (\<lambda>p. ''A '' @ p) (added a) @ map (\<lambda>p. ''M '' @ p) (modified a) @ map (\<lambda>p. ''D '' @ p) (deleted a)"

definition print_summary :: "'w executor_fs \<Rightarrow> affected_paths \<Rightarrow> 'w \<Rightarrow> (io_error + unit) \<times> 'w" where
  "print_summary fs a w = write_lines (write_stdout fs) (summary_lines a) w"

definition io_failure :: "io_error \<Rightarrow> apply_patch_error" where
  "io_failure e = IoError ''I/O error'' (io_text e)"

definition fail_with :: "apply_patch_error \<Rightarrow> applied_patch_delta \<Rightarrow> apply_patch_failure" where
  "fail_with e d = \<lparr>failure_error = e, failure_delta = d\<rparr>"

text \<open>\<open>downcast_ref::<io::Error>\<close> finds the I/O error under a context and in nothing else.\<close>

fun to_apply_patch_error :: "anyhow_error \<Rightarrow> apply_patch_error" where
  "to_apply_patch_error (AnyContext _ e) = io_failure e"
| "to_apply_patch_error err = IoError (display_anyhow err) (display_anyhow err)"

definition apply_hunks ::
  "'w executor_fs \<Rightarrow> string \<Rightarrow> hunk list \<Rightarrow> 'w \<Rightarrow> 'w \<times> (apply_patch_failure + applied_patch_delta)" where
  "apply_hunks fs cwd hs w =
     (case apply_hunks_to_files fs cwd hs w delta_empty of
        (w, d, Inr affected) \<Rightarrow>
          (case print_summary fs affected w of
             (Inl e, w) \<Rightarrow> (w, Inl (fail_with (io_failure e) d))
           | (Inr _, w) \<Rightarrow> (w, Inr d))
      | (w, d, Inl err) \<Rightarrow>
          (case write_lines (write_stderr fs) [display_anyhow err] w of
             (Inl e, w) \<Rightarrow> (w, Inl (fail_with (io_failure e) d))
           | (Inr _, w) \<Rightarrow> (w, Inl (fail_with (to_apply_patch_error err) d))))"

fun parse_error_line :: "parse_error \<Rightarrow> string" where
  "parse_error_line (InvalidPatchError m) = ''Invalid patch: '' @ m"
| "parse_error_line (InvalidHunkError m n) = ''Invalid patch hunk on line '' @ show_nat n @ '': '' @ m"

definition apply_patch ::
  "'w executor_fs \<Rightarrow> string \<Rightarrow> string \<Rightarrow> 'w \<Rightarrow> 'w \<times> (apply_patch_failure + applied_patch_delta)" where
  "apply_patch fs cwd patch w =
     (case parse_patch patch of
        Inr source \<Rightarrow> apply_hunks fs cwd (args_hunks source) w
      | Inl err \<Rightarrow>
          (case write_lines (write_stderr fs) [parse_error_line err] w of
             (Inl e, w) \<Rightarrow> (w, Inl (fail_with (io_failure e) delta_empty))
           | (Inr _, w) \<Rightarrow> (w, Inl (fail_with (ParseError err) delta_empty))))"

section \<open>What the code relies on\<close>

text \<open>The text files a world holds, as the executor reads them.\<close>

definition files_of :: "'w executor_fs \<Rightarrow> 'w \<Rightarrow> string \<Rightarrow> string option" where
  "files_of fs w p = (case read_file_text fs w p of Inr text \<Rightarrow> Some text | Inl _ \<Rightarrow> None)"

text \<open>What \<open>note_existing_path_delta_support\<close> looks for: a regular file, or nothing there.\<close>

definition plain_path :: "'w executor_fs \<Rightarrow> 'w \<Rightarrow> string \<Rightarrow> bool" where
  "plain_path fs w p \<longleftrightarrow>
     (case get_metadata fs w p of Inr m \<Rightarrow> is_file m \<and> \<not> is_symlink m | Inl e \<Rightarrow> kind e = NotFound)"

text \<open>
  The documented behaviour of a file system in which no path is an alias of a plain path: a
  successful write of a plain path changes the text of that path only; a write that fails because a
  directory is missing writes nothing; creating a directory changes no file and leaves a plain path
  under it plain; a successful removal removes that file only; a failed removal changes nothing or
  has removed the file; and the output streams are not files.
\<close>

definition text_fs :: "'w executor_fs \<Rightarrow> bool" where
  "text_fs fs \<longleftrightarrow>
     (\<forall>w p text w'. write_file fs w p text = (Inr (), w') \<and> plain_path fs w p \<longrightarrow>
        files_of fs w' = (files_of fs w)(p \<mapsto> text)) \<and>
     (\<forall>w p text e w'. write_file fs w p text = (Inl e, w') \<and> kind e = NotFound \<longrightarrow>
        files_of fs w' = files_of fs w \<and> (plain_path fs w p \<longrightarrow> plain_path fs w' p)) \<and>
     (\<forall>w p dir r w'. create_directory fs w dir = (r, w') \<longrightarrow>
        files_of fs w' = files_of fs w \<and>
        (uri_parent fs p = Some dir \<and> plain_path fs w p \<longrightarrow> plain_path fs w' p)) \<and>
     (\<forall>w p w'. remove fs w p = (Inr (), w') \<longrightarrow> files_of fs w' = (files_of fs w)(p := None)) \<and>
     (\<forall>w p e w'. remove fs w p = (Inl e, w') \<longrightarrow>
        files_of fs w' = files_of fs w \<or> files_of fs w' = (files_of fs w)(p := None)) \<and>
     (\<forall>w text r w'. write_stdout fs w text = (r, w') \<longrightarrow> files_of fs w' = files_of fs w) \<and>
     (\<forall>w text r w'. write_stderr fs w text = (r, w') \<longrightarrow> files_of fs w' = files_of fs w)"

lemma text_fs_laws:
  assumes "text_fs fs"
  shows write_law: "\<lbrakk>write_file fs w p text = (Inr (), w'); plain_path fs w p\<rbrakk>
      \<Longrightarrow> files_of fs w' = (files_of fs w)(p \<mapsto> text)"
    and write_missing_law: "\<lbrakk>write_file fs w p text = (Inl e, w'); kind e = NotFound\<rbrakk>
      \<Longrightarrow> files_of fs w' = files_of fs w \<and> (plain_path fs w p \<longrightarrow> plain_path fs w' p)"
    and create_law: "create_directory fs w dir = (r, w') \<Longrightarrow> files_of fs w' = files_of fs w \<and>
      (uri_parent fs p = Some dir \<and> plain_path fs w p \<longrightarrow> plain_path fs w' p)"
    and remove_law: "remove fs w p = (Inr (), w') \<Longrightarrow> files_of fs w' = (files_of fs w)(p := None)"
    and remove_failed_law: "remove fs w p = (Inl e, w')
      \<Longrightarrow> files_of fs w' = files_of fs w \<or> files_of fs w' = (files_of fs w)(p := None)"
    and stdout_law: "write_stdout fs w text = (r, w') \<Longrightarrow> files_of fs w' = files_of fs w"
    and stderr_law: "write_stderr fs w text = (r, w') \<Longrightarrow> files_of fs w' = files_of fs w"
  using assms unfolding text_fs_def by (metis (no_types))+

section \<open>Replaying and undoing a delta\<close>

fun replay_change :: "applied_patch_change \<Rightarrow> (string \<Rightarrow> string option) \<Rightarrow> string \<Rightarrow> string option" where
  "replay_change \<lparr>change_path = p, change = Add text _\<rparr> m = m(p \<mapsto> text)"
| "replay_change \<lparr>change_path = p, change = Delete _\<rparr> m = m(p := None)"
| "replay_change \<lparr>change_path = p, change = Update None _ _ new\<rparr> m = m(p \<mapsto> new)"
| "replay_change \<lparr>change_path = p, change = Update (Some dest) _ _ new\<rparr> m = m(dest \<mapsto> new, p := None)"

fun undo_change :: "applied_patch_change \<Rightarrow> (string \<Rightarrow> string option) \<Rightarrow> string \<Rightarrow> string option" where
  "undo_change \<lparr>change_path = p, change = Add _ overwritten\<rparr> m = m(p := overwritten)"
| "undo_change \<lparr>change_path = p, change = Delete text\<rparr> m = m(p \<mapsto> text)"
| "undo_change \<lparr>change_path = p, change = Update None old _ _\<rparr> m = m(p \<mapsto> old)"
| "undo_change \<lparr>change_path = p, change = Update (Some dest) old overwritten _\<rparr> m =
     m(dest := overwritten, p \<mapsto> old)"

text \<open>
  What one step does to the world and the delta: it appends changes, never makes the delta exact
  again, and if the delta is still exact then the changes, replayed, are what happened to the files
  and, undone, restore them.
\<close>

definition faithful_step ::
  "'w executor_fs \<Rightarrow> 'w \<Rightarrow> applied_patch_delta \<Rightarrow> 'w \<Rightarrow> applied_patch_delta \<Rightarrow> bool" where
  "faithful_step fs w d w' d' \<longleftrightarrow>
     (\<exists>cs. delta_changes d' = delta_changes d @ cs \<and>
       (exact d' \<longrightarrow> exact d \<and> fold replay_change cs (files_of fs w) = files_of fs w' \<and>
                    foldr undo_change cs (files_of fs w') = files_of fs w))"

lemma faithful_stepI:
  assumes "delta_changes d' = delta_changes d @ cs" and "exact d' \<Longrightarrow> exact d"
    and "exact d' \<Longrightarrow> fold replay_change cs (files_of fs w) = files_of fs w'"
    and "exact d' \<Longrightarrow> foldr undo_change cs (files_of fs w') = files_of fs w"
  shows "faithful_step fs w d w' d'"
  using assms unfolding faithful_step_def by blast

lemma faithful_step_trans:
  assumes "faithful_step fs w d w1 d1" and "faithful_step fs w1 d1 w2 d2"
  shows "faithful_step fs w d w2 d2"
proof -
  obtain cs1 where 1: "delta_changes d1 = delta_changes d @ cs1"
    "exact d1 \<longrightarrow> exact d \<and> fold replay_change cs1 (files_of fs w) = files_of fs w1 \<and>
       foldr undo_change cs1 (files_of fs w1) = files_of fs w"
    using assms(1) unfolding faithful_step_def by blast
  obtain cs2 where 2: "delta_changes d2 = delta_changes d1 @ cs2"
    "exact d2 \<longrightarrow> exact d1 \<and> fold replay_change cs2 (files_of fs w1) = files_of fs w2 \<and>
       foldr undo_change cs2 (files_of fs w2) = files_of fs w1"
    using assms(2) unfolding faithful_step_def by blast
  show ?thesis
    by (rule faithful_stepI [where cs = "cs1 @ cs2"]) (use 1 2 in auto)
qed

text \<open>A step that pushes nothing and either gives up exactness or changes no file.\<close>

lemma faithful_step_idle:
  assumes "delta_changes d' = delta_changes d" and "exact d' \<Longrightarrow> exact d"
    and "exact d' \<Longrightarrow> files_of fs w' = files_of fs w"
  shows "faithful_step fs w d w' d'"
  using assms by (intro faithful_stepI [where cs = "[]"]) auto

lemma faithful_step_push:
  assumes "exact d \<Longrightarrow> replay_change \<lparr>change_path = p, change = c\<rparr> (files_of fs w) = files_of fs w'"
    and "exact d \<Longrightarrow> undo_change \<lparr>change_path = p, change = c\<rparr> (files_of fs w') = files_of fs w"
  shows "faithful_step fs w d w' (push_change p c d)"
  using assms
  by (intro faithful_stepI [where cs = "[\<lparr>change_path = p, change = c\<rparr>]"]) (auto simp: push_change_def)

lemma exact_simps [simp]:
  "exact (and_exact b d) \<longleftrightarrow> exact d \<and> b" "delta_changes (and_exact b d) = delta_changes d"
  "exact (push_change p c d) = exact d"
  "delta_changes (push_change p c d) = delta_changes d @ [\<lparr>change_path = p, change = c\<rparr>]"
  by (simp_all add: and_exact_def push_change_def)

lemma note_existing_simps [simp]:
  "exact (note_existing_path_delta_support fs w p d) \<longleftrightarrow> exact d \<and> plain_path fs w p"
  "delta_changes (note_existing_path_delta_support fs w p d) = delta_changes d"
  by (auto simp: note_existing_path_delta_support_def plain_path_def split: sum.splits)

lemma read_optional_cases:
  assumes "read_optional_file_text_for_delta fs w p d = (overwritten, d')"
  shows "delta_changes d' = delta_changes d" and "overwritten = files_of fs w p"
    and "exact d' \<Longrightarrow> exact d \<and> plain_path fs w p"
  using assms
  by (auto simp: read_optional_file_text_for_delta_def Let_def files_of_def split: sum.splits if_splits)

section \<open>Every hunk is a faithful step\<close>

lemma write_retry_writes:
  assumes fs: "text_fs fs" and plain: "plain_path fs w p"
    and run: "write_file_with_missing_parent_retry fs w p text = (Inr u, w')"
  shows "files_of fs w' = (files_of fs w)(p \<mapsto> text)"
proof (cases "write_file fs w p text")
  case (Pair r w1)
  show ?thesis
  proof (cases r)
    case (Inr u)
    then show ?thesis
      using run Pair write_law [OF fs _ plain]
      by (simp add: write_file_with_missing_parent_retry_def)
  next
    case (Inl e)
    then have missing: "kind e = NotFound"
      using run Pair by (auto simp: write_file_with_missing_parent_retry_def split: if_splits)
    have w1: "files_of fs w1 = files_of fs w" "plain_path fs w1 p"
      using write_missing_law [OF fs _ missing] Pair Inl plain by auto
    obtain r2 w2 where dir: "(case uri_parent fs p of
        Some dir \<Rightarrow> create_directory fs w1 dir | None \<Rightarrow> (Inr (), w1)) = (r2, w2)"
      by fastforce
    have w2: "files_of fs w2 = files_of fs w1" "plain_path fs w2 p"
      using dir create_law [OF fs, of w1 _ r2 w2 p] w1(2) by (auto split: option.splits)
    have "write_file fs w2 p text = (Inr (), w')"
      using run Pair Inl missing dir
      by (auto simp: write_file_with_missing_parent_retry_def split: sum.splits prod.splits)
    then show ?thesis using write_law [OF fs _ w2(2)] w1(1) w2(1) by simp
  qed
qed

lemma remove_file_effect:
  assumes fs: "text_fs fs" and run: "remove_file fs what p expected w d = (w', d', r)"
  shows "delta_changes d' = delta_changes d" and "exact d' \<Longrightarrow> exact d"
    and "r = Inr u \<Longrightarrow> d' = d \<and> files_of fs w' = (files_of fs w)(p := None)"
    and "r = Inl e \<Longrightarrow> exact d' \<Longrightarrow> files_of fs w' = files_of fs w"
proof -
  have "files_of fs w' = files_of fs w"
    if "remove fs w p = (Inl e, w')" and "read_file_text fs w' p = Inr t" for e t
  proof -
    have "files_of fs w' p = Some t" using that(2) by (simp add: files_of_def)
    then show ?thesis using remove_failed_law [OF fs that(1)] by auto
  qed
  then show "delta_changes d' = delta_changes d" and "exact d' \<Longrightarrow> exact d"
    and "r = Inr u \<Longrightarrow> d' = d \<and> files_of fs w' = (files_of fs w)(p := None)"
    and "r = Inl e \<Longrightarrow> exact d' \<Longrightarrow> files_of fs w' = files_of fs w"
    using run remove_law [OF fs]
    by (auto simp: remove_file_def remove_failure_was_side_effect_free_def
        split: sum.splits prod.splits option.splits)
qed

lemma add_hunk_faithful:
  assumes fs: "text_fs fs" and run: "add_hunk fs p text w d = (w', d', r)"
  shows "faithful_step fs w d w' d'"
proof -
  obtain ov d1 where look: "read_optional_file_text_for_delta fs w p d = (ov, d1)" by fastforce
  note look' = read_optional_cases [OF look]
  obtain r1 w1 where wr: "write_file_with_missing_parent_retry fs w p text = (r1, w1)" by fastforce
  show ?thesis
  proof (cases r1)
    case (Inl e)
    then show ?thesis
      using run look wr look'(1) by (auto simp: add_hunk_def intro!: faithful_step_idle)
  next
    case (Inr u)
    have d': "d' = push_change p (Add text ov) d1" and w': "w' = w1"
      using run look wr Inr by (auto simp: add_hunk_def)
    have "exact d1 \<Longrightarrow> files_of fs w' = (files_of fs w)(p \<mapsto> text)"
      using write_retry_writes [OF fs _ wr [unfolded Inr]] look'(3) by (simp add: w')
    then have "faithful_step fs w d1 w' d'"
      unfolding d' using look'(2) by (intro faithful_step_push) auto
    moreover have "faithful_step fs w d w d1"
      using look' by (intro faithful_step_idle) auto
    ultimately show ?thesis by (rule faithful_step_trans [rotated])
  qed
qed

lemma delete_hunk_faithful:
  assumes fs: "text_fs fs" and run: "delete_hunk fs p w d = (w', d', r)"
  shows "faithful_step fs w d w' d'"
proof -
  define d1 where "d1 = (if files_of fs w p = None
    then and_exact False (note_existing_path_delta_support fs w p d)
    else note_existing_path_delta_support fs w p d)"
  have d1: "delta_changes d1 = delta_changes d" "exact d1 \<Longrightarrow> exact d \<and> files_of fs w p \<noteq> None"
    by (auto simp: d1_def split: if_splits)
  obtain w1 d2 r2 where rm: "remove_file fs ''delete file'' p (files_of fs w p) w d1 = (w1, d2, r2)"
    by (metis prod_cases3)
  note rm' = remove_file_effect [OF fs rm]
  have first: "faithful_step fs w d w d1" using d1 by (intro faithful_step_idle) auto
  have run': "(w', d', r) = (case r2 of Inl e \<Rightarrow> (w1, d2, Inl e)
     | Inr _ \<Rightarrow> (w1, (case files_of fs w p of Some text \<Rightarrow> push_change p (Delete text) d2 | None \<Rightarrow> d2), Inr ()))"
    using run rm unfolding d1_def files_of_def delete_hunk_def Let_def
    by (auto split: sum.splits prod.splits)
  show ?thesis
  proof (cases r2)
    case (Inl e)
    then have "faithful_step fs w d1 w' d'"
      using run' rm'(1,2) rm'(4) [of e] by (intro faithful_step_idle) auto
    with first show ?thesis by (rule faithful_step_trans)
  next
    case (Inr u)
    have eff: "d2 = d1" "files_of fs w1 = (files_of fs w)(p := None)" using rm'(3) Inr by auto
    have "faithful_step fs w d1 w' d'"
    proof (cases "files_of fs w p")
      case None
      then show ?thesis using run' Inr eff d1 by (intro faithful_step_idle) auto
    next
      case (Some t)
      then have "d' = push_change p (Delete t) d1" "w' = w1" using run' Inr eff by auto
      then show ?thesis
        using eff(2) Some by (auto intro!: faithful_step_push simp: fun_upd_idem)
    qed
    with first show ?thesis by (rule faithful_step_trans)
  qed
qed

text \<open>A successful rename records one \<open>Update\<close> in place of the destination's \<open>Add\<close>.\<close>

lemma replace_pushed_change:
  "(push_change q c d)\<lparr>delta_changes := (delta_changes (push_change q c d))[length (delta_changes d) :=
      \<lparr>change_path = p, change = c'\<rparr>]\<rparr> = push_change p c' d"
  by (simp add: push_change_def list_update_append)

lemma move_hunk_cases:
  assumes fs: "text_fs fs" and run: "move_hunk fs p dest original new w d = (w', d', r)"
    and look: "read_optional_file_text_for_delta fs w dest d = (ov, d1)"
  shows "delta_changes d' = delta_changes d1 \<and> \<not> exact d' \<and> (\<exists>e. r = Inl e)
    \<or> delta_changes d' = delta_changes (push_change dest (Add new ov) d1) \<and>
        (exact d' \<longrightarrow> exact d1 \<and> files_of fs w' = (files_of fs w)(dest \<mapsto> new)) \<and> (\<exists>e. r = Inl e)
    \<or> d' = push_change p (Update (Some dest) original ov new) d1 \<and> r = Inr () \<and>
        (exact d' \<longrightarrow> files_of fs w' = (files_of fs w)(dest \<mapsto> new, p := None))"
proof -
  note plain = read_optional_cases(3) [OF look]
  obtain r1 w1 where wr: "write_file_with_missing_parent_retry fs w dest new = (r1, w1)" by fastforce
  show ?thesis
  proof (cases r1)
    case (Inl e)
    then show ?thesis using run look wr by (auto simp: move_hunk_def)
  next
    case (Inr u)
    have written: "exact d1 \<Longrightarrow> files_of fs w1 = (files_of fs w)(dest \<mapsto> new)"
      using write_retry_writes [OF fs _ wr [unfolded Inr]] plain by blast
    obtain w2 d2 r2 where rm: "remove_file fs ''remove original'' p (Some original) w1
        (push_change dest (Add new ov) d1) = (w2, d2, r2)"
      by (metis prod_cases3)
    note rm' = remove_file_effect [OF fs rm]
    show ?thesis
    proof (cases r2)
      case (Inl e)
      then have "w' = w2" "d' = d2" "r = Inl e"
        using run look wr Inr rm by (auto simp: move_hunk_def)
      then show ?thesis using rm'(1,2,4) written Inl by auto
    next
      case Inr2: (Inr v)
      have eff: "d2 = push_change dest (Add new ov) d1" "files_of fs w2 = (files_of fs w1)(p := None)"
        using rm'(3) Inr2 by auto
      have "w' = w2" "d' = push_change p (Update (Some dest) original ov new) d1" "r = Inr ()"
        using run look wr Inr rm Inr2 replace_pushed_change [of dest "Add new ov" d1]
        by (auto simp: move_hunk_def eff(1))
      then show ?thesis using eff(2) written by auto
    qed
  qed
qed

lemma move_hunk_faithful:
  assumes fs: "text_fs fs" and run: "move_hunk fs p dest original new w d = (w', d', r)"
    and source: "files_of fs w p = Some original"
  shows "faithful_step fs w d w' d'"
proof -
  obtain ov d1 where look: "read_optional_file_text_for_delta fs w dest d = (ov, d1)" by fastforce
  note look' = read_optional_cases [OF look]
  have "faithful_step fs w d1 w' d'"
    using move_hunk_cases [OF fs run look]
  proof (elim disjE conjE)
    assume "delta_changes d' = delta_changes d1" and "\<not> exact d'"
    then show ?thesis by (intro faithful_step_idle) auto
  next
    assume *: "delta_changes d' = delta_changes (push_change dest (Add new ov) d1)"
      "exact d' \<longrightarrow> exact d1 \<and> files_of fs w' = (files_of fs w)(dest \<mapsto> new)"
    show ?thesis
      by (rule faithful_stepI [where cs = "[\<lparr>change_path = dest, change = Add new ov\<rparr>]"])
        (use * look'(2) in auto)
  next
    assume *: "d' = push_change p (Update (Some dest) original ov new) d1"
      "exact d' \<longrightarrow> files_of fs w' = (files_of fs w)(dest \<mapsto> new, p := None)"
    show ?thesis
      unfolding *(1) by (rule faithful_step_push) (use * look'(2) source in \<open>auto simp: fun_eq_iff\<close>)
  qed
  moreover have "faithful_step fs w d w d1" using look' by (intro faithful_step_idle) auto
  ultimately show ?thesis by (rule faithful_step_trans [rotated])
qed

lemma derive_Inr_iff:
  "derive_new_contents_from_chunks fs w p cs = Inr (original, new) \<longleftrightarrow>
     read_file_text fs w p = Inr original \<and>
     new_contents_from_chunks (native_path fs p) original cs = Some (Inr new)"
proof (cases "read_file_text fs w p")
  case (Inr t)
  then show ?thesis
    by (cases "new_contents_from_chunks (native_path fs p) t cs")
      (auto simp: derive_new_contents_from_chunks_def split: sum.splits)
qed (simp add: derive_new_contents_from_chunks_def)

lemma derive_reads_original:
  "derive_new_contents_from_chunks fs w p cs = Inr (original, new) \<Longrightarrow> files_of fs w p = Some original"
  by (simp add: derive_Inr_iff files_of_def)

lemma update_in_place_faithful:
  assumes fs: "text_fs fs" and run: "update_in_place_hunk fs p original new w d = (w', d', r)"
    and plain: "exact d \<Longrightarrow> plain_path fs w p" and source: "files_of fs w p = Some original"
  shows "faithful_step fs w d w' d'"
proof -
  obtain r1 w1 where wr: "write_file fs w p new = (r1, w1)" by fastforce
  show ?thesis
  proof (cases r1)
    case (Inl e)
    then show ?thesis
      using run wr by (auto simp: update_in_place_hunk_def intro!: faithful_step_idle)
  next
    case (Inr u)
    then have "exact d \<Longrightarrow> files_of fs w1 = (files_of fs w)(p \<mapsto> new)"
      using write_law [OF fs _ plain] wr by simp
    moreover have "w' = w1" "d' = push_change p (Update None original None new) d"
      using run wr Inr by (auto simp: update_in_place_hunk_def)
    ultimately show ?thesis
      using source by (auto intro!: faithful_step_push)
  qed
qed

lemma update_hunk_faithful:
  assumes fs: "text_fs fs" and run: "update_hunk fs cwd p mv cs w d = (w', d', r)"
  shows "faithful_step fs w d w' d'"
proof -
  define d1 where "d1 = note_existing_path_delta_support fs w p d"
  have first: "faithful_step fs w d w d1" by (rule faithful_step_idle) (auto simp: d1_def)
  have "faithful_step fs w d1 w' d'"
  proof (cases "derive_new_contents_from_chunks fs w p cs")
    case (Inl e)
    then show ?thesis
      using run by (auto simp: update_hunk_def d1_def [symmetric] intro!: faithful_step_idle)
  next
    case (Inr texts)
    obtain original new where texts: "texts = (original, new)" by (cases texts)
    note source = derive_reads_original [OF Inr [unfolded texts]]
    have plain: "exact d1 \<Longrightarrow> plain_path fs w p" by (simp add: d1_def)
    show ?thesis
    proof (cases mv)
      case None
      then have "update_in_place_hunk fs p original new w d1 = (w', d', r)"
        using run Inr texts by (simp add: update_hunk_def d1_def [symmetric])
      then show ?thesis using update_in_place_faithful [OF fs _ plain source] by blast
    next
      case (Some dest)
      then consider m where "uri_join fs cwd dest = Inl m" "w' = w" "d' = d1"
        | u where "move_hunk fs p u original new w d1 = (w', d', r)"
        using run Inr texts
        by (cases "uri_join fs cwd dest") (auto simp: update_hunk_def d1_def [symmetric])
      then show ?thesis
        using move_hunk_faithful [OF fs _ source] by cases (auto intro: faithful_step_idle)
    qed
  qed
  with first show ?thesis by (rule faithful_step_trans)
qed

lemma apply_hunk_faithful:
  assumes fs: "text_fs fs" and run: "apply_hunk fs cwd h w d = (w', d', r)"
  shows "faithful_step fs w d w' d'"
proof (cases "uri_join fs cwd (hunk_source_path h)")
  case (Inl m)
  then show ?thesis using run by (auto simp: apply_hunk_def intro!: faithful_step_idle)
next
  case (Inr p)
  then show ?thesis
    using run add_hunk_faithful [OF fs] delete_hunk_faithful [OF fs] update_hunk_faithful [OF fs]
    by (cases h) (auto simp: apply_hunk_def)
qed

lemma apply_hunk_loop_faithful:
  assumes fs: "text_fs fs" and run: "apply_hunk_loop fs cwd hs a w d = (w', d', r)"
  shows "faithful_step fs w d w' d'"
  using run
proof (induction hs arbitrary: a w d)
  case Nil
  then show ?case by (auto intro: faithful_step_idle)
next
  case (Cons h hs)
  obtain w1 d1 r1 where one: "apply_hunk fs cwd h w d = (w1, d1, r1)" by (metis prod_cases3)
  note step = apply_hunk_faithful [OF fs one]
  show ?case
    using Cons one step by (cases r1) (auto intro: faithful_step_trans)
qed

section \<open>A file system in memory\<close>

text \<open>An instance of the file-system record, used by the witnesses: regular files only.\<close>

definition mem_fs :: "(string \<times> string) list executor_fs" where
  "mem_fs =
     \<lparr>read_file_text = (\<lambda>w p. case map_of w p of
         Some t \<Rightarrow> Inr t | None \<Rightarrow> Inl \<lparr>kind = NotFound, io_text = ''not found''\<rparr>),
      get_metadata = (\<lambda>w p. case map_of w p of
         Some _ \<Rightarrow> Inr \<lparr>is_directory = False, is_file = True, is_symlink = False\<rparr>
       | None \<Rightarrow> Inl \<lparr>kind = NotFound, io_text = ''not found''\<rparr>),
      write_file = (\<lambda>w p t. (Inr (), (p, t) # filter (\<lambda>(q, _). q \<noteq> p) w)),
      create_directory = (\<lambda>w p. (Inr (), w)),
      remove = (\<lambda>w p. case map_of w p of
         Some _ \<Rightarrow> (Inr (), filter (\<lambda>(q, _). q \<noteq> p) w)
       | None \<Rightarrow> (Inl \<lparr>kind = NotFound, io_text = ''not found''\<rparr>, w)),
      uri_join = (\<lambda>cwd p. Inr (cwd @ ''/'' @ p)),
      uri_parent = (\<lambda>p. None),
      native_path = (\<lambda>p. p),
      write_stdout = (\<lambda>w t. (Inr (), w)),
      write_stderr = (\<lambda>w t. (Inr (), w))\<rparr>"

lemma map_of_filter_key: "map_of (filter (\<lambda>(q, _). q \<noteq> p) w) = (map_of w)(p := None)"
  by (induction w) (auto simp: fun_eq_iff)

lemma files_of_mem_fs [simp]: "files_of mem_fs w = map_of w"
  by (simp add: fun_eq_iff files_of_def mem_fs_def split: option.splits)

lemma text_fs_mem_fs: "text_fs mem_fs"
  unfolding text_fs_def files_of_mem_fs
  by (auto simp: mem_fs_def map_of_filter_key split: option.splits)

section \<open>Properties\<close>

text \<open>
  C4: an exact delta is the truth about the files.  Whether the application of the hunks succeeds
  or stops at any hunk, if the delta it leaves is still marked exact, then replaying its changes on
  the old files gives the files on disk, and undoing them newest first gives the old files back.
\<close>

theorem exact_delta_replays_and_undoes:
  assumes "text_fs fs" and "apply_hunks_to_files fs cwd hs w delta_empty = (w', d', r)" and "exact d'"
  shows "fold replay_change (delta_changes d') (files_of fs w) = files_of fs w' \<and>
    foldr undo_change (delta_changes d') (files_of fs w') = files_of fs w"
proof -
  have "faithful_step fs w delta_empty w' d'"
    using assms(2) apply_hunk_loop_faithful [OF assms(1)]
    by (auto simp: apply_hunks_to_files_def intro: faithful_step_idle split: if_splits)
  with assms(3) show ?thesis by (auto simp: faithful_step_def delta_empty_def)
qed

definition sample_files :: "(string \<times> string) list" where
  "sample_files = [(''/r/b'', ''one'' @ [LF]), (''/r/c'', ''old c''), (''/r/d'', ''gone'')]"

definition sample_file_hunks :: "hunk list" where
  "sample_file_hunks =
     [AddFile ''a'' ''new'',
      UpdateFile ''b'' (Some ''c'')
        [\<lparr>change_context = None, old_lines = [''one''], new_lines = [''two''], is_end_of_file = False\<rparr>],
      DeleteFile ''d'',
      DeleteFile ''missing'']"

definition sample_delta :: applied_patch_delta where
  "sample_delta =
     \<lparr>delta_changes =
        [\<lparr>change_path = ''/r/a'', change = Add ''new'' None\<rparr>,
         \<lparr>change_path = ''/r/b'', change = Update (Some ''/r/c'') (''one'' @ [LF]) (Some ''old c'') (''two'' @ [LF])\<rparr>,
         \<lparr>change_path = ''/r/d'', change = Delete ''gone''\<rparr>],
      exact = True\<rparr>"

theorem exact_delta_replays_and_undoes_witness:
  "text_fs mem_fs \<and>
   apply_hunks_to_files mem_fs ''/r'' (take 3 sample_file_hunks) sample_files delta_empty =
     ([(''/r/c'', ''two'' @ [LF]), (''/r/a'', ''new'')], sample_delta,
      Inr \<lparr>added = [''a''], modified = [''c''], deleted = [''d'']\<rparr>) \<and>
   exact sample_delta \<and>
   foldr undo_change (delta_changes sample_delta)
     (files_of mem_fs [(''/r/c'', ''two'' @ [LF]), (''/r/a'', ''new'')]) = files_of mem_fs sample_files"
proof -
  have run: "apply_hunks_to_files mem_fs ''/r'' (take 3 sample_file_hunks) sample_files delta_empty =
     ([(''/r/c'', ''two'' @ [LF]), (''/r/a'', ''new'')], sample_delta,
      Inr \<lparr>added = [''a''], modified = [''c''], deleted = [''d'']\<rparr>)" by code_simp
  have ex: "exact sample_delta" by code_simp
  show ?thesis
    using run ex text_fs_mem_fs exact_delta_replays_and_undoes [OF text_fs_mem_fs run ex] by blast
qed

text \<open>Success names every hunk's path under its kind, in order.\<close>

fun hunk_added :: "hunk \<Rightarrow> bool" where
  "hunk_added (AddFile _ _) = True" | "hunk_added _ = False"
fun hunk_deleted :: "hunk \<Rightarrow> bool" where
  "hunk_deleted (DeleteFile _) = True" | "hunk_deleted _ = False"
fun hunk_modified :: "hunk \<Rightarrow> bool" where
  "hunk_modified (UpdateFile _ _ _) = True" | "hunk_modified _ = False"

lemma apply_hunk_loop_affected:
  assumes "apply_hunk_loop fs cwd hs a w d = (w', d', Inr a')"
  shows "a' = \<lparr>added = added a @ map hunk_path (filter hunk_added hs),
               modified = modified a @ map hunk_path (filter hunk_modified hs),
               deleted = deleted a @ map hunk_path (filter hunk_deleted hs)\<rparr>"
  using assms
proof (induction hs arbitrary: a w d)
  case (Cons h hs)
  then obtain w1 d1 where "apply_hunk_loop fs cwd hs (note_affected h a) w1 d1 = (w', d', Inr a')"
    by (auto split: prod.splits sum.splits)
  from Cons.IH [OF this] show ?case by (cases h) simp_all
qed simp

text \<open>
  A successful application names every hunk's path exactly once, in order, under what the hunk
  did: added, modified (a rename by its destination) or deleted.
\<close>

lemma success_names_every_hunk:
  assumes "apply_hunks_to_files fs cwd hs w d = (w', d', Inr a)"
  shows "a = \<lparr>added = map hunk_path (filter hunk_added hs),
              modified = map hunk_path (filter hunk_modified hs),
              deleted = map hunk_path (filter hunk_deleted hs)\<rparr>"
  using assms apply_hunk_loop_affected [of fs cwd hs no_affected w d w' d' a]
  by (auto simp: apply_hunks_to_files_def no_affected_def split: if_splits)

lemma success_names_every_hunk_witness:
  "apply_hunks_to_files mem_fs ''/r'' (take 3 sample_file_hunks) sample_files delta_empty =
     ([(''/r/c'', ''two'' @ [LF]), (''/r/a'', ''new'')], sample_delta,
      Inr \<lparr>added = [''a''], modified = [''c''], deleted = [''d'']\<rparr>) \<and>
   map hunk_path (filter hunk_modified (take 3 sample_file_hunks)) = [''c'']"
proof -
  have run: "apply_hunks_to_files mem_fs ''/r'' (take 3 sample_file_hunks) sample_files delta_empty =
     ([(''/r/c'', ''two'' @ [LF]), (''/r/a'', ''new'')], sample_delta,
      Inr \<lparr>added = [''a''], modified = [''c''], deleted = [''d'']\<rparr>)" by code_simp
  show ?thesis using run success_names_every_hunk [OF run] by simp
qed

text \<open>
  A rename whose destination is the file itself deletes the file.  The new text is written to
  the destination and then the source is removed, which is the same path; the hunk reports success
  and the summary counts the path as modified.
\<close>

lemma move_onto_itself_deletes:
  assumes "text_fs fs" and "uri_join fs cwd p = Inr u" and "uri_join fs cwd q = Inr u"
    and "apply_hunk fs cwd (UpdateFile p (Some q) cs) w d = (w', d', Inr ())" and "exact d'"
  shows "files_of fs w' u = None"
proof -
  obtain original new d1 where "move_hunk fs u u original new w d1 = (w', d', Inr ())"
    using assms(2-4) by (auto simp: apply_hunk_def update_hunk_def Let_def split: sum.splits prod.splits)
  moreover obtain ov d2 where "read_optional_file_text_for_delta fs w u d1 = (ov, d2)" by fastforce
  ultimately have "files_of fs w' = (files_of fs w)(u \<mapsto> new, u := None)"
    using move_hunk_cases [OF assms(1)] assms(5) by blast
  then show ?thesis by simp
qed

lemma move_onto_itself_deletes_witness:
  "uri_join mem_fs ''/r'' ''b'' = Inr ''/r/b'' \<and>
   files_of mem_fs [(''/r/b'', ''one'' @ [LF])] ''/r/b'' = Some (''one'' @ [LF]) \<and>
   apply_hunk mem_fs ''/r'' (UpdateFile ''b'' (Some ''b'')
     [\<lparr>change_context = None, old_lines = [''one''], new_lines = [''two''], is_end_of_file = False\<rparr>])
     [(''/r/b'', ''one'' @ [LF])] delta_empty =
     ([], push_change ''/r/b'' (Update (Some ''/r/b'') (''one'' @ [LF]) (Some (''one'' @ [LF])) (''two'' @ [LF]))
        delta_empty, Inr ()) \<and>
   files_of mem_fs [] ''/r/b'' = None"
proof -
  have join: "uri_join mem_fs ''/r'' ''b'' = Inr ''/r/b''" by (simp add: mem_fs_def)
  have run: "apply_hunk mem_fs ''/r'' (UpdateFile ''b'' (Some ''b'')
     [\<lparr>change_context = None, old_lines = [''one''], new_lines = [''two''], is_end_of_file = False\<rparr>])
     [(''/r/b'', ''one'' @ [LF])] delta_empty =
     ([], push_change ''/r/b'' (Update (Some ''/r/b'') (''one'' @ [LF]) (Some (''one'' @ [LF])) (''two'' @ [LF]))
        delta_empty, Inr ())" by code_simp
  show ?thesis
    using join run move_onto_itself_deletes [OF text_fs_mem_fs join join run]
    by (simp add: delta_empty_def)
qed
end
