(* ===== verification/Patch_Verify.thy ===== *)
theory Patch_Verify
  imports Patch_Files
begin

text \<open>
  \<open>codex-rs/apply-patch/src/invocation.rs\<close>: recognising an \<open>apply_patch\<close> command and computing the
  file changes it would make, which is what a user is asked to approve.

  The Tree-sitter extraction of a heredoc from a shell script and the unified diff of the
  \<open>similar\<close> crate are parameters.
\<close>

section \<open>Data\<close>

datatype apply_patch_file_change =
    ChangeAdd string
  | ChangeDelete string
  | ChangeUpdate (unified_diff: string) (change_move_path: "string option") (change_new_content: string)

record apply_patch_action =
  action_changes :: "string \<rightharpoonup> apply_patch_file_change"
  action_patch :: string
  action_cwd :: string

datatype extract_heredoc_error =
    CommandDidNotStartWithApplyPatch
  | FailedToLoadBashGrammar
  | HeredocNotUtf8
  | FailedToParsePatchIntoAst
  | FailedToFindHeredocBody

datatype maybe_apply_patch =
    PatchBody apply_patch_args
  | ShellParseError extract_heredoc_error
  | PatchParseError parse_error
  | NotApplyPatch

datatype maybe_apply_patch_verified =
    VerifiedBody apply_patch_action
  | VerifiedShellParseError extract_heredoc_error
  | CorrectnessError apply_patch_error
  | VerifiedNotApplyPatch

datatype apply_patch_shell = Unix | PowerShell | Cmd

section \<open>Recognising the command\<close>

definition APPLY_PATCH_COMMANDS :: "string list" where
  "APPLY_PATCH_COMMANDS = [''apply_patch'', ''applypatch'']"

text \<open>
  \<open>path_segments\<close> of the path convention is a parameter: the segments of an executable's path.
\<close>

definition classify_shell_name :: "(string \<Rightarrow> string list) \<Rightarrow> string \<Rightarrow> string option" where
  "classify_shell_name path_segments shell =
     (case last_opt (path_segments shell) of
        None \<Rightarrow> None
      | Some basename \<Rightarrow>
          Some (to_ascii_lowercase
            (case rsplit_once (CHR ''.'') basename of
               Some (stem, _) \<Rightarrow> if stem \<noteq> [] then stem else basename
             | None \<Rightarrow> basename)))"

definition eq_ignore_ascii_case :: "string \<Rightarrow> string \<Rightarrow> bool" where
  "eq_ignore_ascii_case a b \<longleftrightarrow> to_ascii_lowercase a = to_ascii_lowercase b"

definition classify_shell ::
  "(string \<Rightarrow> string list) \<Rightarrow> string \<Rightarrow> string \<Rightarrow> apply_patch_shell option" where
  "classify_shell path_segments shell flag =
     (case classify_shell_name path_segments shell of
        None \<Rightarrow> None
      | Some name \<Rightarrow>
          if name \<in> {''bash'', ''zsh'', ''sh''} \<and> flag \<in> {''-lc'', ''-c''} then Some Unix
          else if name \<in> {''pwsh'', ''powershell''} \<and> eq_ignore_ascii_case flag ''-command''
            then Some PowerShell
          else if name = ''cmd'' \<and> eq_ignore_ascii_case flag ''/c'' then Some Cmd
          else None)"

definition can_skip_flag :: "(string \<Rightarrow> string list) \<Rightarrow> string \<Rightarrow> string \<Rightarrow> bool" where
  "can_skip_flag path_segments shell flag =
     (case classify_shell_name path_segments shell of
        None \<Rightarrow> False
      | Some name \<Rightarrow> name \<in> {''pwsh'', ''powershell''} \<and> eq_ignore_ascii_case flag ''-noprofile'')"

text \<open>\<open>None\<close> for the convention is a working directory whose convention cannot be inferred.\<close>

definition parse_shell_script ::
  "(string \<Rightarrow> string list) option \<Rightarrow> string list \<Rightarrow> (apply_patch_shell \<times> string) option" where
  "parse_shell_script convention argv =
     (case convention of
        None \<Rightarrow> None
      | Some path_segments \<Rightarrow>
          (case argv of
             [shell, flag, script] \<Rightarrow>
               map_option (\<lambda>t. (t, script)) (classify_shell path_segments shell flag)
           | [shell, skip_flag, flag, script] \<Rightarrow>
               if \<not> can_skip_flag path_segments shell skip_flag then None
               else map_option (\<lambda>t. (t, script)) (classify_shell path_segments shell flag)
           | _ \<Rightarrow> None))"

type_synonym heredoc_extractor = "string \<Rightarrow> extract_heredoc_error + string \<times> string option"

definition extract_apply_patch_from_shell ::
  "heredoc_extractor \<Rightarrow> apply_patch_shell \<Rightarrow> string \<Rightarrow> extract_heredoc_error + string \<times> string option" where
  "extract_apply_patch_from_shell from_bash shell script = from_bash script"

definition maybe_parse_apply_patch ::
  "heredoc_extractor \<Rightarrow> (string \<Rightarrow> string list) option \<Rightarrow> string list \<Rightarrow> maybe_apply_patch" where
  "maybe_parse_apply_patch from_bash convention argv =
     (if length argv = 2 \<and> hd argv \<in> set APPLY_PATCH_COMMANDS then
        (case parse_patch (argv ! 1) of Inr source \<Rightarrow> PatchBody source | Inl e \<Rightarrow> PatchParseError e)
      else (case parse_shell_script convention argv of
          None \<Rightarrow> NotApplyPatch
        | Some (shell, script) \<Rightarrow>
            (case extract_apply_patch_from_shell from_bash shell script of
               Inr (body, workdir) \<Rightarrow>
                 (case parse_patch body of
                    Inr source \<Rightarrow> PatchBody (source\<lparr>args_workdir := workdir\<rparr>)
                  | Inl e \<Rightarrow> PatchParseError e)
             | Inl CommandDidNotStartWithApplyPatch \<Rightarrow> NotApplyPatch
             | Inl e \<Rightarrow> ShellParseError e)))"

section \<open>Computing the changes\<close>

definition unified_diff_from_chunks ::
  "(string \<Rightarrow> string \<Rightarrow> string) \<Rightarrow> 'w executor_fs \<Rightarrow> 'w \<Rightarrow> string \<Rightarrow> update_file_chunk list
     \<Rightarrow> apply_patch_error + string \<times> string \<times> string" where
  "unified_diff_from_chunks text_diff fs w p cs =
     and_then (derive_new_contents_from_chunks fs w p cs) (\<lambda>(original, new).
       Inr (text_diff original new, original, new))"

text \<open>The change one hunk would make, and the path it is filed under.\<close>

definition verify_hunk ::
  "(string \<Rightarrow> string \<Rightarrow> string) \<Rightarrow> 'w executor_fs \<Rightarrow> string \<Rightarrow> 'w \<Rightarrow> hunk
     \<Rightarrow> apply_patch_error + string \<times> apply_patch_file_change" where
  "verify_hunk text_diff fs cwd w h =
     and_then (map_err PathUri (uri_join fs cwd (hunk_source_path h))) (\<lambda>p.
       case h of
         AddFile _ text \<Rightarrow> Inr (p, ChangeAdd text)
       | DeleteFile _ \<Rightarrow>
           and_then (map_err (\<lambda>e. IoError (''Failed to read '' @ native_path fs p) (io_text e))
                       (read_file_text fs w p)) (\<lambda>text. Inr (p, ChangeDelete text))
       | UpdateFile _ mv cs \<Rightarrow>
           and_then (unified_diff_from_chunks text_diff fs w p cs) (\<lambda>(diff, _, new).
             case mv of
               None \<Rightarrow> Inr (p, ChangeUpdate diff None new)
             | Some dest \<Rightarrow>
                 and_then (map_err PathUri (uri_join fs cwd dest)) (\<lambda>dest_uri.
                   Inr (p, ChangeUpdate diff (Some dest_uri) new))))"

fun verify_hunks ::
  "(string \<Rightarrow> string \<Rightarrow> string) \<Rightarrow> 'w executor_fs \<Rightarrow> string \<Rightarrow> 'w \<Rightarrow> hunk list
     \<Rightarrow> (string \<rightharpoonup> apply_patch_file_change) \<Rightarrow> apply_patch_error + (string \<rightharpoonup> apply_patch_file_change)" where
  "verify_hunks text_diff fs cwd w [] m = Inr m"
| "verify_hunks text_diff fs cwd w (h # hs) m =
     and_then (verify_hunk text_diff fs cwd w h) (\<lambda>(p, c). verify_hunks text_diff fs cwd w hs (m(p \<mapsto> c)))"

definition effective_cwd :: "'w executor_fs \<Rightarrow> string \<Rightarrow> string option \<Rightarrow> apply_patch_error + string" where
  "effective_cwd fs cwd workdir =
     (case workdir of None \<Rightarrow> Inr cwd | Some dir \<Rightarrow> map_err PathUri (uri_join fs cwd dir))"

definition try_verify_apply_patch_args ::
  "(string \<Rightarrow> string \<Rightarrow> string) \<Rightarrow> 'w executor_fs \<Rightarrow> apply_patch_args \<Rightarrow> string \<Rightarrow> 'w
     \<Rightarrow> apply_patch_error + apply_patch_action" where
  "try_verify_apply_patch_args text_diff fs args cwd w =
     and_then (effective_cwd fs cwd (args_workdir args)) (\<lambda>dir.
       and_then (verify_hunks text_diff fs dir w (args_hunks args) Map.empty) (\<lambda>changes.
         Inr \<lparr>action_changes = changes, action_patch = args_patch args, action_cwd = dir\<rparr>))"

definition verify_apply_patch_args ::
  "(string \<Rightarrow> string \<Rightarrow> string) \<Rightarrow> 'w executor_fs \<Rightarrow> apply_patch_args \<Rightarrow> string \<Rightarrow> 'w
     \<Rightarrow> maybe_apply_patch_verified" where
  "verify_apply_patch_args text_diff fs args cwd w =
     (case try_verify_apply_patch_args text_diff fs args cwd w of
        Inr action \<Rightarrow> VerifiedBody action
      | Inl err \<Rightarrow> CorrectnessError err)"

definition maybe_parse_apply_patch_verified ::
  "heredoc_extractor \<Rightarrow> (string \<Rightarrow> string list) option \<Rightarrow> (string \<Rightarrow> string \<Rightarrow> string) \<Rightarrow> 'w executor_fs
     \<Rightarrow> string list \<Rightarrow> string \<Rightarrow> 'w \<Rightarrow> maybe_apply_patch_verified" where
  "maybe_parse_apply_patch_verified from_bash convention text_diff fs argv cwd w =
     (if length argv = 1 \<and> is_ok (parse_patch (hd argv)) then CorrectnessError ImplicitInvocation
      else if (case parse_shell_script convention argv of
                 Some (_, script) \<Rightarrow> is_ok (parse_patch script) | None \<Rightarrow> False)
      then CorrectnessError ImplicitInvocation
      else (case maybe_parse_apply_patch from_bash convention argv of
          PatchBody args \<Rightarrow> verify_apply_patch_args text_diff fs args cwd w
        | ShellParseError e \<Rightarrow> VerifiedShellParseError e
        | PatchParseError e \<Rightarrow> CorrectnessError (ParseError e)
        | NotApplyPatch \<Rightarrow> VerifiedNotApplyPatch))"

section \<open>The effect of a successful hunk\<close>

text \<open>The files after a hunk that succeeded and kept the delta exact.\<close>

fun hunk_effect ::
  "'w executor_fs \<Rightarrow> string \<Rightarrow> 'w \<Rightarrow> hunk \<Rightarrow> string \<Rightarrow> (string \<Rightarrow> string option) \<Rightarrow> bool" where
  "hunk_effect fs cwd w (AddFile _ t) p m = (m = (files_of fs w)(p \<mapsto> t))"
| "hunk_effect fs cwd w (DeleteFile _) p m = (m = (files_of fs w)(p := None))"
| "hunk_effect fs cwd w (UpdateFile _ None cs) p m =
     (\<exists>original new. derive_new_contents_from_chunks fs w p cs = Inr (original, new) \<and>
        m = (files_of fs w)(p \<mapsto> new))"
| "hunk_effect fs cwd w (UpdateFile _ (Some q) cs) p m =
     (\<exists>original new dest. derive_new_contents_from_chunks fs w p cs = Inr (original, new) \<and>
        uri_join fs cwd q = Inr dest \<and> m = (files_of fs w)(dest \<mapsto> new, p := None))"

lemma add_hunk_effect:
  assumes "text_fs fs" and "add_hunk fs p t w d = (w', d', Inr ())" and "exact d'"
  shows "files_of fs w' = (files_of fs w)(p \<mapsto> t)"
proof -
  obtain ov d1 where look: "read_optional_file_text_for_delta fs w p d = (ov, d1)" by fastforce
  then have "write_file_with_missing_parent_retry fs w p t = (Inr (), w')" and "exact d1"
    using assms(2,3) by (auto simp: add_hunk_def split: sum.splits prod.splits)
  then show ?thesis
    using write_retry_writes [OF assms(1)] read_optional_cases(3) [OF look] by blast
qed

lemma delete_hunk_effect:
  assumes "text_fs fs" and "delete_hunk fs p w d = (w', d', Inr ())"
  shows "files_of fs w' = (files_of fs w)(p := None)"
proof -
  obtain expected d1 d2 where "remove_file fs ''delete file'' p expected w d1 = (w', d2, Inr ())"
    using assms(2) by (auto simp: delete_hunk_def Let_def split: sum.splits prod.splits)
  then show ?thesis using remove_file_effect(3) [OF assms(1)] by blast
qed

lemma update_in_place_effect:
  assumes "text_fs fs" and "update_in_place_hunk fs p original new w d = (w', d', Inr ())"
    and "plain_path fs w p"
  shows "files_of fs w' = (files_of fs w)(p \<mapsto> new)"
  using assms(2) write_law [OF assms(1) _ assms(3)]
  by (auto simp: update_in_place_hunk_def split: sum.splits prod.splits)

lemma move_hunk_effect:
  assumes "text_fs fs" and "move_hunk fs p dest original new w d = (w', d', Inr ())" and "exact d'"
  shows "files_of fs w' = (files_of fs w)(dest \<mapsto> new, p := None)"
proof -
  obtain ov d1 where "read_optional_file_text_for_delta fs w dest d = (ov, d1)" by fastforce
  then show ?thesis using move_hunk_cases [OF assms(1,2)] assms(3) by blast
qed

lemma apply_hunk_effect:
  assumes fs: "text_fs fs" and run: "apply_hunk fs cwd h w d = (w', d', Inr ())" and ex: "exact d'"
    and path: "uri_join fs cwd (hunk_source_path h) = Inr p"
  shows "hunk_effect fs cwd w h p (files_of fs w')"
proof (cases h)
  case (UpdateFile q mv cs)
  define d1 where "d1 = note_existing_path_delta_support fs w p d"
  have run': "update_hunk fs cwd p mv cs w d = (w', d', Inr ())"
    using run path UpdateFile by (simp add: apply_hunk_def)
  obtain original new where derived: "derive_new_contents_from_chunks fs w p cs = Inr (original, new)"
    using run' by (auto simp: update_hunk_def Let_def split: sum.splits)
  show ?thesis
  proof (cases mv)
    case None
    then have step: "update_in_place_hunk fs p original new w d1 = (w', d', Inr ())"
      using run' derived by (simp add: update_hunk_def d1_def)
    then have "exact d1"
      using ex by (auto simp: update_in_place_hunk_def split: sum.splits prod.splits)
    then have "plain_path fs w p" by (simp add: d1_def)
    from update_in_place_effect [OF fs step this] derived show ?thesis
      by (simp add: UpdateFile None)
  next
    case (Some dest)
    then obtain u where "uri_join fs cwd dest = Inr u" "move_hunk fs p u original new w d1 = (w', d', Inr ())"
      using run' derived by (auto simp: update_hunk_def d1_def Let_def split: sum.splits)
    with move_hunk_effect [OF fs _ ex] derived show ?thesis
      by (simp add: UpdateFile Some)
  qed
qed (use run path ex add_hunk_effect [OF fs] delete_hunk_effect [OF fs] in \<open>auto simp: apply_hunk_def\<close>)

section \<open>What is approved is what is applied\<close>

text \<open>The paths a hunk names, and patches whose hunks name different files.\<close>

definition touched :: "'w executor_fs \<Rightarrow> string \<Rightarrow> hunk \<Rightarrow> string set" where
  "touched fs cwd h = {u. uri_join fs cwd (hunk_source_path h) = Inr u \<or> uri_join fs cwd (hunk_path h) = Inr u}"

definition proper_move :: "'w executor_fs \<Rightarrow> string \<Rightarrow> hunk \<Rightarrow> bool" where
  "proper_move fs cwd h \<longleftrightarrow>
     (case h of UpdateFile p (Some q) _ \<Rightarrow> uri_join fs cwd p \<noteq> uri_join fs cwd q | _ \<Rightarrow> True)"

definition independent :: "'w executor_fs \<Rightarrow> string \<Rightarrow> hunk list \<Rightarrow> bool" where
  "independent fs cwd hs \<longleftrightarrow>
     sorted_wrt (\<lambda>h h'. touched fs cwd h \<inter> touched fs cwd h' = {}) hs \<and>
     (\<forall>h \<in> set hs. proper_move fs cwd h)"

text \<open>That a proposed change is in effect.\<close>

fun change_done :: "(string \<Rightarrow> string option) \<Rightarrow> string \<Rightarrow> apply_patch_file_change \<Rightarrow> bool" where
  "change_done m p (ChangeAdd t) = (m p = Some t)"
| "change_done m p (ChangeDelete _) = (m p = None)"
| "change_done m p (ChangeUpdate _ None new) = (m p = Some new)"
| "change_done m p (ChangeUpdate _ (Some q) new) = (m q = Some new \<and> m p = None)"

fun change_paths :: "string \<Rightarrow> apply_patch_file_change \<Rightarrow> string set" where
  "change_paths p (ChangeUpdate _ (Some q) _) = {p, q}"
| "change_paths p _ = {p}"

lemma change_done_cong:
  "(\<And>q. q \<in> change_paths p c \<Longrightarrow> m' q = m q) \<Longrightarrow> change_done m' p c = change_done m p c"
  by (cases "(m, p, c)" rule: change_done.cases) auto

lemma derive_depends_on_text:
  assumes "files_of fs w p = files_of fs w0 p"
    and "derive_new_contents_from_chunks fs w0 p cs = Inr (original, new)"
    and "derive_new_contents_from_chunks fs w p cs = Inr (original', new')"
  shows "new' = new"
  using assms by (auto simp: derive_Inr_iff files_of_def)

lemma verify_hunk_path:
  "verify_hunk text_diff fs cwd w h = Inr (p, c) \<Longrightarrow> uri_join fs cwd (hunk_source_path h) = Inr p"
  by (cases h) (auto simp: verify_hunk_def split: option.splits)

text \<open>One verified hunk, applied in a world that agrees on its source file.\<close>

lemma verified_hunk_done:
  assumes "verify_hunk text_diff fs cwd w0 h = Inr (p, c)"
    and "hunk_effect fs cwd w h p m" and "files_of fs w p = files_of fs w0 p" and "proper_move fs cwd h"
  shows "change_done m p c" and "change_paths p c \<subseteq> touched fs cwd h"
    and "q \<notin> touched fs cwd h \<Longrightarrow> m q = files_of fs w q"
proof -
  note path = verify_hunk_path [OF assms(1)]
  have goal: "change_done m p c \<and> change_paths p c \<subseteq> touched fs cwd h \<and>
      (q \<notin> touched fs cwd h \<longrightarrow> m q = files_of fs w q)"
  proof (cases h)
    case (UpdateFile s mv cs)
    obtain original new where derived: "derive_new_contents_from_chunks fs w0 p cs = Inr (original, new)"
      using assms(1) path UpdateFile by (auto simp: verify_hunk_def unified_diff_from_chunks_def)
    note same = derive_depends_on_text [OF assms(3) derived]
    show ?thesis
    proof (cases mv)
      case None
      then show ?thesis
        using assms(1,2) path derived same
        by (auto simp: verify_hunk_def unified_diff_from_chunks_def touched_def UpdateFile)
    next
      case (Some dest)
      then show ?thesis
        using assms(1,2,4) path derived same
        by (auto simp: verify_hunk_def unified_diff_from_chunks_def touched_def proper_move_def UpdateFile)
    qed
  qed (use assms(1,2) path in \<open>auto simp: verify_hunk_def touched_def\<close>)
  then show "change_done m p c" and "change_paths p c \<subseteq> touched fs cwd h"
    and "q \<notin> touched fs cwd h \<Longrightarrow> m q = files_of fs w q"
    by blast+
qed

definition touched_all :: "'w executor_fs \<Rightarrow> string \<Rightarrow> hunk list \<Rightarrow> string set" where
  "touched_all fs cwd hs = (\<Union>h \<in> set hs. touched fs cwd h)"

lemma apply_hunk_loop_exact_mono:
  assumes "text_fs fs" and "apply_hunk_loop fs cwd hs a w d = (w', d', r)" and "exact d'"
  shows "exact d"
  using apply_hunk_loop_faithful [OF assms(1,2)] assms(3) by (auto simp: faithful_step_def)

lemma verified_hunks_done:
  assumes fs: "text_fs fs"
    and "verify_hunks text_diff fs cwd w0 hs m = Inr m'"
    and "apply_hunk_loop fs cwd hs a w d = (w', d', Inr a')" and "exact d'"
    and "independent fs cwd hs"
    and "\<forall>p \<in> touched_all fs cwd hs. m p = None \<and> files_of fs w p = files_of fs w0 p"
  shows "(\<forall>p. p \<notin> touched_all fs cwd hs \<longrightarrow> m' p = m p \<and> files_of fs w' p = files_of fs w p) \<and>
    (\<forall>p c. p \<in> touched_all fs cwd hs \<and> m' p = Some c \<longrightarrow>
       change_done (files_of fs w') p c \<and> change_paths p c \<subseteq> touched_all fs cwd hs)"
  using assms(2-6)
proof (induction hs arbitrary: m a w d)
  case Nil
  then show ?case by (simp add: touched_all_def)
next
  case (Cons h hs)
  obtain p c where one: "verify_hunk text_diff fs cwd w0 h = Inr (p, c)"
    and rest: "verify_hunks text_diff fs cwd w0 hs (m(p \<mapsto> c)) = Inr m'"
    using Cons.prems(1) by auto
  obtain w1 d1 where step: "apply_hunk fs cwd h w d = (w1, d1, Inr ())"
    and loop: "apply_hunk_loop fs cwd hs (note_affected h a) w1 d1 = (w', d', Inr a')"
    using Cons.prems(2) by (auto split: prod.splits sum.splits)
  note path = verify_hunk_path [OF one]
  have all: "touched_all fs cwd (h # hs) = touched fs cwd h \<union> touched_all fs cwd hs"
    by (simp add: touched_all_def)
  have apart: "touched fs cwd h \<inter> touched_all fs cwd hs = {}" and indep: "independent fs cwd hs"
    and proper: "proper_move fs cwd h"
    using Cons.prems(4) by (auto simp: independent_def touched_all_def)
  have p: "p \<in> touched fs cwd h" using path by (simp add: touched_def)
  have effect: "hunk_effect fs cwd w h p (files_of fs w1)"
    using apply_hunk_effect [OF fs step _ path] apply_hunk_loop_exact_mono [OF fs loop Cons.prems(3)] by blast
  have "files_of fs w p = files_of fs w0 p" using Cons.prems(5) p all by blast
  note here = verified_hunk_done [OF one effect this proper]
  have other: "q \<notin> touched fs cwd h" if "q \<in> touched_all fs cwd hs" for q
    using that apart by blast
  have "\<forall>q \<in> touched_all fs cwd hs. (m(p \<mapsto> c)) q = None \<and> files_of fs w1 q = files_of fs w0 q"
    using Cons.prems(5) here(3) [OF other] p other unfolding all by auto
  note IH = Cons.IH [OF rest loop Cons.prems(3) indep this]
  have fin: "change_done (files_of fs w') p c"
    using here(1,2) IH apart by (subst change_done_cong [of p c _ "files_of fs w1"]) blast+
  have own: "m' q = Some c' \<Longrightarrow> q = p \<and> c' = c" if "q \<in> touched fs cwd h" for q c'
  proof -
    have "m' q = (m(p \<mapsto> c)) q" using IH that apart by blast
    then show "m' q = Some c' \<Longrightarrow> q = p \<and> c' = c"
      using Cons.prems(5) that all by (auto split: if_splits)
  qed
  have frame: "m' q = m q \<and> files_of fs w' q = files_of fs w q"
    if "q \<notin> touched fs cwd h" and "q \<notin> touched_all fs cwd hs" for q
    using IH that(2) here(3) [OF that(1)] that(1) p by auto
  have changes: "change_done (files_of fs w') q c' \<and>
      change_paths q c' \<subseteq> touched fs cwd h \<union> touched_all fs cwd hs"
    if "q \<in> touched fs cwd h \<union> touched_all fs cwd hs" and "m' q = Some c'" for q c'
  proof (cases "q \<in> touched fs cwd h")
    case True
    then show ?thesis using own [OF True that(2)] fin here(2) by blast
  next
    case False
    then show ?thesis using IH that by blast
  qed
  show ?case unfolding all using frame changes by blast
qed


definition sample_args :: apply_patch_args where
  "sample_args =
     \<lparr>args_patch = [], args_hunks = take 3 sample_file_hunks, args_workdir = None, args_environment_id = None\<rparr>"

definition sample_action :: apply_patch_action where
  "sample_action =
     \<lparr>action_changes = Map.empty(''/r/a'' \<mapsto> ChangeAdd ''new'',
        ''/r/b'' \<mapsto> ChangeUpdate [] (Some ''/r/c'') (''two'' @ [LF]), ''/r/d'' \<mapsto> ChangeDelete ''gone''),
      action_patch = [], action_cwd = ''/r''\<rparr>"

end
