(* ===== verification/Utf8.thy ===== *)
theory Utf8
  imports Prelude
begin

text \<open>UTF-8 as the standard library reads it.  A Rust string is a sequence of bytes that
  \<^verbatim>\<open>str::from_utf8\<close> accepts; the model keeps strings as bytes, and this theory has the acceptance
  test, with the position and the length of the first error, and the division into scalar values
  that \<^verbatim>\<open>str::chars\<close> walks along.\<close>

section \<open>Scalar values\<close>

text \<open>What a byte sequence begins with: a scalar value of some number of bytes, an error of some
  number of bytes, or the beginning of a scalar value that is cut off.\<close>

datatype scalar = Whole nat | Bad nat | Partial

definition is_continuation :: "nat \<Rightarrow> bool" where
  "is_continuation b \<longleftrightarrow> 0x80 \<le> b \<and> b \<le> 0xBF"

text \<open>The conditions on the bytes that follow the first one.\<close>

definition utf8_tail :: "nat \<Rightarrow> (nat \<Rightarrow> bool) list option" where
  "utf8_tail b =
    (if b < 0x80 then Some []
     else if 0xC2 \<le> b \<and> b \<le> 0xDF then Some [is_continuation]
     else if b = 0xE0 then Some [\<lambda>c. 0xA0 \<le> c \<and> c \<le> 0xBF, is_continuation]
     else if b = 0xED then Some [\<lambda>c. 0x80 \<le> c \<and> c \<le> 0x9F, is_continuation]
     else if 0xE1 \<le> b \<and> b \<le> 0xEF then Some [is_continuation, is_continuation]
     else if b = 0xF0 then Some [\<lambda>c. 0x90 \<le> c \<and> c \<le> 0xBF, is_continuation, is_continuation]
     else if 0xF1 \<le> b \<and> b \<le> 0xF3 then Some [is_continuation, is_continuation, is_continuation]
     else if b = 0xF4 then Some [\<lambda>c. 0x80 \<le> c \<and> c \<le> 0x8F, is_continuation, is_continuation]
     else None)"

fun match_tail :: "(nat \<Rightarrow> bool) list \<Rightarrow> string \<Rightarrow> nat \<Rightarrow> scalar" where
  "match_tail [] s n = Whole n"
| "match_tail (p # ps) [] n = Partial"
| "match_tail (p # ps) (c # s) n = (if p (byte c) then match_tail ps s (Suc n) else Bad n)"

fun utf8_head :: "string \<Rightarrow> scalar" where
  "utf8_head [] = Partial"
| "utf8_head (c # s) = (case utf8_tail (byte c) of None \<Rightarrow> Bad 1 | Some ps \<Rightarrow> match_tail ps s 1)"

lemma match_tail_Whole: "match_tail ps s n = Whole m \<Longrightarrow> m = n + length ps \<and> length ps \<le> length s"
  by (induction ps s n rule: match_tail.induct) (auto split: if_splits)

lemma utf8_head_Whole: "utf8_head s = Whole n \<Longrightarrow> 0 < n \<and> n \<le> length s"
  by (cases s) (auto split: option.splits dest: match_tail_Whole)

lemma match_tail_append:
  "match_tail ps s n \<noteq> Partial \<Longrightarrow> match_tail ps (s @ t) n = match_tail ps s n"
  by (induction ps s n rule: match_tail.induct) (auto split: if_splits)

lemma utf8_head_append: "utf8_head s \<noteq> Partial \<Longrightarrow> utf8_head (s @ t) = utf8_head s"
  by (cases s) (auto split: option.splits intro: match_tail_append)

lemma match_tail_take:
  "match_tail ps s n = Whole m \<Longrightarrow> n \<le> k + n \<Longrightarrow> k \<ge> length ps \<Longrightarrow> match_tail ps (take k s) n = Whole m"
proof (induction ps s n arbitrary: k rule: match_tail.induct)
  case (3 p ps c s n)
  then show ?case by (cases k) (auto split: if_splits)
qed auto

lemma utf8_head_take: "utf8_head s = Whole n \<Longrightarrow> utf8_head (take n s) = Whole n"
proof (cases s)
  case (Cons c r)
  assume h: "utf8_head s = Whole n"
  with Cons obtain ps where ps: "utf8_tail (byte c) = Some ps" "match_tail ps r 1 = Whole n" by (auto split: option.splits)
  with match_tail_Whole [OF ps(2)] match_tail_take [OF ps(2), of "length ps"] Cons show ?thesis by simp
qed simp

lemma utf8_head_ascii [simp]: "byte c < 128 \<Longrightarrow> utf8_head (c # s) = Whole 1"
  by (simp add: utf8_tail_def)

section \<open>Acceptance\<close>

text \<open>The error of \<^verbatim>\<open>str::from_utf8\<close>: the length of the valid prefix, and the length of the error, or
  None when the input ends within a scalar value.\<close>

function utf8_error :: "string \<Rightarrow> (nat \<times> nat option) option" where
  "utf8_error s =
    (if s = [] then None
     else case utf8_head s of
            Whole n \<Rightarrow> map_option (apfst ((+) n)) (utf8_error (drop n s))
          | Bad k \<Rightarrow> Some (0, Some k)
          | Partial \<Rightarrow> Some (0, None))"
  by pat_completeness auto
termination
  by (relation "measure length") (auto dest!: utf8_head_Whole)

declare utf8_error.simps [simp del]

abbreviation utf8 :: "string \<Rightarrow> bool" where
  "utf8 s \<equiv> utf8_error s = None"

definition from_utf8 :: "string \<Rightarrow> (nat \<times> nat option) + string" where
  "from_utf8 s = (case utf8_error s of None \<Rightarrow> Inr s | Some e \<Rightarrow> Inl e)"

lemma utf8_error_Nil [simp]: "utf8_error [] = None"
  by (simp add: utf8_error.simps)

lemma utf8_error_Whole:
  "utf8_head s = Whole n \<Longrightarrow> utf8_error s = map_option (apfst ((+) n)) (utf8_error (drop n s))"
  by (cases "s = []") (simp_all add: utf8_error.simps [of s])

lemma utf8_error_Bad: "utf8_head s = Bad k \<Longrightarrow> utf8_error s = Some (0, Some k)"
  by (cases "s = []") (simp_all add: utf8_error.simps [of s])

lemma utf8_error_Partial: "s \<noteq> [] \<Longrightarrow> utf8_head s = Partial \<Longrightarrow> utf8_error s = Some (0, None)"
  by (simp add: utf8_error.simps [of s])

lemma utf8_induct [consumes 1, case_names Nil Char]:
  assumes "utf8 s" and "P []"
    and "\<And>s n. s \<noteq> [] \<Longrightarrow> utf8_head s = Whole n \<Longrightarrow> utf8 (drop n s) \<Longrightarrow> P (drop n s) \<Longrightarrow> P s"
  shows "P s"
  using assms(1)
proof (induction s rule: utf8_error.induct)
  case (1 s)
  show ?case
  proof (cases "s = []")
    case False
    with "1.prems" obtain n where n: "utf8_head s = Whole n"
      by (cases "utf8_head s") (auto simp: utf8_error_Bad utf8_error_Partial)
    with "1.prems" have "utf8 (drop n s)" by (simp add: utf8_error_Whole)
    with "1.IH" [OF False n] n False assms(3) show ?thesis by blast
  qed (use assms(2) in simp)
qed

lemma utf8_error_append: "utf8 s \<Longrightarrow> utf8_error (s @ t) = map_option (apfst ((+) (length s))) (utf8_error t)"
proof (induction s rule: utf8_induct)
  case (Char s n)
  have "utf8_head (s @ t) = Whole n" using Char(2) by (simp add: utf8_head_append)
  then show ?case
    using Char(4) utf8_head_Whole [OF Char(2)]
    by (simp add: utf8_error_Whole option.map_comp comp_def apfst_def map_prod_def case_prod_beta)
qed (simp add: apfst_def map_prod_def option.map_ident case_prod_beta)

lemma utf8_append [simp]: "utf8 s \<Longrightarrow> utf8 (s @ t) \<longleftrightarrow> utf8 t"
  by (simp add: utf8_error_append)

text \<open>The beginning of accepted input is accepted, or cut off after an accepted part.\<close>

lemma utf8_prefix:
  assumes "utf8 (s @ t)"
  shows "utf8 s \<or> (\<exists>v. utf8_error s = Some (v, None) \<and> v < length s)"
  using assms
proof (induction s rule: utf8_error.induct)
  case (1 s)
  show ?case
  proof (cases "s = []")
    case False
    show ?thesis
    proof (cases "utf8_head s")
      case (Whole n)
      then have n: "utf8_head (s @ t) = Whole n" "n \<le> length s" "0 < n"
        using utf8_head_append [of s t] utf8_head_Whole [OF Whole] by auto
      then have "utf8 (drop n s @ t)" using "1.prems" by (simp add: utf8_error_Whole)
      from "1.IH" [OF False Whole this] n show ?thesis by (auto simp: utf8_error_Whole [OF Whole])
    next
      case (Bad k)
      then show ?thesis using "1.prems" utf8_head_append [of s t] by (simp add: utf8_error_Bad)
    qed (use False in \<open>simp add: utf8_error_Partial\<close>)
  qed simp
qed

lemma utf8_error_take: "utf8_error s = Some (v, e) \<Longrightarrow> utf8 (take v s) \<and> v \<le> length s"
proof (induction s arbitrary: v rule: utf8_error.induct)
  case (1 s)
  then have "s \<noteq> []" by auto
  show ?case
  proof (cases "utf8_head s")
    case (Whole n)
    with "1.prems" obtain v' where v': "utf8_error (drop n s) = Some (v', e)" "v = n + v'"
      by (auto simp: utf8_error_Whole)
    from "1.IH" [OF \<open>s \<noteq> []\<close> Whole v'(1)] have IH: "utf8 (take v' (drop n s))" "v' \<le> length s - n" by auto
    have "take v s = take n s @ take v' (drop n s)" by (simp add: v'(2) take_add)
    moreover have "utf8 (take n s)"
      using utf8_error_Whole [OF utf8_head_take [OF Whole]] by simp
    moreover have "v \<le> length s" using IH(2) utf8_head_Whole [OF Whole] v'(2) by linarith
    ultimately show ?thesis using IH(1) by simp
  qed (use "1.prems" \<open>s \<noteq> []\<close> in \<open>auto simp: utf8_error_Bad utf8_error_Partial\<close>)
qed

lemma utf8_error_hard_append:
  "utf8_error s = Some (v, Some k) \<Longrightarrow> utf8_error (s @ t) = Some (v, Some k)"
proof (induction s arbitrary: v rule: utf8_error.induct)
  case (1 s)
  then have "s \<noteq> []" by auto
  show ?case
  proof (cases "utf8_head s")
    case (Whole n)
    with "1.prems" obtain v' where v': "utf8_error (drop n s) = Some (v', Some k)" "v = n + v'"
      by (auto simp: utf8_error_Whole)
    have "utf8_head (s @ t) = Whole n" using Whole by (simp add: utf8_head_append)
    then show ?thesis
      using "1.IH" [OF \<open>s \<noteq> []\<close> Whole v'(1)] v'(2) utf8_head_Whole [OF Whole] by (simp add: utf8_error_Whole)
  next
    case (Bad j)
    then show ?thesis using "1.prems" utf8_head_append [of s t] by (simp add: utf8_error_Bad)
  qed (use "1.prems" \<open>s \<noteq> []\<close> in \<open>simp add: utf8_error_Partial\<close>)
qed

text \<open>The accepted part of an input.\<close>

definition valid_len :: "string \<Rightarrow> nat" where
  "valid_len s = (case utf8_error s of None \<Rightarrow> length s | Some (v, _) \<Rightarrow> v)"

lemma valid_len_take: "utf8 (take (valid_len s) s)" "valid_len s \<le> length s"
  using utf8_error_take [of s] by (auto simp: valid_len_def split: option.splits)

lemma valid_len_append: "utf8 s \<Longrightarrow> valid_len (s @ t) = length s + valid_len t"
  by (auto simp: valid_len_def utf8_error_append split: option.splits)

definition rejected :: "string \<Rightarrow> nat option" where
  "rejected s = (case utf8_error s of Some (_, e) \<Rightarrow> e | None \<Rightarrow> None)"

lemma rejected_append: "utf8 s \<Longrightarrow> rejected (s @ t) = rejected t"
  by (auto simp: rejected_def utf8_error_append split: option.splits)

lemma rejected_mono: "rejected s = Some k \<Longrightarrow> rejected (s @ t) = Some k"
  using utf8_error_hard_append [of s _ k t] by (auto simp: rejected_def split: option.splits)

lemma valid_len_split:
  "valid_len (s @ t) = valid_len s + valid_len (drop (valid_len s) s @ t)"
  "rejected (s @ t) = rejected (drop (valid_len s) s @ t)"
proof -
  have eq: "s @ t = take (valid_len s) s @ (drop (valid_len s) s @ t)" by simp
  show "valid_len (s @ t) = valid_len s + valid_len (drop (valid_len s) s @ t)"
    by (subst eq, subst valid_len_append) (simp_all add: valid_len_take)
  show "rejected (s @ t) = rejected (drop (valid_len s) s @ t)"
    by (subst eq, subst rejected_append) (simp_all add: valid_len_take)
qed

lemma ascii_utf8: "\<forall>c \<in> set s. byte c < 128 \<Longrightarrow> utf8 s"
proof (induction s)
  case (Cons c s)
  then have "utf8_head (c # s) = Whole 1" by (auto simp del: utf8_head.simps)
  then show ?case using Cons by (simp add: utf8_error_Whole del: utf8_head.simps)
qed simp

section \<open>The scalar values of a string\<close>

function chars :: "string \<Rightarrow> string list" where
  "chars s =
    (if s = [] then []
     else case utf8_head s of
            Whole n \<Rightarrow> take n s # chars (drop n s)
          | _ \<Rightarrow> take 1 s # chars (drop 1 s))"
  by pat_completeness auto
termination
  by (relation "measure length") (auto dest!: utf8_head_Whole)

declare chars.simps [simp del]

lemma chars_Nil [simp]: "chars [] = []"
  by (simp add: chars.simps)

lemma chars_Whole: "utf8_head s = Whole n \<Longrightarrow> chars s = take n s # chars (drop n s)"
  by (cases "s = []") (simp_all add: chars.simps [of s])

lemma concat_chars [simp]: "concat (chars s) = s"
proof (induction s rule: chars.induct)
  case (1 s)
  show ?case
  proof (cases "s = []")
    case False
    then show ?thesis
      using 1 by (cases "utf8_head s") (simp_all add: chars.simps [of s])
  qed simp
qed

lemma chars_append: "utf8 s \<Longrightarrow> chars (s @ t) = chars s @ chars t"
proof (induction s rule: utf8_induct)
  case (Char s n)
  have "utf8_head (s @ t) = Whole n" using Char(2) by (simp add: utf8_head_append)
  then show ?case using Char(2,4) utf8_head_Whole [OF Char(2)] by (simp add: chars_Whole)
qed simp

lemma chars_utf8: "utf8 s \<Longrightarrow> ch \<in> set (chars s) \<Longrightarrow> utf8_head ch = Whole (length ch)"
proof (induction s rule: utf8_induct)
  case (Char s n)
  then show ?case using utf8_head_take [OF Char(2)] utf8_head_Whole [OF Char(2)] by (auto simp: chars_Whole)
qed simp

text \<open>An accepted sequence does not begin with a continuation byte, so what stands before one is whole.\<close>

lemma utf8_starts: "utf8 (c # s) \<Longrightarrow> \<not> is_continuation (byte c)"
proof
  assume c: "utf8 (c # s)" "is_continuation (byte c)"
  then have "utf8_tail (byte c) = None" by (auto simp: utf8_tail_def is_continuation_def)
  then have "utf8_head (c # s) = Bad 1" by simp
  with c(1) show False by (simp add: utf8_error_Bad del: utf8_head.simps)
qed

lemma utf8_tail_continues: "utf8_tail b = Some ps \<Longrightarrow> p \<in> set ps \<Longrightarrow> p x \<Longrightarrow> is_continuation x"
  by (auto simp: utf8_tail_def is_continuation_def split: if_splits)

lemma match_tail_cut:
  "match_tail ps s n = Partial \<Longrightarrow> \<forall>p \<in> set ps. \<forall>x. p x \<longrightarrow> is_continuation x \<Longrightarrow> \<not> is_continuation (byte c)
    \<Longrightarrow> match_tail ps (s @ c # t) n \<noteq> Whole m"
  by (induction ps s n rule: match_tail.induct) (auto split: if_splits)

lemma utf8_head_cut:
  assumes "s \<noteq> []" and "utf8_head s = Partial" and "\<not> is_continuation (byte c)"
  shows "utf8_head (s @ c # t) \<noteq> Whole m"
proof (cases s)
  case (Cons a r)
  have "match_tail ps (r @ c # t) 1 \<noteq> Whole m" if "utf8_tail (byte a) = Some ps" "match_tail ps r 1 = Partial" for ps
    using match_tail_cut [OF that(2) _ assms(3)] utf8_tail_continues [OF that(1)] by blast
  with assms(2) Cons show ?thesis by (auto split: option.splits)
qed (use assms(1) in simp)

lemma utf8_before:
  assumes "utf8 (s @ c # t)" and "\<not> is_continuation (byte c)"
  shows "utf8 s"
proof (rule ccontr)
  assume "\<not> utf8 s"
  with utf8_prefix [OF assms(1)] obtain v where v: "utf8_error s = Some (v, None)" "v < length s" by auto
  define a d where "a = take v s" and "d = drop v s"
  have s: "s = a @ d" "d \<noteq> []" "utf8 a" "length a = v"
    using v utf8_error_take [OF v(1)] by (simp_all add: a_def d_def)
  have "utf8_error d = Some (0, None)"
    using v(1) utf8_error_append [OF s(3), of d] s(1,4) by (cases "utf8_error d") auto
  then have "utf8_head d = Partial"
    using utf8_error_Whole [of d] utf8_error_Bad [of d] utf8_head_Whole [of d] by (cases "utf8_head d") auto
  moreover have "utf8 (d @ c # t)" using assms(1) s(1,3) by simp
  then obtain m where "utf8_head (d @ c # t) = Whole m"
    using s(2) utf8_error_Bad [of "d @ c # t"] utf8_error_Partial [of "d @ c # t"]
    by (cases "utf8_head (d @ c # t)") auto
  ultimately show False
    using utf8_head_cut [OF s(2)] assms(2) by simp
qed

lemma utf8_appendD: "utf8 (s @ t) \<Longrightarrow> utf8 t \<Longrightarrow> utf8 s"
proof (cases t)
  case (Cons c r)
  assume "utf8 (s @ t)" "utf8 t"
  with Cons show ?thesis using utf8_before [of s c r] utf8_starts [of c r] by simp
qed simp

section \<open>White space at the ends of concatenations\<close>

text \<open>On whole scalar values, trimming a concatenation does not look across the border, unless one
  side is all white space.\<close>

lemma trim_with_append:
  assumes "P xs"
    and cut: "\<And>a b w. P a \<Longrightarrow> a \<noteq> [] \<Longrightarrow> w \<in> set wide \<Longrightarrow> starts_with (a @ b) w \<Longrightarrow> starts_with a w"
    and step: "\<And>a. P a \<Longrightarrow> P (drop (ws_width wide a) a)"
  shows "trim_with wide (xs @ ys) = (if trim_with wide xs = [] then trim_with wide ys else trim_with wide xs @ ys)"
  using assms(1)
proof (induction xs rule: length_induct)
  case (1 xs)
  show ?case
  proof (cases "xs = []")
    case False
    have "find (starts_with (xs @ ys)) wide = find (starts_with xs) wide"
      using cut [OF "1.prems" False] by (intro find_cong_list) (auto simp: starts_with_iff)
    then have w: "ws_width wide (xs @ ys) = ws_width wide xs"
      using False by (cases xs) (simp_all add: ws_width_def)
    show ?thesis
    proof (cases "ws_width wide xs = 0")
      case True
      then show ?thesis using w False by (simp add: trim_with_stop)
    next
      case n: False
      define d where "d = drop (ws_width wide xs) xs"
      have "length d < length xs" "P d" using n False "1.prems" step by (simp_all add: d_def)
      with "1.IH" have "trim_with wide (d @ ys) = (if trim_with wide d = [] then trim_with wide ys else trim_with wide d @ ys)"
        by blast
      moreover have "trim_with wide xs = trim_with wide d"
        unfolding d_def using n False by (intro trim_with_step) simp_all
      moreover have "trim_with wide (xs @ ys) = trim_with wide (drop (ws_width wide xs) (xs @ ys))"
        using n w False by (intro trim_with_step) simp_all
      ultimately show ?thesis using ws_width_le [of wide xs] by (simp add: d_def)
    qed
  qed simp
qed

lemma whitespace_scalars:
  "\<forall>w \<in> set wide_whitespace. utf8 w \<and> list_all (\<lambda>k. \<not> utf8 (take k w) \<and> \<not> utf8 (drop k w)) [1..<length w]"
  by code_simp

lemma ascii_whitespace_scalars: "\<forall>c \<in> set ascii_whitespace. byte c < 128"
  by code_simp

lemma ws_width_take: "utf8 (take (ws_width wide_whitespace s) s)"
proof (cases s)
  case (Cons c r)
  have "utf8 [c]" if "c \<in> set ascii_whitespace" using that ascii_whitespace_scalars by (intro ascii_utf8) simp
  moreover have "utf8 (take (length w) s)" if "find (starts_with s) wide_whitespace = Some w" for w
    using that whitespace_scalars by (auto simp: find_Some_iff starts_with_iff)
  ultimately show ?thesis using Cons by (auto simp: ws_width_def split: option.splits)
qed simp

lemma ws_width_rev_take: "utf8 (rev (take (ws_width (map rev wide_whitespace) s) s))"
proof (cases s)
  case (Cons c r)
  have "utf8 [c]" if "c \<in> set ascii_whitespace" using that ascii_whitespace_scalars by (intro ascii_utf8) simp
  moreover have "utf8 (rev (take (length w) s))" if "find (starts_with s) (map rev wide_whitespace) = Some w" for w
  proof -
    from that have "w \<in> set (map rev wide_whitespace)" "starts_with s w" by (auto simp: find_Some_iff)
    with whitespace_scalars show ?thesis by (auto simp: starts_with_iff)
  qed
  ultimately show ?thesis using Cons by (auto simp: ws_width_def split: option.splits)
qed simp

lemma starts_with_shorter: "starts_with (a @ b) w \<Longrightarrow> starts_with a w \<or> (length a < length w \<and> a = take (length a) w)"
  by (induction a w rule: starts_with.induct) auto

lemma wide_not_cut:
  assumes "w \<in> set wide_whitespace" and "a \<noteq> []"
  shows "utf8 a \<Longrightarrow> starts_with (a @ b) w \<Longrightarrow> starts_with a w"
    and "utf8 (rev a) \<Longrightarrow> starts_with (a @ b) (rev w) \<Longrightarrow> starts_with a (rev w)"
proof -
  have cuts: "\<not> utf8 (take k w) \<and> \<not> utf8 (drop k w)" if "0 < k" "k < length w" for k
    using whitespace_scalars assms(1) that by (fastforce simp: list_all_iff)
  show "starts_with a w" if "utf8 a" "starts_with (a @ b) w"
    using starts_with_shorter [OF that(2)] that(1) cuts [of "length a"] assms(2) by auto
  show "starts_with a (rev w)" if "utf8 (rev a)" "starts_with (a @ b) (rev w)"
  proof (rule ccontr)
    assume "\<not> starts_with a (rev w)"
    with starts_with_shorter [OF that(2)] have a: "length a < length w" "a = take (length a) (rev w)" by auto
    then have "rev a = drop (length w - length a) w" by (metis length_rev rev_rev_ident rev_take)
    moreover have "0 < length w - length a" "length w - length a < length w" using a(1) assms(2) by (cases a; simp)+
    ultimately show False using that(1) cuts by metis
  qed
qed

lemma trim_start_append:
  assumes "utf8 x"
  shows "trim_start (x @ r) = (if trim_start x = [] then trim_start r else trim_start x @ r)"
  unfolding trim_start_def
proof (rule trim_with_append [where P = utf8, OF assms])
  show "starts_with a w" if "utf8 a" "a \<noteq> []" "w \<in> set wide_whitespace" "starts_with (a @ b) w" for a b w
    using wide_not_cut(1) [OF that(3,2,1,4)] .
  show "utf8 (drop (ws_width wide_whitespace a) a)" if "utf8 a" for a
    using that utf8_append [OF ws_width_take [of a], of "drop (ws_width wide_whitespace a) a"] by simp
qed

lemma trim_end_append:
  assumes "utf8 r"
  shows "trim_end (x @ r) = (if trim_end r = [] then trim_end x else x @ trim_end r)"
proof -
  let ?w = "map rev wide_whitespace"
  have "trim_with ?w (rev r @ rev x)
    = (if trim_with ?w (rev r) = [] then trim_with ?w (rev x) else trim_with ?w (rev r) @ rev x)"
  proof (rule trim_with_append [where P = "\<lambda>a. utf8 (rev a)"])
    show "starts_with a w" if "utf8 (rev a)" "a \<noteq> []" "w \<in> set ?w" "starts_with (a @ b) w" for a b w
      using wide_not_cut(2) that by auto
    show "utf8 (rev (drop (ws_width ?w a) a))" if "utf8 (rev a)" for a
    proof (rule utf8_appendD)
      show "utf8 (rev (drop (ws_width ?w a) a) @ rev (take (ws_width ?w a) a))"
        using that by (metis append_take_drop_id rev_append)
    qed (rule ws_width_rev_take)
  qed (use assms in simp)
  then show ?thesis by (simp add: trim_end_def)
qed

lemma trim_start_utf8: "utf8 s \<Longrightarrow> utf8 (trim_start s)"
proof (induction s rule: length_induct)
  case (1 s)
  let ?n = "ws_width wide_whitespace s"
  show ?case
  proof (cases "?n = 0 \<or> s = []")
    case False
    have "utf8 (drop ?n s)"
      using "1.prems" utf8_append [OF ws_width_take [of s], of "drop ?n s"] by simp
    moreover have "length (drop ?n s) < length s" using False by simp
    ultimately have "utf8 (trim_start (drop ?n s))" using "1.IH" by blast
    moreover have "trim_start s = trim_start (drop ?n s)"
      using False by (simp add: trim_start_def trim_with_step [of wide_whitespace s ?n])
    ultimately show ?thesis by simp
  qed (use "1.prems" in \<open>auto simp: trim_start_def trim_with_stop\<close>)
qed

end
