(* ===== verification/Shell_Syntax.thy ===== *)
theory Shell_Syntax
  imports Utf8 "HOL-Library.Multiset"
begin

text \<open>Commands inside shell scripts (\<^verbatim>\<open>codex-rs/shell-command/src/bash.rs\<close> and \<^verbatim>\<open>shell_detect.rs\<close>):
  which invocations run a script, and which command words the syntax tree of the script has.  The
  tree is what Tree-sitter builds; its parser is a parameter, and the nodes have the kinds and byte
  ranges that the code reads.  The build for Unix is modelled.\<close>

section \<open>Paths\<close>

text \<open>What \<^verbatim>\<open>std::path::Path\<close> says of a Unix path.  Repeated and trailing separators and single dots
  are not components, except for a leading dot.  The last component is a file name unless it is a
  double dot.\<close>

definition path_parts :: "string \<Rightarrow> string list" where
  "path_parts p = filter (\<lambda>s. s \<noteq> [] \<and> s \<noteq> ''.'') (split_on (CHR ''/'') p)"

definition path_components :: "string \<Rightarrow> bool \<times> bool \<times> string list" where
  "path_components p = (starts_with p ''/'', hd (split_on (CHR ''/'') p) = ''.'', path_parts p)"

definition path_file_name :: "string \<Rightarrow> string option" where
  "path_file_name p =
    (if path_parts p = [] \<or> last (path_parts p) = ''..'' then None else Some (last (path_parts p)))"

definition file_name_stem :: "string \<Rightarrow> string" where
  "file_name_stem f =
    (case rsplit_once (CHR ''.'') f of
      None \<Rightarrow> f
    | Some (before, _) \<Rightarrow> if before = [] then f else before)"

definition path_file_stem :: "string \<Rightarrow> string option" where
  "path_file_stem p = map_option file_name_stem (path_file_name p)"

lemma split_on_infix: "x \<in> set (split_on d s) \<Longrightarrow> \<exists>a b. s = a @ x @ b"
proof (induction d s arbitrary: x rule: split_on.induct)
  case (2 d c s)
  note IH = 2(1,2)
  consider "x = []" | "x \<in> set (split_on d s)" | y where "x = c # y" "y = hd (split_on d s)" "c \<noteq> d"
    using 2(3) by (cases "split_on d s") (auto split: if_splits)
  then show ?case
  proof cases
    case 1
    then show ?thesis by (metis append_Nil)
  next
    case 2
    with IH obtain a b where "s = a @ x @ b" by metis
    then have "c # s = (c # a) @ x @ b" by simp
    then show ?thesis by blast
  next
    case 3
    obtain zs where "split_on d s = y # zs" using 3 by (cases "split_on d s") auto
    then have "\<exists>b. s = y @ b" using join_split_on [of d s] by (cases zs) auto
    with 3 show ?thesis by (metis append_Cons append_Nil)
  qed
qed simp

lemma file_name_stem_prefix: "\<exists>r. f = file_name_stem f @ r"
  by (auto simp: file_name_stem_def split: option.splits dest: rsplit_once_Some)

lemma file_stem_infix:
  assumes "path_file_stem p = Some n"
  shows "\<exists>a b. p = a @ n @ b"
proof -
  obtain f where f: "f \<in> set (split_on (CHR ''/'') p)" "n = file_name_stem f"
    using assms last_in_set [of "path_parts p"]
    by (auto simp: path_file_stem_def path_file_name_def path_parts_def split: if_splits)
  then show ?thesis using split_on_infix [OF f(1)] file_name_stem_prefix [of f] by (metis append.assoc)
qed

section \<open>Shells\<close>

datatype shell_type = Zsh | Bash | PowerShell | Sh | Cmd

function detect_shell_type :: "string \<Rightarrow> shell_type option" where
  "detect_shell_type p =
    (if p = ''zsh'' then Some Zsh
     else if p = ''sh'' then Some Sh
     else if p = ''cmd'' then Some Cmd
     else if p = ''bash'' then Some Bash
     else if p = ''pwsh'' then Some PowerShell
     else if p = ''powershell'' then Some PowerShell
     else case path_file_stem p of
       None \<Rightarrow> None
     | Some n \<Rightarrow> if path_components n \<noteq> path_components p then detect_shell_type n else None)"
  by auto

termination
proof (relation "measure length", simp)
  fix p n
  assume "path_file_stem p = Some n" and "path_components n \<noteq> path_components p"
  then have "\<exists>a b. p = a @ n @ b" "n \<noteq> p" using file_stem_infix by auto
  then show "(n, p) \<in> measure length" by auto
qed

declare detect_shell_type.simps [simp del]

section \<open>Syntax trees\<close>

datatype node =
  Node (node_kind: string) (is_named: bool) (start_byte: nat) (end_byte: nat) (children: "node list")

record tree =
  root_node :: node
  has_error :: bool

type_synonym bash_parser = "string \<Rightarrow> tree option"

definition named_children :: "node \<Rightarrow> node list" where
  "named_children n = filter is_named (children n)"

definition named_child_0 :: "node \<Rightarrow> node option" where
  "named_child_0 n = (case named_children n of [] \<Rightarrow> None | c # _ \<Rightarrow> Some c)"

text \<open>The text of a node.  The range of a node lies within the source it was parsed from.\<close>

definition utf8_text :: "string \<Rightarrow> node \<Rightarrow> string option" where
  "utf8_text src n =
    (let s = drop (start_byte n) (take (end_byte n) src) in if utf8 s then Some s else None)"

lemma size_children: "c \<in> set (children n) \<Longrightarrow> size c < size n"
  by (cases n) (auto dest!: size_list_estimation' [where f = size, OF _ order_refl])

lemma size_named_children: "c \<in> set (named_children n) \<Longrightarrow> size c < size n"
  by (auto simp: named_children_def size_children)

lemma sum_size_children: "sum_list (map size (children n)) < size n"
  by (cases n) (simp add: size_list_conv_sum_list)

lemma sum_size_named_children: "sum_list (map size (named_children n)) < size n"
proof -
  have "sum_list (map size (filter is_named ns)) \<le> sum_list (map size ns)" for ns :: "node list"
    by (induction ns) auto
  then show ?thesis
    using sum_size_children [of n] by (auto simp: named_children_def intro: le_less_trans)
qed

section \<open>Words\<close>

definition is_literal_word_or_number :: "node \<Rightarrow> bool" where
  "is_literal_word_or_number n \<longleftrightarrow>
    (if node_kind n \<notin> {''word'', ''number''} then False else named_children n = [])"

definition parse_double_quoted_string :: "string \<Rightarrow> node \<Rightarrow> string option" where
  "parse_double_quoted_string src n =
    (if node_kind n \<noteq> ''string'' then None
     else if list_ex (\<lambda>part. node_kind part \<noteq> ''string_content'') (named_children n) then None
     else case utf8_text src n of
       None \<Rightarrow> None
     | Some raw \<Rightarrow> Option.bind (strip_prefix [CHR 0x22] raw) (strip_suffix [CHR 0x22]))"

definition parse_raw_string :: "string \<Rightarrow> node \<Rightarrow> string option" where
  "parse_raw_string src n =
    (if node_kind n \<noteq> ''raw_string'' then None
     else case utf8_text src n of
       None \<Rightarrow> None
     | Some raw \<Rightarrow> Option.bind (strip_prefix [CHR 0x27] raw) (strip_suffix [CHR 0x27]))"

definition plain_part :: "string \<Rightarrow> node \<Rightarrow> string option" where
  "plain_part src part =
    (if node_kind part \<in> {''word'', ''number''} then utf8_text src part
     else if node_kind part = ''string'' then parse_double_quoted_string src part
     else if node_kind part = ''raw_string'' then parse_raw_string src part
     else None)"

definition plain_word :: "string \<Rightarrow> node \<Rightarrow> string option" where
  "plain_word src child =
    (if node_kind child = ''command_name'' then
       (case named_child_0 child of
         None \<Rightarrow> None
       | Some word_node \<Rightarrow> if node_kind word_node \<noteq> ''word'' then None else utf8_text src word_node)
     else if node_kind child = ''concatenation'' then
       (case those (map (plain_part src) (named_children child)) of
         None \<Rightarrow> None
       | Some parts \<Rightarrow> if concat parts = [] then None else Some (concat parts))
     else plain_part src child)"

definition parse_plain_command_from_node :: "string \<Rightarrow> node \<Rightarrow> string list option" where
  "parse_plain_command_from_node src cmd =
    (if node_kind cmd \<noteq> ''command'' then None else those (map (plain_word src) (named_children cmd)))"

function parse_literal_shell_word :: "string \<Rightarrow> node \<Rightarrow> string option" where
  "parse_literal_shell_word src n =
    (if node_kind n \<in> {''word'', ''number''} \<and> is_literal_word_or_number n then utf8_text src n
     else if node_kind n = ''string'' then parse_double_quoted_string src n
     else if node_kind n = ''raw_string'' then parse_raw_string src n
     else if node_kind n = ''concatenation'' then
       (case those (map (parse_literal_shell_word src) (named_children n)) of
         None \<Rightarrow> None
       | Some parts \<Rightarrow> if concat parts = [] then None else Some (concat parts))
     else None)"
  by auto

termination
  by (relation "measure (\<lambda>(src, n). size n)") (auto simp: size_named_children)

declare parse_literal_shell_word.simps [simp del]

fun literal_words :: "string \<Rightarrow> node list \<Rightarrow> string list \<Rightarrow> bool \<Rightarrow> string list option" where
  "literal_words src [] words found_command_name = (if found_command_name then Some words else None)"
| "literal_words src (child # cs) words found_command_name =
    (if node_kind child = ''command_name'' then
       (case Option.bind (named_child_0 child) (parse_literal_shell_word src) of
         None \<Rightarrow> None
       | Some command_name \<Rightarrow> literal_words src cs (words @ [command_name]) True)
     else case (found_command_name, parse_literal_shell_word src child) of
       (True, Some word) \<Rightarrow> literal_words src cs (words @ [word]) found_command_name
     | _ \<Rightarrow> literal_words src cs words found_command_name)"

definition parse_literal_command_from_node :: "string \<Rightarrow> node \<Rightarrow> string list option" where
  "parse_literal_command_from_node src cmd =
    (if node_kind cmd \<noteq> ''command'' then None else literal_words src (named_children cmd) [] False)"

definition is_allowed_heredoc_attachment_kind :: "string \<Rightarrow> bool" where
  "is_allowed_heredoc_attachment_kind kind \<longleftrightarrow>
    kind \<in> {''heredoc_body'', ''simple_heredoc_body'', ''heredoc_redirect'', ''herestring_redirect'',
      ''redirected_statement''}"

fun heredoc_words :: "string \<Rightarrow> node list \<Rightarrow> string list \<Rightarrow> string list option" where
  "heredoc_words src [] words = Some words"
| "heredoc_words src (child # cs) words =
    (if node_kind child = ''command_name'' then
       (case named_child_0 child of
         None \<Rightarrow> None
       | Some word_node \<Rightarrow>
           if node_kind word_node \<notin> {''word'', ''number''} \<or> \<not> is_literal_word_or_number word_node then None
           else case utf8_text src word_node of
             None \<Rightarrow> None
           | Some word \<Rightarrow> heredoc_words src cs (words @ [word]))
     else if node_kind child \<in> {''word'', ''number''} then
       (if \<not> is_literal_word_or_number child then None
        else case utf8_text src child of
          None \<Rightarrow> None
        | Some word \<Rightarrow> heredoc_words src cs (words @ [word]))
     else if node_kind child = ''comment'' then heredoc_words src cs words
     else if is_allowed_heredoc_attachment_kind (node_kind child) then heredoc_words src cs words
     else None)"

definition parse_heredoc_command_words :: "string \<Rightarrow> node \<Rightarrow> string list option" where
  "parse_heredoc_command_words src cmd =
    (if node_kind cmd \<noteq> ''command'' then None
     else case heredoc_words src (named_children cmd) [] of
       None \<Rightarrow> None
     | Some words \<Rightarrow> if words = [] then None else Some words)"

section \<open>Walks over the tree\<close>

definition ALLOWED_KINDS :: "string list" where
  "ALLOWED_KINDS =
    [''program'', ''list'', ''pipeline'', ''command'', ''command_name'', ''word'', ''string'',
     ''string_content'', ''raw_string'', ''number'', ''concatenation'']"

definition ALLOWED_PUNCT_TOKENS :: "string list" where
  "ALLOWED_PUNCT_TOKENS = [''&&'', ''||'', '';'', ''|'', [CHR 0x22], [CHR 0x27]]"

definition rejected_token :: "string \<Rightarrow> bool" where
  "rejected_token kind \<longleftrightarrow>
    (list_ex (\<lambda>c. c \<in> set ''&;|'') kind \<and> kind \<notin> set ALLOWED_PUNCT_TOKENS) \<or>
    \<not> (kind \<in> set ALLOWED_PUNCT_TOKENS \<or> trim kind = [])"

text \<open>The stack of a walk, with its top first.\<close>

function word_only_walk :: "node list \<Rightarrow> node list \<Rightarrow> node list option" where
  "word_only_walk [] command_nodes = Some command_nodes"
| "word_only_walk (n # stack) command_nodes =
    (if is_named n then
       if node_kind n \<notin> set ALLOWED_KINDS then None
       else word_only_walk (rev (children n) @ stack)
         (if node_kind n = ''command'' then command_nodes @ [n] else command_nodes)
     else if rejected_token (node_kind n) then None
     else word_only_walk (rev (children n) @ stack) command_nodes)"
  by pat_completeness auto

termination
  by (relation "measure (\<lambda>(stack, _). sum_list (map size stack))")
    (auto simp: rev_map [symmetric] sum_size_children)

definition try_parse_word_only_commands_sequence :: "tree \<Rightarrow> string \<Rightarrow> string list list option" where
  "try_parse_word_only_commands_sequence t src =
    (if has_error t then None
     else case word_only_walk [root_node t] [] of
       None \<Rightarrow> None
     | Some command_nodes \<Rightarrow>
         those (map (parse_plain_command_from_node src) (sort_key start_byte command_nodes)))"

function literal_walk :: "string \<Rightarrow> node list \<Rightarrow> string list list \<Rightarrow> string list list" where
  "literal_walk src [] commands = commands"
| "literal_walk src (n # stack) commands =
    literal_walk src (rev (named_children n) @ stack)
      (case (node_kind n = ''command'', parse_literal_command_from_node src n) of
        (True, Some command) \<Rightarrow> commands @ [command]
      | _ \<Rightarrow> commands)"
  by pat_completeness auto

termination
  by (relation "measure (\<lambda>(_, stack, _). sum_list (map size stack))")
    (auto simp: rev_map [symmetric] sum_size_named_children)

function single_command_walk :: "node list \<Rightarrow> node option \<Rightarrow> node option" where
  "single_command_walk [] single_command = single_command"
| "single_command_walk (n # stack) single_command =
    (if node_kind n = ''command'' then
       if single_command \<noteq> None then None
       else single_command_walk (rev (named_children n) @ stack) (Some n)
     else single_command_walk (rev (named_children n) @ stack) single_command)"
  by pat_completeness auto

termination
  by (relation "measure (\<lambda>(stack, _). sum_list (map size stack))")
    (auto simp: rev_map [symmetric] sum_size_named_children)

definition find_single_command_node :: "node \<Rightarrow> node option" where
  "find_single_command_node root = single_command_walk [root] None"

function kind_walk :: "string \<Rightarrow> node list \<Rightarrow> bool" where
  "kind_walk kind [] = False"
| "kind_walk kind (n # stack) =
    (if node_kind n = kind then True else kind_walk kind (rev (named_children n) @ stack))"
  by pat_completeness auto

termination
  by (relation "measure (\<lambda>(_, stack). sum_list (map size stack))")
    (auto simp: rev_map [symmetric] sum_size_named_children)

definition has_named_descendant_kind :: "node \<Rightarrow> string \<Rightarrow> bool" where
  "has_named_descendant_kind n kind = kind_walk kind [n]"

section \<open>Scripts\<close>

definition parse_shell_script_into_commands :: "bash_parser \<Rightarrow> string \<Rightarrow> string list list option" where
  "parse_shell_script_into_commands try_parse_shell script =
    Option.bind (try_parse_shell script) (\<lambda>t. try_parse_word_only_commands_sequence t script)"

definition extract_bash_command :: "string list \<Rightarrow> (string \<times> string) option" where
  "extract_bash_command command =
    (case command of
      [shell, flag, script] \<Rightarrow>
        if flag \<notin> {''-lc'', ''-c''} \<or> detect_shell_type shell \<notin> {Some Zsh, Some Bash, Some Sh} then None
        else Some (shell, script)
    | _ \<Rightarrow> None)"

definition parse_shell_lc_plain_commands :: "bash_parser \<Rightarrow> string list \<Rightarrow> string list list option" where
  "parse_shell_lc_plain_commands try_parse_shell command =
    (case extract_bash_command command of
      None \<Rightarrow> None
    | Some (_, script) \<Rightarrow> parse_shell_script_into_commands try_parse_shell script)"

definition parse_shell_lc_literal_commands :: "bash_parser \<Rightarrow> string list \<Rightarrow> string list list option" where
  "parse_shell_lc_literal_commands try_parse_shell command =
    (case extract_bash_command command of
      None \<Rightarrow> None
    | Some (_, script) \<Rightarrow>
        (case try_parse_shell script of
          None \<Rightarrow> None
        | Some t \<Rightarrow> if has_error t then None else Some (literal_walk script [root_node t] [])))"

definition parse_shell_lc_single_command_prefix :: "bash_parser \<Rightarrow> string list \<Rightarrow> string list option" where
  "parse_shell_lc_single_command_prefix try_parse_shell command =
    (case extract_bash_command command of
      None \<Rightarrow> None
    | Some (_, script) \<Rightarrow>
        (case try_parse_shell script of
          None \<Rightarrow> None
        | Some t \<Rightarrow>
            if has_error t then None
            else if \<not> has_named_descendant_kind (root_node t) ''heredoc_redirect'' then None
            else if has_named_descendant_kind (root_node t) ''file_redirect'' then None
            else Option.bind (find_single_command_node (root_node t)) (parse_heredoc_command_words script)))"

section \<open>What the walks visit\<close>

function nodes :: "node \<Rightarrow> node list" where
  "nodes n = n # concat (map nodes (children n))"
  by auto

termination
  by (relation "measure size") (auto simp: size_children)

function named_nodes :: "node \<Rightarrow> node list" where
  "named_nodes n = n # concat (map named_nodes (named_children n))"
  by auto

termination
  by (relation "measure size") (auto simp: size_named_children)

declare nodes.simps [simp del] named_nodes.simps [simp del]

lemma nodes_Node [simp]: "nodes (Node k b i j cs) = Node k b i j cs # concat (map nodes cs)"
  by (simp add: nodes.simps)

lemma named_nodes_Node [simp]:
  "named_nodes (Node k b i j cs) = Node k b i j cs # concat (map named_nodes (filter is_named cs))"
  by (simp add: named_nodes.simps named_children_def)

lemma nodes_self [simp]: "n \<in> set (nodes n)"
  by (cases n) simp

definition all_nodes :: "node list \<Rightarrow> node set" where
  "all_nodes ns = (\<Union>n \<in> set ns. set (nodes n))"

definition all_named_nodes :: "node list \<Rightarrow> node set" where
  "all_named_nodes ns = (\<Union>n \<in> set ns. set (named_nodes n))"

lemma all_nodes_simps [simp]:
  "all_nodes [] = {}"
  "all_nodes (n # ns) = insert n (all_nodes (children n) \<union> all_nodes ns)"
  "all_nodes (ns @ ms) = all_nodes ns \<union> all_nodes ms"
  "all_nodes (rev ns) = all_nodes ns"
  by (auto simp: all_nodes_def nodes.simps [of n])

lemma all_named_nodes_simps [simp]:
  "all_named_nodes [] = {}"
  "all_named_nodes (n # ns) = insert n (all_named_nodes (named_children n) \<union> all_named_nodes ns)"
  "all_named_nodes (ns @ ms) = all_named_nodes ns \<union> all_named_nodes ms"
  "all_named_nodes (rev ns) = all_named_nodes ns"
  by (auto simp: all_named_nodes_def named_nodes.simps [of n])

lemma all_nodes_child: "m \<in> all_nodes ns \<Longrightarrow> c \<in> set (children m) \<Longrightarrow> c \<in> all_nodes ns"
proof -
  have "m \<in> set (nodes n) \<Longrightarrow> c \<in> set (children m) \<Longrightarrow> c \<in> set (nodes n)" for n
    using nodes_self [of c] by (induction n) (auto simp del: nodes_self)
  then show "m \<in> all_nodes ns \<Longrightarrow> c \<in> set (children m) \<Longrightarrow> c \<in> all_nodes ns"
    by (auto simp: all_nodes_def)
qed

lemma all_nodes_named_child: "m \<in> all_nodes ns \<Longrightarrow> c \<in> set (named_children m) \<Longrightarrow> c \<in> all_nodes ns"
  by (auto simp: named_children_def intro: all_nodes_child)

lemma named_child_0_in: "named_child_0 n = Some c \<Longrightarrow> c \<in> set (named_children n)"
  by (auto simp: named_child_0_def split: list.splits)

lemma all_named_nodes_all: "all_named_nodes ns \<subseteq> all_nodes ns"
proof -
  have "set (named_nodes n) \<subseteq> set (nodes n)" for n
    by (induction n) auto
  then show ?thesis by (auto simp: all_named_nodes_def all_nodes_def)
qed

lemma named_nodes_named: "m \<in> all_named_nodes ns \<Longrightarrow> list_all is_named ns \<Longrightarrow> is_named m"
proof -
  have "m \<in> set (named_nodes n) \<Longrightarrow> is_named n \<Longrightarrow> is_named m" for n
    by (induction n) auto
  then show "m \<in> all_named_nodes ns \<Longrightarrow> list_all is_named ns \<Longrightarrow> is_named m"
    by (auto simp: all_named_nodes_def list_all_iff)
qed

lemma word_only_walk_visits:
  "word_only_walk stack acc = Some cs \<Longrightarrow>
    set cs = set acc \<union> {n \<in> all_nodes stack. is_named n \<and> node_kind n = ''command''} \<and>
    (\<forall>n \<in> all_nodes stack. if is_named n then node_kind n \<in> set ALLOWED_KINDS else \<not> rejected_token (node_kind n))"
  by (induction stack acc rule: word_only_walk.induct) (auto split: if_splits)

lemma literal_walk_visits:
  "set (literal_walk src stack acc) =
    set acc \<union> {w. \<exists>n \<in> all_named_nodes stack. parse_literal_command_from_node src n = Some w}"
  by (induction src stack acc rule: literal_walk.induct)
    (auto simp: parse_literal_command_from_node_def split: bool.splits option.splits)

lemma single_command_walk_Some:
  "single_command_walk stack (Some x) = Some n \<Longrightarrow>
    n = x \<and> (\<forall>m \<in> all_named_nodes stack. node_kind m \<noteq> ''command'')"
  by (induction stack "Some x" rule: single_command_walk.induct) (auto split: if_splits)

lemma single_command_walk_None:
  "single_command_walk stack None = Some n \<Longrightarrow>
    n \<in> all_named_nodes stack \<and> (\<forall>m \<in> all_named_nodes stack. node_kind m = ''command'' \<longrightarrow> m = n)"
  by (induction stack "None :: node option" rule: single_command_walk.induct)
    (auto split: if_splits dest: single_command_walk_Some)

section \<open>Plain and literal words\<close>

text \<open>What is relied on of the grammar of Tree-sitter for Bash, in trees without errors: the arguments
  of a command follow its name, and a word or number has no parts but expansions.\<close>

definition command_shape :: "node \<Rightarrow> bool" where
  "command_shape n \<longleftrightarrow>
    list_all (\<lambda>c. node_kind c \<notin> {''word'', ''number'', ''string'', ''raw_string'', ''concatenation''})
      (takeWhile (\<lambda>c. node_kind c \<noteq> ''command_name'') (named_children n))"

definition word_shape :: "node \<Rightarrow> bool" where
  "word_shape n \<longleftrightarrow> list_all (\<lambda>c. node_kind c \<notin> set ALLOWED_KINDS) (named_children n)"

definition bash_shape :: "node \<Rightarrow> bool" where
  "bash_shape root \<longleftrightarrow>
    list_all (\<lambda>n. (node_kind n = ''command'' \<longrightarrow> command_shape n) \<and>
      (node_kind n \<in> {''word'', ''number''} \<longrightarrow> word_shape n)) (nodes root)"

definition bash_grammar :: "bash_parser \<Rightarrow> bool" where
  "bash_grammar try_parse_shell \<longleftrightarrow>
    (\<forall>script t. try_parse_shell script = Some t \<longrightarrow> \<not> has_error t \<longrightarrow> bash_shape (root_node t))"

text \<open>The words of a tree are plain when they have no parts.\<close>

definition plain_words :: "node \<Rightarrow> bool" where
  "plain_words n \<longleftrightarrow>
    (\<forall>c \<in> all_nodes [n]. node_kind c \<in> {''word'', ''number''} \<longrightarrow> named_children c = [])"

lemma plain_words_child: "plain_words n \<Longrightarrow> c \<in> set (named_children n) \<Longrightarrow> plain_words c"
  by (cases n) (fastforce simp: plain_words_def named_children_def all_nodes_def)

lemma those_map: "those (map f xs) = Some ys \<longleftrightarrow> list_all2 (\<lambda>x y. f x = Some y) xs ys"
proof (induction xs arbitrary: ys)
  case (Cons x xs)
  then show ?case by (cases ys) (auto split: option.splits)
qed auto

lemma those_map_in: "those (map f xs) = Some ys \<Longrightarrow> x \<in> set xs \<Longrightarrow> \<exists>y \<in> set ys. f x = Some y"
  by (induction xs arbitrary: ys) (auto split: option.splits)

lemma literal_of_part: "plain_words n \<Longrightarrow> plain_part src n = Some w \<Longrightarrow> parse_literal_shell_word src n = Some w"
  by (auto simp: plain_part_def parse_literal_shell_word.simps [of src n] plain_words_def
      is_literal_word_or_number_def split: if_splits)

lemma literal_of_plain:
  assumes "plain_words n" and "plain_word src n = Some w" and "node_kind n \<noteq> ''command_name''"
  shows "parse_literal_shell_word src n = Some w"
proof (cases "node_kind n = ''concatenation''")
  case True
  with assms obtain parts where parts: "those (map (plain_part src) (named_children n)) = Some parts"
    "concat parts \<noteq> []" "w = concat parts"
    by (auto simp: plain_word_def split: option.splits if_splits)
  have "those (map (parse_literal_shell_word src) (named_children n)) = Some parts"
    using parts(1) literal_of_part plain_words_child [OF assms(1)]
    unfolding those_map by (auto elim!: list.rel_mono_strong)
  with parts True show ?thesis by (simp add: parse_literal_shell_word.simps [of src n])
next
  case False
  with assms show ?thesis by (auto simp: plain_word_def intro: literal_of_part)
qed

lemma literal_words_plain:
  assumes "those (map (plain_word src) cs) = Some ws" and "\<forall>c \<in> set cs. plain_words c"
    and "literal_words src cs acc found = Some l"
    and "found \<or> list_all (\<lambda>c. node_kind c \<notin> {''word'', ''number'', ''string'', ''raw_string'', ''concatenation''})
      (takeWhile (\<lambda>c. node_kind c \<noteq> ''command_name'') cs)"
  shows "l = acc @ ws"
  using assms
proof (induction cs arbitrary: acc found ws)
  case (Cons c cs)
  then obtain w ws' where w: "plain_word src c = Some w" "those (map (plain_word src) cs) = Some ws'" "ws = w # ws'"
    by (auto split: option.splits)
  show ?case
  proof (cases "node_kind c = ''command_name''")
    case True
    then obtain v where v: "named_child_0 c = Some v" "node_kind v = ''word''" "utf8_text src v = Some w"
      using w(1) by (auto simp: plain_word_def split: option.splits if_splits)
    have "plain_words c" using Cons.prems(2) by simp
    from plain_words_child [OF this named_child_0_in [OF v(1)]] v(2) have "named_children v = []"
      by (simp add: plain_words_def)
    with v(2,3) have "parse_literal_shell_word src v = Some w"
      by (simp add: parse_literal_shell_word.simps [of src v] is_literal_word_or_number_def)
    with Cons.prems Cons.IH [OF w(2)] True v(1) w(3) show ?thesis by (fastforce split: option.splits)
  next
    case False
    then have "node_kind c \<in> {''word'', ''number'', ''string'', ''raw_string'', ''concatenation''}"
      using w(1) by (auto simp: plain_word_def plain_part_def split: if_splits)
    with False Cons.prems(4) have found by auto
    moreover have "parse_literal_shell_word src c = Some w"
      using literal_of_plain [OF _ w(1) False] Cons.prems(2) by simp
    ultimately show ?thesis using Cons.prems Cons.IH [OF w(2)] False w(3) by fastforce
  qed
qed (auto split: if_splits)

lemma literal_words_heredoc:
  assumes "heredoc_words src cs acc = Some ws" and "literal_words src cs acc found = Some l"
    and "found \<or> list_all (\<lambda>c. node_kind c \<notin> {''word'', ''number'', ''string'', ''raw_string'', ''concatenation''})
      (takeWhile (\<lambda>c. node_kind c \<noteq> ''command_name'') cs)"
  shows "l = ws"
  using assms
proof (induction cs arbitrary: acc found)
  case (Cons c cs)
  show ?case
  proof (cases "node_kind c = ''command_name''")
    case True
    then obtain v w where v: "named_child_0 c = Some v" "node_kind v \<in> {''word'', ''number''}"
        "is_literal_word_or_number v" "utf8_text src v = Some w" "heredoc_words src cs (acc @ [w]) = Some ws"
      using Cons.prems(1) by (auto split: option.splits if_splits)
    then have "parse_literal_shell_word src v = Some w"
      by (auto simp: parse_literal_shell_word.simps [of src v])
    with Cons.IH [OF v(5)] Cons.prems(2) True v(1) show ?thesis by auto
  next
    case False
    consider (word) w where "node_kind c \<in> {''word'', ''number''}" "is_literal_word_or_number c" "utf8_text src c = Some w"
        "heredoc_words src cs (acc @ [w]) = Some ws"
      | (other) "node_kind c = ''comment'' \<or> is_allowed_heredoc_attachment_kind (node_kind c)"
        "heredoc_words src cs acc = Some ws"
      using Cons.prems(1) False by (auto split: if_splits option.splits)
    then show ?thesis
    proof cases
      case word
      then have found "parse_literal_shell_word src c = Some w"
        using Cons.prems(3) False by (auto simp: parse_literal_shell_word.simps [of src c])
      with Cons.IH [OF word(4)] Cons.prems(2) False show ?thesis by auto
    next
      case other
      then have "parse_literal_shell_word src c = None"
        by (auto simp: parse_literal_shell_word.simps [of src c] is_allowed_heredoc_attachment_kind_def)
      with Cons.IH [OF other(2)] Cons.prems(2,3) False show ?thesis by (auto split: bool.splits)
    qed
  qed
qed (auto split: if_splits)

lemma word_only_plain_words:
  assumes "word_only_walk [root] [] = Some cs" and "bash_shape root" and "n \<in> all_nodes [root]"
  shows "plain_words n"
proof -
  have sub: "all_nodes [n] \<subseteq> all_nodes [root]"
  proof -
    have "set (nodes n) \<subseteq> set (nodes m)" if "n \<in> set (nodes m)" for m
      using that by (induction m) auto
    with assms(3) show ?thesis by (auto simp: all_nodes_def)
  qed
  show ?thesis unfolding plain_words_def
  proof (intro ballI impI)
    fix c assume c: "c \<in> all_nodes [n]" "node_kind c \<in> {''word'', ''number''}"
    then have "word_shape c" using sub assms(2) by (auto simp: bash_shape_def list_all_iff all_nodes_def)
    moreover have "node_kind d \<in> set ALLOWED_KINDS" if "d \<in> set (named_children c)" for d
      using word_only_walk_visits [OF assms(1)] all_nodes_named_child [of c "[root]" d] sub c(1) that
      by (auto simp: named_children_def split: if_splits)
    ultimately show "named_children c = []" by (auto simp: word_shape_def list_all_iff filter_empty_conv)
  qed
qed

lemma literal_command_node:
  assumes "parse_shell_lc_literal_commands try_parse_shell command = Some ls" and "l \<in> set ls"
    and "extract_bash_command command = Some (shell, script)" and "try_parse_shell script = Some t"
  obtains n where "n \<in> all_named_nodes [root_node t]" "n \<in> all_nodes [root_node t]" "node_kind n = ''command''"
    "literal_words script (named_children n) [] False = Some l"
proof -
  have "ls = literal_walk script [root_node t] []"
    using assms by (auto simp: parse_shell_lc_literal_commands_def simp del: literal_walk.simps split: if_splits)
  with assms(2) have "l \<in> set (literal_walk script [root_node t] [])" by (simp only:)
  then obtain n where n: "n \<in> all_named_nodes [root_node t]" "parse_literal_command_from_node script n = Some l"
    unfolding literal_walk_visits by (auto simp del: all_named_nodes_simps)
  moreover have "n \<in> all_nodes [root_node t]" using n(1) all_named_nodes_all by blast
  ultimately show ?thesis
    using that by (auto simp: parse_literal_command_from_node_def split: if_splits)
qed

text \<open>Every command that is read literally is among the plain commands, with the same words.\<close>

lemma plain_commands_cover_literal:
  assumes grammar: "bash_grammar try_parse_shell"
    and plain: "parse_shell_lc_plain_commands try_parse_shell command = Some cs"
    and literal: "parse_shell_lc_literal_commands try_parse_shell command = Some ls"
  shows "set ls \<subseteq> set cs"
proof
  fix l assume "l \<in> set ls"
  obtain shell script t nodes where t: "extract_bash_command command = Some (shell, script)"
    "try_parse_shell script = Some t" "\<not> has_error t" "word_only_walk [root_node t] [] = Some nodes"
    "those (map (parse_plain_command_from_node script) (sort_key start_byte nodes)) = Some cs"
    using plain by (auto simp: parse_shell_lc_plain_commands_def parse_shell_script_into_commands_def
        try_parse_word_only_commands_sequence_def split: option.splits if_splits prod.splits bind_splits)
  note shape = grammar [unfolded bash_grammar_def, rule_format, OF t(2,3)]
  note visits = word_only_walk_visits [OF t(4)]
  obtain n where all: "n \<in> all_nodes [root_node t]"
    and cmd: "node_kind n = ''command''" "literal_words script (named_children n) [] False = Some l"
    using literal_command_node [OF literal \<open>l \<in> set ls\<close> t(1,2)] by metis
  have "\<not> rejected_token ''command'' \<Longrightarrow> False" by code_simp
  then have "is_named n" using visits all cmd(1) by (metis (no_types, lifting))
  with visits all cmd(1) have "n \<in> set nodes" by auto
  then obtain w where w: "w \<in> set cs" "parse_plain_command_from_node script n = Some w"
    using those_map_in [OF t(5), of n] by auto
  have "l = [] @ w"
  proof (rule literal_words_plain)
    show "those (map (plain_word script) (named_children n)) = Some w"
      using w(2) by (auto simp: parse_plain_command_from_node_def split: if_splits)
    show "\<forall>c \<in> set (named_children n). plain_words c"
      using plain_words_child [OF word_only_plain_words [OF t(4) shape all]] by blast
    show "literal_words script (named_children n) [] False = Some l" by (rule cmd(2))
    show "False \<or> list_all (\<lambda>c. node_kind c \<notin> {''word'', ''number'', ''string'', ''raw_string'', ''concatenation''})
      (takeWhile (\<lambda>c. node_kind c \<noteq> ''command_name'') (named_children n))"
      using shape all cmd(1) by (auto simp: bash_shape_def list_all_iff all_nodes_def command_shape_def)
  qed
  with w(1) show "l \<in> set cs" by simp
qed

lemma heredoc_command_covers_literal:
  assumes grammar: "bash_grammar try_parse_shell"
    and single: "parse_shell_lc_single_command_prefix try_parse_shell command = Some ws"
    and literal: "parse_shell_lc_literal_commands try_parse_shell command = Some ls"
  shows "set ls \<subseteq> {ws}"
proof
  fix l assume "l \<in> set ls"
  obtain shell script t n where t: "extract_bash_command command = Some (shell, script)"
    "try_parse_shell script = Some t" "\<not> has_error t" "single_command_walk [root_node t] None = Some n"
    "parse_heredoc_command_words script n = Some ws"
    using single by (auto simp: parse_shell_lc_single_command_prefix_def find_single_command_node_def
        split: option.splits if_splits prod.splits bind_splits)
  note shape = grammar [unfolded bash_grammar_def, rule_format, OF t(2,3)]
  obtain m where m: "m \<in> all_named_nodes [root_node t]" and all: "m \<in> all_nodes [root_node t]"
    and cmd: "node_kind m = ''command''" "literal_words script (named_children m) [] False = Some l"
    using literal_command_node [OF literal \<open>l \<in> set ls\<close> t(1,2)] by metis
  with single_command_walk_None [OF t(4)] have "m = n" by blast
  have "heredoc_words script (named_children m) [] = Some ws"
    using t(5) by (auto simp: \<open>m = n\<close> parse_heredoc_command_words_def split: if_splits option.splits)
  then have "l = ws"
    using literal_words_heredoc cmd shape all
    by (fastforce simp: bash_shape_def list_all_iff all_nodes_def command_shape_def)
  then show "l \<in> {ws}" by simp
qed

text \<open>Literal words consist of bytes of the script.\<close>

lemma utf8_text_bytes: "utf8_text src n = Some w \<Longrightarrow> set w \<subseteq> set src"
  by (auto simp: utf8_text_def Let_def split: if_splits dest!: in_set_dropD in_set_takeD)

lemma quoted_bytes:
  "parse_double_quoted_string src n = Some w \<Longrightarrow> set w \<subseteq> set src"
  "parse_raw_string src n = Some w \<Longrightarrow> set w \<subseteq> set src"
  by (fastforce simp: parse_double_quoted_string_def parse_raw_string_def strip_prefix_Some strip_suffix_Some
      split: if_splits option.splits bind_splits dest!: utf8_text_bytes)+

lemma parse_literal_shell_word_bytes: "parse_literal_shell_word src n = Some w \<Longrightarrow> set w \<subseteq> set src"
proof (induction src n arbitrary: w rule: parse_literal_shell_word.induct)
  case (1 src n)
  show ?case
  proof (cases "node_kind n = ''concatenation''")
    case True
    with "1.prems" obtain parts where "list_all2 (\<lambda>c v. parse_literal_shell_word src c = Some v) (named_children n) parts"
      "w = concat parts"
      by (auto simp: parse_literal_shell_word.simps [of src n] those_map split: option.splits if_splits)
    moreover have "set v \<subseteq> set src" if "parse_literal_shell_word src c = Some v" "c \<in> set (named_children n)" for c v
      using "1.IH" [of c v] that True by auto
    ultimately show ?thesis by (fastforce simp: list_all2_conv_all_nth in_set_conv_nth)
  next
    case False
    with "1.prems" show ?thesis
      by (auto simp: parse_literal_shell_word.simps [of src n] split: if_splits dest: utf8_text_bytes quoted_bytes)
  qed
qed

lemma literal_words_bytes:
  "literal_words src cs acc found = Some l \<Longrightarrow> \<forall>w \<in> set acc. set w \<subseteq> set src \<Longrightarrow> \<forall>w \<in> set l. set w \<subseteq> set src"
proof (induction cs arbitrary: acc found)
  case (Cons c cs)
  show ?case
  proof (cases "node_kind c = ''command_name''")
    case True
    with Cons.prems(1) obtain v where v: "Option.bind (named_child_0 c) (parse_literal_shell_word src) = Some v"
      "literal_words src cs (acc @ [v]) True = Some l" by (auto split: option.splits)
    then have "set v \<subseteq> set src" by (auto simp: bind_eq_Some_conv dest: parse_literal_shell_word_bytes)
    with Cons.IH [OF v(2)] Cons.prems(2) show ?thesis by simp
  next
    case False
    consider "literal_words src cs acc found = Some l"
      | v where "parse_literal_shell_word src c = Some v" "literal_words src cs (acc @ [v]) found = Some l"
      using Cons.prems(1) False by (auto split: bool.splits option.splits)
    then show ?thesis
    proof cases
      case 1
      from Cons.IH [OF this Cons.prems(2)] show ?thesis .
    next
      case 2
      with Cons.IH [OF 2(2)] Cons.prems(2) parse_literal_shell_word_bytes [OF 2(1)] show ?thesis by simp
    qed
  qed
qed (auto split: if_splits)

lemma literal_commands_bytes:
  assumes "parse_shell_lc_literal_commands try_parse_shell command = Some ls" and "l \<in> set ls" and "w \<in> set l"
    and "extract_bash_command command = Some (shell, script)"
  shows "set w \<subseteq> set script"
proof -
  obtain t where "try_parse_shell script = Some t"
    using assms(1,4) by (auto simp: parse_shell_lc_literal_commands_def split: option.splits)
  from literal_command_node [OF assms(1,2,4) this] obtain n where
    "literal_words script (named_children n) [] False = Some l" by metis
  from literal_words_bytes [OF this] assms(3) show ?thesis by simp
qed

end
