(* ===== verification/Command_Safety.thy ===== *)
theory Command_Safety
  imports Shell_Syntax
begin

text \<open>Commands that may run without asking and commands that must not
  (\<^verbatim>\<open>codex-rs/shell-command/src/command_safety\<close>, \<^verbatim>\<open>is_safe_command.rs\<close> and
  \<^verbatim>\<open>is_dangerous_command.rs\<close>), in the build for Unix.  Whether the build is for Linux is an
  argument, and so is the parser of shell scripts.\<close>

section \<open>Names and Git options\<close>

definition executable_name_lookup_key :: "string \<Rightarrow> string option" where
  "executable_name_lookup_key raw = path_file_name raw"

definition is_git_global_option_with_value :: "string \<Rightarrow> bool" where
  "is_git_global_option_with_value arg \<longleftrightarrow>
    arg \<in> {''-C'', ''-c'', ''--config-env'', ''--exec-path'', ''--git-dir'', ''--namespace'',
      ''--super-prefix'', ''--work-tree''}"

definition is_git_global_option_with_inline_value :: "string \<Rightarrow> bool" where
  "is_git_global_option_with_inline_value arg \<longleftrightarrow>
    starts_with arg ''--config-env='' \<or> starts_with arg ''--exec-path='' \<or>
    starts_with arg ''--git-dir='' \<or> starts_with arg ''--namespace='' \<or>
    starts_with arg ''--super-prefix='' \<or> starts_with arg ''--work-tree='' \<or>
    ((starts_with arg ''-C'' \<or> starts_with arg ''-c'') \<and> length arg > 2)"

fun find_subcommand_from :: "nat \<Rightarrow> bool \<Rightarrow> string list \<Rightarrow> string list \<Rightarrow> (nat \<times> string) option" where
  "find_subcommand_from idx skip_next [] subcommands = None"
| "find_subcommand_from idx skip_next (arg # args) subcommands =
    (if skip_next then find_subcommand_from (idx + 1) False args subcommands
     else if is_git_global_option_with_inline_value arg then
       find_subcommand_from (idx + 1) skip_next args subcommands
     else if is_git_global_option_with_value arg then find_subcommand_from (idx + 1) True args subcommands
     else if arg = ''--'' \<or> starts_with arg ''-'' then
       find_subcommand_from (idx + 1) skip_next args subcommands
     else if arg \<in> set subcommands then Some (idx, arg)
     else None)"

definition find_git_subcommand :: "string list \<Rightarrow> string list \<Rightarrow> (nat \<times> string) option" where
  "find_git_subcommand command subcommands =
    (case command of
      [] \<Rightarrow> None
    | cmd0 # args \<Rightarrow>
        if executable_name_lookup_key cmd0 \<noteq> Some ''git'' then None
        else find_subcommand_from 1 False args subcommands)"

datatype git_option_pattern = Exact string | ShortWithInlineValue string | Prefix string

definition UNSAFE_GIT_GLOBAL_OPTIONS :: "git_option_pattern list" where
  "UNSAFE_GIT_GLOBAL_OPTIONS =
    [Exact ''-C'', ShortWithInlineValue ''-C'', Exact ''-c'', ShortWithInlineValue ''-c'', Exact ''-p'',
     Exact ''--config-env'', Prefix ''--config-env='', Exact ''--exec-path'', Prefix ''--exec-path='',
     Exact ''--git-dir'', Prefix ''--git-dir='', Exact ''--namespace'', Prefix ''--namespace='',
     Exact ''--paginate'', Exact ''--super-prefix'', Prefix ''--super-prefix='', Exact ''--work-tree'',
     Prefix ''--work-tree='']"

definition UNSAFE_GIT_SUBCOMMAND_OPTIONS :: "git_option_pattern list" where
  "UNSAFE_GIT_SUBCOMMAND_OPTIONS =
    [Exact ''--output'', Prefix ''--output='', Exact ''--ext-diff'', Exact ''--textconv'',
     Exact ''--exec'', Prefix ''--exec='']"

fun git_option_matches :: "git_option_pattern \<Rightarrow> string \<Rightarrow> bool" where
  "git_option_matches (Exact option) arg = (arg = option)"
| "git_option_matches (ShortWithInlineValue option) arg =
    (starts_with arg option \<and> length arg > length option)"
| "git_option_matches (Prefix prefix) arg = starts_with arg prefix"

definition git_matches_option_pattern :: "string \<Rightarrow> git_option_pattern list \<Rightarrow> bool" where
  "git_matches_option_pattern arg patterns = list_ex (\<lambda>pattern. git_option_matches pattern arg) patterns"

definition git_has_unsafe_global_option :: "string list \<Rightarrow> bool" where
  "git_has_unsafe_global_option global_args =
    list_ex (\<lambda>arg. git_matches_option_pattern arg UNSAFE_GIT_GLOBAL_OPTIONS) global_args"

definition git_subcommand_args_are_read_only :: "string list \<Rightarrow> bool" where
  "git_subcommand_args_are_read_only args \<longleftrightarrow>
    \<not> list_ex (\<lambda>arg. git_matches_option_pattern arg UNSAFE_GIT_SUBCOMMAND_OPTIONS) args"

definition branch_query_flag :: "string \<Rightarrow> bool" where
  "branch_query_flag arg \<longleftrightarrow>
    arg \<in> {''--list'', ''-l'', ''--show-current'', ''-a'', ''--all'', ''-r'', ''--remotes'', ''-v'', ''-vv'',
      ''--verbose''} \<or> starts_with arg ''--format=''"

fun branch_args_from :: "bool \<Rightarrow> string list \<Rightarrow> bool" where
  "branch_args_from saw_read_only_flag [] = saw_read_only_flag"
| "branch_args_from saw_read_only_flag (arg # args) =
    (if branch_query_flag arg then branch_args_from True args else False)"

definition git_branch_is_read_only :: "string list \<Rightarrow> bool" where
  "git_branch_is_read_only branch_args \<longleftrightarrow> branch_args = [] \<or> branch_args_from False branch_args"

definition is_safe_git_command :: "string list \<Rightarrow> bool" where
  "is_safe_git_command command =
    (case find_git_subcommand command [''status'', ''log'', ''diff'', ''show'', ''branch''] of
      None \<Rightarrow> False
    | Some (subcommand_idx, subcommand) \<Rightarrow>
        if git_has_unsafe_global_option (drop 1 (take subcommand_idx command)) then False
        else let subcommand_args = drop (subcommand_idx + 1) command in
          if subcommand \<in> {''status'', ''log'', ''diff'', ''show''} then
            git_subcommand_args_are_read_only subcommand_args
          else if subcommand = ''branch'' then
            git_subcommand_args_are_read_only subcommand_args \<and> git_branch_is_read_only subcommand_args
          else False)"

section \<open>Known safe commands\<close>

definition is_valid_sed_n_arg :: "string option \<Rightarrow> bool" where
  "is_valid_sed_n_arg arg =
    (case arg of
      None \<Rightarrow> False
    | Some s \<Rightarrow>
        (case strip_suffix ''p'' s of
          None \<Rightarrow> False
        | Some core \<Rightarrow>
            (case split_on (CHR '','') core of
              [num] \<Rightarrow> num \<noteq> [] \<and> list_all is_ascii_digit num
            | [a, b] \<Rightarrow> a \<noteq> [] \<and> b \<noteq> [] \<and> list_all is_ascii_digit a \<and> list_all is_ascii_digit b
            | _ \<Rightarrow> False)))"

definition read_only_programs :: "string list" where
  "read_only_programs =
    [''cat'', ''cd'', ''cut'', ''echo'', ''expr'', ''false'', ''grep'', ''head'', ''id'', ''ls'', ''nl'',
     ''paste'', ''pwd'', ''rev'', ''seq'', ''stat'', ''tail'', ''tr'', ''true'', ''uname'', ''uniq'',
     ''wc'', ''which'', ''whoami'']"

definition unsafe_base64_arg :: "string \<Rightarrow> bool" where
  "unsafe_base64_arg arg \<longleftrightarrow>
    arg \<in> {''-o'', ''--output''} \<or> starts_with arg ''--output='' \<or> (starts_with arg ''-o'' \<and> arg \<noteq> ''-o'')"

definition UNSAFE_FIND_OPTIONS :: "string list" where
  "UNSAFE_FIND_OPTIONS =
    [''-exec'', ''-execdir'', ''-ok'', ''-okdir'', ''-delete'', ''-fls'', ''-fprint'', ''-fprint0'', ''-fprintf'']"

definition unsafe_ripgrep_arg :: "string \<Rightarrow> bool" where
  "unsafe_ripgrep_arg arg \<longleftrightarrow>
    arg \<in> {''--search-zip'', ''-z''} \<or>
    list_ex (\<lambda>opt. arg = opt \<or> starts_with arg (opt @ ''='')) [''--pre'', ''--hostname-bin'']"

definition is_safe_to_call_with_exec :: "bool \<Rightarrow> string list \<Rightarrow> bool" where
  "is_safe_to_call_with_exec linux command =
    (case command of
      [] \<Rightarrow> False
    | cmd0 # args \<Rightarrow>
        (case executable_name_lookup_key cmd0 of
          None \<Rightarrow> False
        | Some cmd \<Rightarrow>
            if linux \<and> cmd \<in> {''numfmt'', ''tac''} then True
            else if cmd \<in> set read_only_programs then True
            else if cmd = ''base64'' then \<not> list_ex unsafe_base64_arg args
            else if cmd = ''find'' then \<not> list_ex (\<lambda>arg. arg \<in> set UNSAFE_FIND_OPTIONS) command
            else if cmd = ''rg'' then \<not> list_ex unsafe_ripgrep_arg command
            else if cmd = ''git'' then is_safe_git_command command
            else if cmd = ''sed'' \<and> length command \<le> 4
                \<and> (case args of flag # _ \<Rightarrow> flag = ''-n'' | [] \<Rightarrow> False)
                \<and> is_valid_sed_n_arg (case args of _ # arg # _ \<Rightarrow> Some arg | _ \<Rightarrow> None)
              then True
            else False))"

definition zsh_as_bash :: "string \<Rightarrow> string" where
  "zsh_as_bash s = (if s = ''zsh'' then ''bash'' else s)"

definition is_known_safe_command :: "bash_parser \<Rightarrow> bool \<Rightarrow> string list \<Rightarrow> bool" where
  "is_known_safe_command try_parse_shell linux command =
    (let command = map zsh_as_bash command in
     if is_safe_to_call_with_exec linux command then True
     else case parse_shell_lc_plain_commands try_parse_shell command of
       Some all_commands \<Rightarrow> all_commands \<noteq> [] \<and> list_all (is_safe_to_call_with_exec linux) all_commands
     | None \<Rightarrow> False)"

section \<open>Dangerous commands\<close>

datatype dangerous_match = ForcedRm | OtherDanger

definition MAX_DANGEROUS_COMMAND_WRAPPER_DEPTH :: nat where
  "MAX_DANGEROUS_COMMAND_WRAPPER_DEPTH = 8"

definition rm_args_include_force_option :: "string list \<Rightarrow> bool" where
  "rm_args_include_force_option args =
    list_ex (\<lambda>arg. arg = ''--force'' \<or>
        (case strip_prefix ''-'' arg of
          Some flags \<Rightarrow> \<not> starts_with flags ''-'' \<and> CHR ''f'' \<in> set flags
        | None \<Rightarrow> False))
      (takeWhile (\<lambda>arg. arg \<noteq> ''--'') args)"

text \<open>The command that \<^verbatim>\<open>env\<close> runs, after its own options and assignments, and the action of a
  \<^verbatim>\<open>trap\<close>.\<close>

fun env_command :: "string list \<Rightarrow> string list" where
  "env_command [] = []"
| "env_command (argument # args) =
    (if argument = ''--'' then args
     else if argument \<in> {''-i'', ''--ignore-environment''} \<or>
       (case split_once (CHR ''='') argument of
         Some (name, _) \<Rightarrow> name \<noteq> [] \<and> \<not> starts_with name ''-''
       | None \<Rightarrow> False)
     then env_command args
     else argument # args)"

definition trap_action :: "string list \<Rightarrow> string option" where
  "trap_action args =
    (case (case args of argument # rest \<Rightarrow> if argument = ''--'' then rest else args | [] \<Rightarrow> []) of
      [] \<Rightarrow> None
    | action # _ \<Rightarrow> if starts_with action ''-'' then None else Some action)"

text \<open>The three functions that call each other, with the depth of the wrappers counted.\<close>

function dangerous_command_match_with_depth :: "bash_parser \<Rightarrow> string list \<Rightarrow> nat \<Rightarrow> dangerous_match option"
  and dangerous_command_match_for_exec :: "bash_parser \<Rightarrow> string list \<Rightarrow> nat \<Rightarrow> dangerous_match option" where
  "dangerous_command_match_with_depth try_parse_shell command wrapper_depth =
    (if wrapper_depth > MAX_DANGEROUS_COMMAND_WRAPPER_DEPTH then None
     else case dangerous_command_match_for_exec try_parse_shell command wrapper_depth of
       Some dangerous_match \<Rightarrow> Some dangerous_match
     | None \<Rightarrow>
         (case parse_shell_lc_literal_commands try_parse_shell command of
           None \<Rightarrow> None
         | Some commands \<Rightarrow>
             find_map (\<lambda>command.
               dangerous_command_match_with_depth try_parse_shell command (wrapper_depth + 1)) commands))"
| "dangerous_command_match_for_exec try_parse_shell command wrapper_depth =
    (case command of
      [] \<Rightarrow> None
    | cmd0 # args \<Rightarrow>
        if executable_name_lookup_key cmd0 = Some ''rm'' \<and> rm_args_include_force_option args then Some ForcedRm
        else if executable_name_lookup_key cmd0 = Some ''sudo'' then
          dangerous_command_match_with_depth try_parse_shell args (wrapper_depth + 1)
        else if executable_name_lookup_key cmd0 = Some ''env'' then
          dangerous_command_match_with_depth try_parse_shell (env_command args) (wrapper_depth + 1)
        else if executable_name_lookup_key cmd0 = Some ''trap'' then
          (case trap_action args of
            None \<Rightarrow> None
          | Some action \<Rightarrow>
              dangerous_command_match_with_depth try_parse_shell [''sh'', ''-c'', action] (wrapper_depth + 1))
        else None)"
  by pat_completeness auto

termination
  by (relation "measure (\<lambda>x. case x of
        Inl (_, _, d) \<Rightarrow> if d > 8 then 0 else 2 * (9 - d) + 1
      | Inr (_, _, d) \<Rightarrow> if d > 8 then 1 else 2 * (9 - d))")
    (auto simp: MAX_DANGEROUS_COMMAND_WRAPPER_DEPTH_def)

declare dangerous_command_match_with_depth.simps [simp del] dangerous_command_match_for_exec.simps [simp del]

definition dangerous_command_match :: "bash_parser \<Rightarrow> string list \<Rightarrow> dangerous_match option" where
  "dangerous_command_match try_parse_shell command =
    dangerous_command_match_with_depth try_parse_shell command 0"

section \<open>Shells are neither safe nor dangerous by name\<close>

lemma plain_file_name:
  assumes "CHR ''/'' \<notin> set f" and "f \<notin> {[], ''.'', ''..''}"
  shows "path_file_name f = Some f"
  using assms by (simp add: path_file_name_def path_parts_def)

lemma file_name_plain:
  assumes "path_file_name p = Some f"
  shows "CHR ''/'' \<notin> set f" and "f \<notin> {[], ''.'', ''..''}"
proof -
  have "f \<in> set (path_parts p)" "f \<noteq> ''..''"
    using assms by (auto simp: path_file_name_def split: if_splits)
  then show "CHR ''/'' \<notin> set f" "f \<notin> {[], ''.'', ''..''}"
    by (auto simp: path_parts_def dest: split_on_pieces)
qed

lemma stem_without_dot: "CHR ''.'' \<notin> set f \<Longrightarrow> file_name_stem f = f"
  by (auto simp: file_name_stem_def split: option.splits dest!: rsplit_once_Some)

lemma detect_shell_type_name:
  assumes "detect_shell_type p \<noteq> None" and "path_file_name p = Some f" and "CHR ''.'' \<notin> set f"
  shows "f \<in> {''zsh'', ''sh'', ''cmd'', ''bash'', ''pwsh'', ''powershell''}"
proof -
  have plain: "detect_shell_type f \<noteq> None \<Longrightarrow> f \<in> {''zsh'', ''sh'', ''cmd'', ''bash'', ''pwsh'', ''powershell''}"
    using file_name_plain [OF assms(2)] assms(3)
    by (auto simp: detect_shell_type.simps [of f] path_file_stem_def plain_file_name stem_without_dot split: if_splits)
  have "p = f" if "p \<in> {''zsh'', ''sh'', ''cmd'', ''bash'', ''pwsh'', ''powershell''}"
    using that assms(2) plain_file_name [of p] by auto
  with assms plain show ?thesis
    by (auto simp: detect_shell_type.simps [of p] path_file_stem_def stem_without_dot split: if_splits)
qed

definition safe_programs :: "string list" where
  "safe_programs = read_only_programs @ [''numfmt'', ''tac'', ''base64'', ''find'', ''rg'', ''git'', ''sed'']"

definition dangerous_programs :: "string list" where
  "dangerous_programs = [''rm'', ''sudo'', ''env'', ''trap'']"

lemma program_names:
  "list_all (\<lambda>f. CHR ''.'' \<notin> set f \<and> f \<notin> {''zsh'', ''sh'', ''cmd'', ''bash'', ''pwsh'', ''powershell''})
    (safe_programs @ dangerous_programs)"
  by code_simp

lemma program_names_disjoint: "set safe_programs \<inter> set dangerous_programs = {}"
  by code_simp

lemma program_not_shell:
  assumes "path_file_name p = Some f" and "f \<in> set safe_programs \<union> set dangerous_programs"
  shows "detect_shell_type p = None"
  using detect_shell_type_name [OF _ assms(1)] program_names assms(2) by (fastforce simp: list_all_iff)

lemma program_no_script:
  assumes "path_file_name p = Some f" and "f \<in> set safe_programs \<union> set dangerous_programs"
  shows "extract_bash_command (p # args) = None"
  using program_not_shell [OF assms] by (auto simp: extract_bash_command_def split: list.splits)

lemma safe_exec_program:
  assumes "is_safe_to_call_with_exec linux command"
  obtains p args f where "command = p # args" "path_file_name p = Some f" "f \<in> set safe_programs"
  using assms that
  by (cases command)
    (auto simp: is_safe_to_call_with_exec_def executable_name_lookup_key_def safe_programs_def
      split: option.splits if_splits)

lemma safe_program_not_dangerous:
  assumes "path_file_name p = Some f" and "f \<in> set safe_programs"
  shows "dangerous_command_match_with_depth try_parse_shell (p # args) d = None"
proof -
  have "f \<notin> set dangerous_programs" using program_names_disjoint assms(2) by blast
  then have "dangerous_command_match_for_exec try_parse_shell (p # args) d = None"
    using assms(1)
    by (simp add: dangerous_command_match_for_exec.simps executable_name_lookup_key_def dangerous_programs_def)
  then show ?thesis
    using program_no_script [OF assms(1), of args] assms(2)
    by (simp add: dangerous_command_match_with_depth.simps parse_shell_lc_literal_commands_def)
qed

lemma shell_not_dangerous_exec:
  assumes "extract_bash_command command \<noteq> None"
  shows "dangerous_command_match_for_exec try_parse_shell command d = None"
proof (cases command)
  case (Cons p args)
  have "path_file_name p \<noteq> Some f" if "f \<in> set dangerous_programs" for f
    using program_no_script [of p f args] that assms Cons by auto
  then show ?thesis
    by (simp add: Cons dangerous_command_match_for_exec.simps executable_name_lookup_key_def dangerous_programs_def)
qed (simp add: dangerous_command_match_for_exec.simps)

lemma dangerous_script:
  assumes "extract_bash_command command \<noteq> None"
  shows "dangerous_command_match_with_depth try_parse_shell command d =
    (if d > MAX_DANGEROUS_COMMAND_WRAPPER_DEPTH then None
     else Option.bind (parse_shell_lc_literal_commands try_parse_shell command)
       (find_map (\<lambda>c. dangerous_command_match_with_depth try_parse_shell c (d + 1))))"
  by (simp add: dangerous_command_match_with_depth.simps [of _ command] shell_not_dangerous_exec [OF assms]
      split: option.splits)

lemma zsh_as_bash_script:
  assumes "''zsh'' \<notin> set (drop 1 command)"
  shows "map_option snd (extract_bash_command (map zsh_as_bash command)) = map_option snd (extract_bash_command command)"
proof -
  have "map zsh_as_bash xs = xs" if "''zsh'' \<notin> set xs" for xs
    using that by (induction xs) (auto simp: zsh_as_bash_def)
  moreover have "detect_shell_type ''zsh'' = Some Zsh" "detect_shell_type ''bash'' = Some Bash"
    by (simp_all add: detect_shell_type.simps)
  ultimately show ?thesis
    using assms by (cases command) (auto simp: extract_bash_command_def zsh_as_bash_def split: list.splits)
qed

section \<open>Forced removals\<close>

text \<open>The meaning of a dangerous command, without a bound: a forced removal, directly or behind a
  number of wrappers.\<close>

inductive forced_rm :: "bash_parser \<Rightarrow> nat \<Rightarrow> string list \<Rightarrow> bool" for try_parse_shell where
  removal: "path_file_name p = Some ''rm'' \<Longrightarrow> rm_args_include_force_option args \<Longrightarrow>
    forced_rm try_parse_shell 0 (p # args)"
| sudo: "path_file_name p = Some ''sudo'' \<Longrightarrow> forced_rm try_parse_shell n args \<Longrightarrow>
    forced_rm try_parse_shell (n + 1) (p # args)"
| env: "path_file_name p = Some ''env'' \<Longrightarrow> forced_rm try_parse_shell n (env_command args) \<Longrightarrow>
    forced_rm try_parse_shell (n + 1) (p # args)"
| trap: "path_file_name p = Some ''trap'' \<Longrightarrow> trap_action args = Some action \<Longrightarrow>
    forced_rm try_parse_shell n [''sh'', ''-c'', action] \<Longrightarrow> forced_rm try_parse_shell (n + 1) (p # args)"
| script: "parse_shell_lc_literal_commands try_parse_shell command = Some commands \<Longrightarrow> c \<in> set commands \<Longrightarrow>
    forced_rm try_parse_shell n c \<Longrightarrow> forced_rm try_parse_shell (n + 1) command"

lemma dangerous_exec_cases:
  assumes "dangerous_command_match_for_exec try_parse_shell command d = Some m"
  obtains (rm) p args where "command = p # args" "path_file_name p = Some ''rm''"
      "rm_args_include_force_option args" "m = ForcedRm"
  | (sudo) p args where "command = p # args" "path_file_name p = Some ''sudo''"
      "dangerous_command_match_with_depth try_parse_shell args (d + 1) = Some m"
  | (env) p args where "command = p # args" "path_file_name p = Some ''env''"
      "dangerous_command_match_with_depth try_parse_shell (env_command args) (d + 1) = Some m"
  | (trap) p args action where "command = p # args" "path_file_name p = Some ''trap''"
      "trap_action args = Some action"
      "dangerous_command_match_with_depth try_parse_shell [''sh'', ''-c'', action] (d + 1) = Some m"
  using assms
  by (auto simp: dangerous_command_match_for_exec.simps [of try_parse_shell command] executable_name_lookup_key_def
      split: list.splits if_splits option.splits)

lemma dangerous_match_forced_rm:
  "dangerous_command_match_with_depth try_parse_shell command d = Some m \<Longrightarrow>
    m = ForcedRm \<and> (\<exists>n. d + n \<le> MAX_DANGEROUS_COMMAND_WRAPPER_DEPTH \<and> forced_rm try_parse_shell n command)"
proof (induction "MAX_DANGEROUS_COMMAND_WRAPPER_DEPTH - d" arbitrary: command d m rule: less_induct)
  case less
  have d: "d \<le> MAX_DANGEROUS_COMMAND_WRAPPER_DEPTH"
    using less.prems by (auto simp: dangerous_command_match_with_depth.simps [of try_parse_shell command] split: if_splits)
  have deeper: "m = ForcedRm \<and> (\<exists>n. d + (n + 1) \<le> MAX_DANGEROUS_COMMAND_WRAPPER_DEPTH \<and> forced_rm try_parse_shell n c)"
    if "dangerous_command_match_with_depth try_parse_shell c (d + 1) = Some m" for c
  proof -
    have "d < MAX_DANGEROUS_COMMAND_WRAPPER_DEPTH"
      using that d by (cases "d = MAX_DANGEROUS_COMMAND_WRAPPER_DEPTH")
        (auto simp: dangerous_command_match_with_depth.simps [of try_parse_shell c])
    then show ?thesis using less.hyps [of "d + 1" c m] that by auto
  qed
  show ?case
  proof (cases "dangerous_command_match_for_exec try_parse_shell command d")
    case None
    with less.prems obtain cs where "parse_shell_lc_literal_commands try_parse_shell command = Some cs"
      "find_map (\<lambda>c. dangerous_command_match_with_depth try_parse_shell c (d + 1)) cs = Some m"
      by (auto simp: dangerous_command_match_with_depth.simps [of try_parse_shell command] split: if_splits option.splits)
    then show ?thesis using deeper by (blast dest: find_map_Some intro: script)
  next
    case (Some m')
    with less.prems d have "dangerous_command_match_for_exec try_parse_shell command d = Some m"
      by (simp add: dangerous_command_match_with_depth.simps [of try_parse_shell command])
    then show ?thesis
    proof (cases rule: dangerous_exec_cases)
      case (rm p args)
      with d show ?thesis by (auto intro!: exI [of _ 0] removal)
    next
      case (sudo p args)
      with deeper show ?thesis by (blast intro: forced_rm.sudo)
    next
      case (env p args)
      with deeper show ?thesis by (blast intro: forced_rm.env)
    next
      case (trap p args action)
      with deeper show ?thesis by (blast intro: forced_rm.trap)
    qed
  qed
qed

lemma dangerous_exec_with_depth:
  assumes "dangerous_command_match_for_exec try_parse_shell command d \<noteq> None"
    and "d \<le> MAX_DANGEROUS_COMMAND_WRAPPER_DEPTH"
  shows "dangerous_command_match_with_depth try_parse_shell command d \<noteq> None"
  using assms by (auto simp: dangerous_command_match_with_depth.simps [of try_parse_shell command])

lemma forced_rm_dangerous:
  "forced_rm try_parse_shell n command \<Longrightarrow> d + n \<le> MAX_DANGEROUS_COMMAND_WRAPPER_DEPTH \<Longrightarrow>
    dangerous_command_match_with_depth try_parse_shell command d \<noteq> None"
proof (induction arbitrary: d rule: forced_rm.induct)
  case (script command commands c n)
  then have "dangerous_command_match_with_depth try_parse_shell c (d + 1) \<noteq> None" by simp
  with script(2) have "find_map (\<lambda>c. dangerous_command_match_with_depth try_parse_shell c (d + 1)) commands \<noteq> None"
    by (auto simp: find_map_None)
  with script(1,5) show ?case
    by (auto simp: dangerous_command_match_with_depth.simps [of try_parse_shell command] split: option.splits)
qed (rule dangerous_exec_with_depth;
  simp add: dangerous_command_match_for_exec.simps [of try_parse_shell "_ # _"] executable_name_lookup_key_def)+

lemma dangerous_depth_mono:
  assumes "dangerous_command_match_with_depth try_parse_shell command d \<noteq> None" and "d' \<le> d"
  shows "dangerous_command_match_with_depth try_parse_shell command d' \<noteq> None"
proof -
  obtain n where "d + n \<le> MAX_DANGEROUS_COMMAND_WRAPPER_DEPTH" "forced_rm try_parse_shell n command"
    using assms(1) dangerous_match_forced_rm by blast
  with assms(2) show ?thesis by (intro forced_rm_dangerous) auto
qed

section \<open>Safe commands are not dangerous\<close>

text \<open>A script \<^verbatim>\<open>zsh\<close> is renamed like a shell of that name, but has no bytes for a dangerous command.\<close>

lemma zsh_bytes_not_dangerous:
  assumes "\<forall>w \<in> set l. set w \<subseteq> set ''zsh''"
  shows "dangerous_command_match_with_depth try_parse_shell l d = None"
proof (cases l)
  case (Cons p args)
  have "path_file_name p \<noteq> Some f" if "f \<in> set dangerous_programs" for f
  proof
    assume f: "path_file_name p = Some f"
    then have "f \<in> set (split_on (CHR ''/'') p)"
      by (auto simp: path_file_name_def path_parts_def split: if_splits dest: last_in_set)
    then have "set f \<subseteq> set p" by (auto dest: split_on_infix)
    moreover have "\<not> set f \<subseteq> set ''zsh''" using that by (auto simp: dangerous_programs_def)
    ultimately show False using assms Cons by auto
  qed
  then have "dangerous_command_match_for_exec try_parse_shell l d = None"
    by (simp add: Cons dangerous_command_match_for_exec.simps executable_name_lookup_key_def dangerous_programs_def)
  moreover have "extract_bash_command l = None"
    using assms by (auto simp: extract_bash_command_def split: list.splits)
  ultimately show ?thesis
    by (simp add: dangerous_command_match_with_depth.simps parse_shell_lc_literal_commands_def)
qed (simp add: dangerous_command_match_with_depth.simps dangerous_command_match_for_exec.simps
    parse_shell_lc_literal_commands_def extract_bash_command_def)

lemma zsh_script_not_dangerous:
  assumes "extract_bash_command command = Some (shell, ''zsh'')"
  shows "dangerous_command_match try_parse_shell command = None"
proof -
  have "find_map (\<lambda>c. dangerous_command_match_with_depth try_parse_shell c 1) ls = None"
    if "parse_shell_lc_literal_commands try_parse_shell command = Some ls" for ls
    using literal_commands_bytes [OF that _ _ assms] zsh_bytes_not_dangerous by (fastforce simp: find_map_None)
  then show ?thesis
    using assms by (cases "parse_shell_lc_literal_commands try_parse_shell command")
      (auto simp: dangerous_command_match_def dangerous_script)
qed

lemma extract_bash_command_shape:
  "extract_bash_command command = Some (shell, script) \<Longrightarrow>
    \<exists>flag. command = [shell, flag, script] \<and> flag \<in> {''-lc'', ''-c''}"
  by (auto simp: extract_bash_command_def split: list.splits if_splits)

lemma safe_script_not_dangerous:
  assumes "bash_grammar try_parse_shell" and "''zsh'' \<notin> set (drop 1 command)"
    and "parse_shell_lc_plain_commands try_parse_shell (map zsh_as_bash command) = Some cs"
    and "list_all (is_safe_to_call_with_exec linux) cs"
  shows "dangerous_command_match try_parse_shell command = None"
proof -
  note same = zsh_as_bash_script [OF assms(2)]
  have plain: "parse_shell_lc_plain_commands try_parse_shell command = Some cs"
    and script: "extract_bash_command command \<noteq> None"
    using assms(3) same
    by (cases "extract_bash_command command"; auto simp: parse_shell_lc_plain_commands_def split: option.splits)+
  have none: "dangerous_command_match_with_depth try_parse_shell c 1 = None" if "c \<in> set cs" for c
    using that assms(4) safe_program_not_dangerous safe_exec_program by (metis list_all_iff)
  have "find_map (\<lambda>c. dangerous_command_match_with_depth try_parse_shell c 1) ls = None"
    if "parse_shell_lc_literal_commands try_parse_shell command = Some ls" for ls
    using plain_commands_cover_literal [OF assms(1) plain that] none by (auto simp: find_map_None)
  then show ?thesis
    by (cases "parse_shell_lc_literal_commands try_parse_shell command")
      (auto simp: dangerous_command_match_def dangerous_script [OF script])
qed

lemma safe_exec_not_dangerous:
  assumes "is_safe_to_call_with_exec linux (map zsh_as_bash command)"
  shows "dangerous_command_match try_parse_shell command = None"
proof -
  obtain p args f where p: "map zsh_as_bash command = p # args" "path_file_name p = Some f" "f \<in> set safe_programs"
    using assms by (rule safe_exec_program)
  have "path_file_name ''bash'' = Some ''bash''" and "''bash'' \<notin> set safe_programs" by code_simp+
  with p(2,3) have "p \<noteq> ''bash''" by auto
  with p(1) obtain args' where "command = p # args'"
    by (cases command) (auto simp: zsh_as_bash_def split: if_splits)
  with p safe_program_not_dangerous show ?thesis by (simp add: dangerous_command_match_def)
qed

lemma zsh_renamed_script:
  assumes "extract_bash_command (map zsh_as_bash command) = Some x" and "''zsh'' \<in> set (drop 1 command)"
  shows "\<exists>shell. extract_bash_command command = Some (shell, ''zsh'')"
proof -
  obtain a b c where command: "command = [a, b, c]"
    using assms(1) by (auto simp: extract_bash_command_def map_eq_Cons_conv split: list.splits)
  then have flag: "zsh_as_bash b \<in> {''-lc'', ''-c''}" and
    shell: "detect_shell_type (zsh_as_bash a) \<in> {Some Zsh, Some Bash, Some Sh}"
    using assms(1) by (auto simp: extract_bash_command_def split: if_splits)
  have b: "b \<in> {''-lc'', ''-c''}" using flag by (auto simp: zsh_as_bash_def split: if_splits)
  then have "c = ''zsh''" using assms(2) command by auto
  moreover have "detect_shell_type a \<in> {Some Zsh, Some Bash, Some Sh}"
    using shell by (cases "a = ''zsh''") (simp_all add: zsh_as_bash_def detect_shell_type.simps [of "''zsh''"])
  ultimately show ?thesis using b command by (simp add: extract_bash_command_def)
qed

lemma known_safe_not_dangerous:
  assumes "bash_grammar try_parse_shell" and "is_known_safe_command try_parse_shell linux command"
  shows "dangerous_command_match try_parse_shell command = None"
proof (cases "is_safe_to_call_with_exec linux (map zsh_as_bash command)")
  case True
  then show ?thesis by (rule safe_exec_not_dangerous)
next
  case False
  with assms(2) obtain cs where cs: "parse_shell_lc_plain_commands try_parse_shell (map zsh_as_bash command) = Some cs"
    "list_all (is_safe_to_call_with_exec linux) cs"
    by (auto simp: is_known_safe_command_def split: option.splits)
  show ?thesis
  proof (cases "''zsh'' \<in> set (drop 1 command)")
    case True
    have "\<exists>shell'. extract_bash_command command = Some (shell', ''zsh'')"
      using cs(1) True zsh_renamed_script
      by (auto simp: parse_shell_lc_plain_commands_def split: option.splits)
    then show ?thesis using zsh_script_not_dangerous by blast
  next
    case False
    with assms(1) cs show ?thesis by (intro safe_script_not_dangerous)
  qed
qed

section \<open>Properties\<close>

text \<open>C10: The two classifications never contradict each other.  A command that is known to be safe,
  directly or as a shell script of plain commands, is not matched as dangerous at any depth of
  wrappers, provided the parser follows the grammar of Bash.\<close>

theorem known_safe_never_dangerous:
  assumes "bash_grammar try_parse_shell" and "is_known_safe_command try_parse_shell linux command"
  shows "dangerous_command_match try_parse_shell command = None"
  using assms by (rule known_safe_not_dangerous)

definition sample_script :: string where
  "sample_script = ''ls -a''"

definition sample_tree :: tree where
  "sample_tree =
    \<lparr>root_node = Node ''program'' True 0 5
       [Node ''command'' True 0 5 [Node ''command_name'' True 0 2 [Node ''word'' True 0 2 []], Node ''word'' True 3 5 []]],
     has_error = False\<rparr>"

definition sample_parser :: bash_parser where
  "sample_parser script = (if script = sample_script then Some sample_tree else None)"

lemma sample_grammar: "bash_grammar sample_parser"
proof -
  have "bash_shape (root_node sample_tree)"
    by (simp add: sample_tree_def bash_shape_def command_shape_def word_shape_def named_children_def)
  then show ?thesis by (auto simp: bash_grammar_def sample_parser_def split: if_splits)
qed

theorem known_safe_never_dangerous_witness:
  "is_known_safe_command sample_parser True [''zsh'', ''-lc'', sample_script] \<and>
   dangerous_command_match sample_parser [''zsh'', ''-lc'', sample_script] = None"
proof -
  have safe: "is_known_safe_command sample_parser True [''zsh'', ''-lc'', sample_script]" by code_simp
  from known_safe_never_dangerous [OF sample_grammar safe] safe show ?thesis by simp
qed

lemma git_value_options_unsafe:
  "is_git_global_option_with_value arg \<Longrightarrow> git_matches_option_pattern arg UNSAFE_GIT_GLOBAL_OPTIONS"
  "is_git_global_option_with_inline_value arg \<Longrightarrow> git_matches_option_pattern arg UNSAFE_GIT_GLOBAL_OPTIONS"
  by (auto simp: is_git_global_option_with_value_def is_git_global_option_with_inline_value_def
      git_matches_option_pattern_def UNSAFE_GIT_GLOBAL_OPTIONS_def)

lemma find_subcommand_from_shape:
  assumes "find_subcommand_from idx skip args subs = Some (i, sub)"
  shows "\<exists>opts rest. args = opts @ sub # rest \<and> i = idx + length opts \<and> sub \<in> set subs \<and>
    (\<not> skip \<longrightarrow> \<not> git_has_unsafe_global_option opts \<longrightarrow> list_all (\<lambda>opt. starts_with opt ''-'') opts)"
  using assms
proof (induction args arbitrary: idx skip)
  case (Cons arg args)
  show ?case
  proof (cases "\<not> skip \<and> \<not> is_git_global_option_with_inline_value arg \<and> \<not> is_git_global_option_with_value arg
      \<and> \<not> (arg = ''--'' \<or> starts_with arg ''-'')")
    case True
    with Cons.prems have "arg = sub \<and> i = idx \<and> sub \<in> set subs" by (auto split: if_splits)
    then show ?thesis by (intro exI [of _ "[]"] exI [of _ args]) simp
  next
    case False
    then obtain skip' where step: "find_subcommand_from (idx + 1) skip' args subs = Some (i, sub)"
      "skip' \<longrightarrow> \<not> skip \<longrightarrow> git_matches_option_pattern arg UNSAFE_GIT_GLOBAL_OPTIONS"
      using Cons.prems git_value_options_unsafe by (auto split: if_splits)
    obtain opts rest where "args = opts @ sub # rest" "i = idx + 1 + length opts" "sub \<in> set subs"
      "\<not> skip' \<longrightarrow> \<not> git_has_unsafe_global_option opts \<longrightarrow> list_all (\<lambda>opt. starts_with opt ''-'') opts"
      using Cons.IH [OF step(1)] by blast
    moreover have "starts_with arg ''-''"
      if "\<not> skip" "\<not> git_matches_option_pattern arg UNSAFE_GIT_GLOBAL_OPTIONS"
      using that False git_value_options_unsafe by auto
    ultimately show ?thesis using step(2)
      by (intro exI [of _ "arg # opts"] exI [of _ rest]) (auto simp: git_has_unsafe_global_option_def)
  qed
qed simp

lemma find_subcommand_from_options:
  assumes "list_all (\<lambda>opt. starts_with opt ''-'') opts" and "\<not> git_has_unsafe_global_option opts"
    and "sub \<in> set subs" and "list_all (\<lambda>s. \<not> starts_with s ''-'') subs"
  shows "find_subcommand_from idx False (opts @ sub # rest) subs = Some (idx + length opts, sub)"
  using assms(1,2)
proof (induction opts arbitrary: idx)
  case Nil
  have "\<not> starts_with sub ''-''" using assms(3,4) by (auto simp: list_all_iff)
  moreover from this have "\<not> is_git_global_option_with_value sub" "\<not> is_git_global_option_with_inline_value sub"
    by (auto simp: is_git_global_option_with_value_def is_git_global_option_with_inline_value_def starts_with_iff)
  ultimately show ?case using assms(3) by auto
next
  case (Cons opt opts)
  then show ?case
    using git_value_options_unsafe [of opt] by (auto simp: git_has_unsafe_global_option_def)
qed

lemma branch_args_from_all: "branch_args_from b args \<longleftrightarrow> list_all branch_query_flag args \<and> (b \<or> args \<noteq> [])"
  by (induction args arbitrary: b) auto

lemma git_branch_is_read_only_iff: "git_branch_is_read_only args \<longleftrightarrow> list_all branch_query_flag args"
  by (auto simp: git_branch_is_read_only_def branch_args_from_all)

lemma is_safe_git_command_found:
  assumes "find_git_subcommand command [''status'', ''log'', ''diff'', ''show'', ''branch''] = Some (i, sub)"
    and "sub \<in> {''status'', ''log'', ''diff'', ''show'', ''branch''}"
  shows "is_safe_git_command command \<longleftrightarrow>
    \<not> git_has_unsafe_global_option (drop 1 (take i command)) \<and>
    git_subcommand_args_are_read_only (drop (i + 1) command) \<and>
    (sub = ''branch'' \<longrightarrow> git_branch_is_read_only (drop (i + 1) command))"
  unfolding is_safe_git_command_def assms(1) using assms(2) by (auto simp: Let_def)

lemma find_git_subcommand_Some:
  "find_git_subcommand command subs = Some (i, sub) \<longleftrightarrow>
    (\<exists>git rest. command = git # rest \<and> path_file_name git = Some ''git'' \<and>
      find_subcommand_from 1 False rest subs = Some (i, sub))"
  by (cases command) (auto simp: find_git_subcommand_def executable_name_lookup_key_def)

text \<open>The reference: options before the subcommand that are not in the list of unsafe ones, one of
  five reading subcommands, and arguments after it none of which is unsafe; for \<^verbatim>\<open>branch\<close>, only flags
  that list branches.\<close>

definition git_reads :: "string \<Rightarrow> string list \<Rightarrow> string \<Rightarrow> string list \<Rightarrow> bool" where
  "git_reads git opts sub args \<longleftrightarrow>
    path_file_name git = Some ''git'' \<and>
    list_all (\<lambda>opt. starts_with opt ''-'') opts \<and> \<not> git_has_unsafe_global_option opts \<and>
    sub \<in> {''status'', ''log'', ''diff'', ''show'', ''branch''} \<and>
    list_all (\<lambda>arg. \<not> git_matches_option_pattern arg UNSAFE_GIT_SUBCOMMAND_OPTIONS) args \<and>
    (sub = ''branch'' \<longrightarrow> list_all branch_query_flag args)"

lemma safe_git_command_reads:
  assumes "is_safe_git_command command"
  shows "\<exists>git opts sub args. command = git # opts @ sub # args \<and> git_reads git opts sub args"
proof -
  let ?subs = "[''status'', ''log'', ''diff'', ''show'', ''branch'']"
  obtain i sub where find: "find_git_subcommand command ?subs = Some (i, sub)"
    using assms by (cases "find_git_subcommand command ?subs") (auto simp: is_safe_git_command_def)
  then obtain git rest where git: "command = git # rest" "path_file_name git = Some ''git''"
    "find_subcommand_from 1 False rest ?subs = Some (i, sub)"
    unfolding find_git_subcommand_Some by blast
  from find_subcommand_from_shape [OF git(3)] obtain opts args where shape: "rest = opts @ sub # args"
    "i = 1 + length opts" "sub \<in> set ?subs"
    "\<not> git_has_unsafe_global_option opts \<longrightarrow> list_all (\<lambda>opt. starts_with opt ''-'') opts" by blast
  have sub: "sub \<in> {''status'', ''log'', ''diff'', ''show'', ''branch''}" using shape(3) by simp
  have checks: "\<not> git_has_unsafe_global_option opts" "git_subcommand_args_are_read_only args"
    "sub = ''branch'' \<longrightarrow> git_branch_is_read_only args"
    using is_safe_git_command_found [OF find sub] assms shape(1,2) git(1) by simp_all
  have "git_reads git opts sub args"
    unfolding git_reads_def using git(2) sub shape(4) checks
    by (simp only: git_subcommand_args_are_read_only_def git_branch_is_read_only_iff list_all_iff list_ex_iff) simp
  with git(1) shape(1) show ?thesis by blast
qed

lemma git_reads_safe:
  assumes "git_reads git opts sub args"
  shows "is_safe_git_command (git # opts @ sub # args)"
proof -
  let ?subs = "[''status'', ''log'', ''diff'', ''show'', ''branch'']"
  note reads = assms [unfolded git_reads_def]
  have sub: "sub \<in> set ?subs" using reads by simp
  have "list_all (\<lambda>s. \<not> starts_with s ''-'') ?subs" by code_simp
  with reads sub have "find_subcommand_from 1 False (opts @ sub # args) ?subs = Some (1 + length opts, sub)"
    by (intro find_subcommand_from_options) simp_all
  with reads have "find_git_subcommand (git # opts @ sub # args) ?subs = Some (1 + length opts, sub)"
    unfolding find_git_subcommand_Some by simp
  from is_safe_git_command_found [OF this] reads show ?thesis
    by (simp add: git_subcommand_args_are_read_only_def git_branch_is_read_only_iff list_all_iff list_ex_iff)
qed

text \<open>C40: Which Git commands run without asking: exactly those of the reference.  No option that takes a
  value can hide a subcommand, since all of these are unsafe.\<close>

theorem safe_git_commands:
  "is_safe_git_command command \<longleftrightarrow>
    (\<exists>git opts sub args. command = git # opts @ sub # args \<and> git_reads git opts sub args)"
  using safe_git_command_reads git_reads_safe by blast

text \<open>C15: What is dangerous.  The search finds a forced removal exactly if there is one behind at most
  eight wrappers, each of which is \<^verbatim>\<open>sudo\<close>, \<^verbatim>\<open>env\<close> with its assignments, the action of a \<^verbatim>\<open>trap\<close>, or
  a command written literally anywhere in a shell script, and it reports nothing else.\<close>

theorem dangerous_iff_forced_rm:
  "dangerous_command_match try_parse_shell command =
    (if \<exists>n \<le> 8. forced_rm try_parse_shell n command then Some ForcedRm else None)"
proof (cases "dangerous_command_match try_parse_shell command")
  case None
  then have "\<not> (\<exists>n \<le> 8. forced_rm try_parse_shell n command)"
    using forced_rm_dangerous [of try_parse_shell _ command 0]
    by (auto simp: dangerous_command_match_def MAX_DANGEROUS_COMMAND_WRAPPER_DEPTH_def)
  with None show ?thesis by simp
next
  case (Some m)
  then show ?thesis
    using dangerous_match_forced_rm [of try_parse_shell command 0 m]
    by (auto simp: dangerous_command_match_def MAX_DANGEROUS_COMMAND_WRAPPER_DEPTH_def)
qed

text \<open>The argument of \<^verbatim>\<open>sed -n\<close> is a line number or a range of lines followed by \<^verbatim>\<open>p\<close>, as the comment in
  the code says.\<close>

lemma valid_sed_arg:
  "is_valid_sed_n_arg (Some s) \<longleftrightarrow>
    (\<exists>b. b \<noteq> [] \<and> list_all is_ascii_digit b \<and>
      (s = b @ ''p'' \<or> (\<exists>a. a \<noteq> [] \<and> list_all is_ascii_digit a \<and> s = a @ '','' @ b @ ''p'')))"
proof -
  have comma: "CHR '','' \<notin> set a" if "list_all is_ascii_digit a" for a
    using that by (induction a) (auto simp: is_ascii_digit_def byte_def)
  have one: "split_on (CHR '','') core = [b] \<longleftrightarrow> core = b" if "list_all is_ascii_digit b" for core b
    using join_split_on [of "CHR '',''" core] comma [OF that] by auto
  have two: "split_on (CHR '','') core = [a, b] \<longleftrightarrow> core = a @ '','' @ b"
    if "list_all is_ascii_digit a" "list_all is_ascii_digit b" for core a b
    using join_split_on [of "CHR '',''" core] split_on_append [of "CHR '',''" a b] comma that by auto
  have "is_valid_sed_n_arg (Some s) \<longleftrightarrow>
      (\<exists>core. strip_suffix ''p'' s = Some core \<and>
        ((\<exists>b. split_on (CHR '','') core = [b] \<and> b \<noteq> [] \<and> list_all is_ascii_digit b) \<or>
         (\<exists>a b. split_on (CHR '','') core = [a, b] \<and> a \<noteq> [] \<and> b \<noteq> [] \<and> list_all is_ascii_digit a \<and>
           list_all is_ascii_digit b)))"
    by (auto simp: is_valid_sed_n_arg_def split: option.splits list.splits)
  also have "\<dots> \<longleftrightarrow> (\<exists>b. b \<noteq> [] \<and> list_all is_ascii_digit b \<and>
      (s = b @ ''p'' \<or> (\<exists>a. a \<noteq> [] \<and> list_all is_ascii_digit a \<and> s = a @ '','' @ b @ ''p'')))"
    (is "?l = ?r")
  proof
    assume ?l
    then obtain core where core: "s = core @ ''p''" and
      "(\<exists>b. split_on (CHR '','') core = [b] \<and> b \<noteq> [] \<and> list_all is_ascii_digit b) \<or>
       (\<exists>a b. split_on (CHR '','') core = [a, b] \<and> a \<noteq> [] \<and> b \<noteq> [] \<and> list_all is_ascii_digit a \<and> list_all is_ascii_digit b)"
      by (auto simp: strip_suffix_Some)
    then show ?r using one two by (elim disjE exE conjE) (metis append.assoc)+
  next
    assume ?r
    then obtain b where b: "b \<noteq> []" "list_all is_ascii_digit b"
      "s = b @ ''p'' \<or> (\<exists>a. a \<noteq> [] \<and> list_all is_ascii_digit a \<and> s = a @ '','' @ b @ ''p'')" by blast
    from b(3) show ?l
    proof (elim disjE exE conjE)
      assume "s = b @ ''p''"
      with b(1,2) one [OF b(2), of b] show ?l by (intro exI [of _ b]) (auto simp: strip_suffix_Some)
    next
      fix a assume "a \<noteq> []" "list_all is_ascii_digit a" "s = a @ '','' @ b @ ''p''"
      with b(1,2) two [OF _ b(2), of a "a @ '','' @ b"] show ?l
        by (intro exI [of _ "a @ '','' @ b"]) (auto simp: strip_suffix_Some)
    qed
  qed
  finally show ?thesis .
qed

text \<open>Bundled short options are not recognised: \<^verbatim>\<open>rg -nz\<close> passes although it searches compressed files
  like \<^verbatim>\<open>rg -z\<close>, which is refused.\<close>

lemma bundled_search_zip_passes:
  "is_safe_to_call_with_exec linux [''rg'', ''-nz'', pat]
     = (\<not> unsafe_ripgrep_arg pat)"
  "\<not> is_safe_to_call_with_exec linux [''rg'', ''-n'', ''-z'', pat]"
proof -
  have name: "path_file_name ''rg'' = Some ''rg''" by code_simp
  have args: "\<not> unsafe_ripgrep_arg ''rg''" "\<not> unsafe_ripgrep_arg ''-nz''" "unsafe_ripgrep_arg ''-z''" by code_simp+
  have other: "''rg'' \<notin> set read_only_programs" by code_simp
  show "is_safe_to_call_with_exec linux [''rg'', ''-nz'', pat] = (\<not> unsafe_ripgrep_arg pat)"
    "\<not> is_safe_to_call_with_exec linux [''rg'', ''-n'', ''-z'', pat]"
    using args other by (simp_all add: is_safe_to_call_with_exec_def executable_name_lookup_key_def name)
qed

end
