(* ===== verification/Exec_Policy.thy ===== *)
theory Exec_Policy
  imports Prelude "HOL-Library.List_Lexorder" "HOL-Library.Char_ord" "HOL-Library.Multiset"
begin

text \<open>
  \<open>codex-rs/execpolicy/src/{decision,rule,policy,executable_name}.rs\<close>: which decision a policy gives
  for a command.

  A policy's rules are a multimap from the first token of a rule to the rule; here it is the list of
  its insertions, whose \<open>get_vec\<close> is the rules filed under a key, in order.  What the operating system
  contributes (absolute paths, file names, the Windows build) is a record of parameters.
  \<open>Evaluation::from_matches\<close> panics on an empty list, so evaluations are options.
\<close>

section \<open>Decisions\<close>

datatype decision = Allow | Prompt | Forbidden

datatype text_range = TextRange (range_start: "nat \<times> nat") (range_end: "nat \<times> nat")

record error_location =
  location_path :: string
  location_range :: text_range

fun decision_rank :: "decision \<Rightarrow> nat" where
  "decision_rank Allow = 0"
| "decision_rank Prompt = 1"
| "decision_rank Forbidden = 2"

instantiation decision :: linorder
begin

definition less_eq_decision :: "decision \<Rightarrow> decision \<Rightarrow> bool" where
  "less_eq_decision a b \<longleftrightarrow> decision_rank a \<le> decision_rank b"

definition less_decision :: "decision \<Rightarrow> decision \<Rightarrow> bool" where
  "less_decision a b \<longleftrightarrow> decision_rank a < decision_rank b"

instance
proof
  fix a b :: decision
  assume "a \<le> b" "b \<le> a"
  then show "a = b" by (cases a; cases b) (simp_all add: less_eq_decision_def)
qed (auto simp: less_eq_decision_def less_decision_def)

end

section \<open>Rules\<close>

datatype pattern_token = Single string | Alts "string list"

fun token_matches :: "pattern_token \<Rightarrow> string \<Rightarrow> bool" where
  "token_matches (Single expected) token = (expected = token)"
| "token_matches (Alts alternatives) token = list_ex (\<lambda>alt. alt = token) alternatives"

fun alternatives :: "pattern_token \<Rightarrow> string list" where
  "alternatives (Single expected) = [expected]"
| "alternatives (Alts alts) = alts"

record prefix_pattern =
  first :: string
  rest :: "pattern_token list"

definition matches_prefix :: "prefix_pattern \<Rightarrow> string list \<Rightarrow> string list option" where
  "matches_prefix p cmd =
     (let pattern_length = length (rest p) + 1 in
      if length cmd < pattern_length \<or> cmd ! 0 \<noteq> first p then None
      else if list_ex (\<lambda>(pattern_token, cmd_token). \<not> token_matches pattern_token cmd_token)
                (zip (rest p) (drop 1 (take pattern_length cmd)))
      then None
      else Some (take pattern_length cmd))"

datatype rule_match =
    PrefixRuleMatch (matched_prefix: "string list") (match_decision: decision)
      (resolved_program: "string option") (match_justification: "string option")
  | HeuristicsRuleMatch (match_command: "string list") (match_decision: decision)

fun with_resolved_program :: "string \<Rightarrow> rule_match \<Rightarrow> rule_match" where
  "with_resolved_program program (PrefixRuleMatch pre d _ j) = PrefixRuleMatch pre d (Some program) j"
| "with_resolved_program program (HeuristicsRuleMatch cmd d) = HeuristicsRuleMatch cmd d"

record prefix_rule =
  pattern :: prefix_pattern
  rule_decision :: decision
  rule_justification :: "string option"

text \<open>The trait \<open>Rule\<close> as \<open>PrefixRule\<close> implements it.\<close>

definition rule_program :: "prefix_rule \<Rightarrow> string" where
  "rule_program r = first (pattern r)"

definition rule_matches :: "prefix_rule \<Rightarrow> string list \<Rightarrow> rule_match option" where
  "rule_matches r cmd =
     map_option (\<lambda>pre. PrefixRuleMatch pre (rule_decision r) None (rule_justification r))
       (matches_prefix (pattern r) cmd)"

datatype network_rule_protocol = Http | Https | Socks5Tcp | Socks5Udp

record network_rule =
  host :: string
  protocol :: network_rule_protocol
  network_decision :: decision
  network_justification :: "string option"

datatype policy_error =
    InvalidDecision string
  | InvalidPattern string
  | InvalidExample string
  | InvalidRule string
  | ExampleDidNotMatch "prefix_rule list" "string list list" "error_location option"
  | ExampleDidMatch rule_match "string list" "error_location option"
  | Starlark string

definition decision_parse :: "string \<Rightarrow> policy_error + decision" where
  "decision_parse raw =
     (if raw = ''allow'' then Inr Allow
      else if raw = ''prompt'' then Inr Prompt
      else if raw = ''forbidden'' then Inr Forbidden
      else Inl (InvalidDecision raw))"

definition protocol_parse :: "string \<Rightarrow> policy_error + network_rule_protocol" where
  "protocol_parse raw =
     (if raw = ''http'' then Inr Http
      else if raw \<in> {''https'', ''https_connect'', ''http-connect''} then Inr Https
      else if raw = ''socks5_tcp'' then Inr Socks5Tcp
      else if raw = ''socks5_udp'' then Inr Socks5Udp
      else Inl (InvalidRule (''network_rule protocol must be one of http, https, socks5_tcp, socks5_udp (got ''
                 @ raw @ '')'')))"

fun as_policy_string :: "network_rule_protocol \<Rightarrow> string" where
  "as_policy_string Http = ''http''"
| "as_policy_string Https = ''https''"
| "as_policy_string Socks5Tcp = ''socks5_tcp''"
| "as_policy_string Socks5Udp = ''socks5_udp''"

section \<open>Network hosts\<close>

definition all_digits :: "string \<Rightarrow> bool" where
  "all_digits s \<longleftrightarrow> s \<noteq> [] \<and> list_all is_ascii_digit s"

definition trim_end_dots :: "string \<Rightarrow> string" where
  "trim_end_dots s = rev (dropWhile (\<lambda>c. c = CHR ''.'') (rev s))"

definition host_without_port :: "string \<Rightarrow> string \<Rightarrow> policy_error + string" where
  "host_without_port raw s =
     (case strip_prefix ''['' s of
        Some stripped \<Rightarrow>
          (case split_once (CHR '']'') stripped of
             None \<Rightarrow> Inl (InvalidRule ''network_rule host has an invalid bracketed IPv6 literal'')
           | Some (inside, suffix) \<Rightarrow>
               (let port_ok = (case strip_prefix '':'' suffix of Some port \<Rightarrow> all_digits port | None \<Rightarrow> False)
                in if suffix \<noteq> [] \<and> \<not> port_ok then
                     Inl (InvalidRule (''network_rule host contains an unsupported suffix: '' @ raw))
                   else Inr inside))
      | None \<Rightarrow>
          if length (filter (\<lambda>c. c = CHR '':'') s) = 1 then
            (case rsplit_once (CHR '':'') s of
               Some (candidate, port) \<Rightarrow>
                 if candidate \<noteq> [] \<and> all_digits port then Inr candidate else Inr s
             | None \<Rightarrow> Inr s)
          else Inr s)"

definition normalize_network_rule_host :: "string \<Rightarrow> policy_error + string" where
  "normalize_network_rule_host raw =
     (let s = trim raw in
      if s = [] then Inl (InvalidRule ''network_rule host cannot be empty'')
      else if str_contains s ''://'' \<or> CHR ''/'' \<in> set s \<or> CHR ''?'' \<in> set s \<or> CHR ''#'' \<in> set s then
        Inl (InvalidRule ''network_rule host must be a hostname or IP literal (without scheme or path)'')
      else and_then (host_without_port raw s) (\<lambda>s.
        let normalized = to_ascii_lowercase (trim (trim_end_dots s)) in
        if normalized = [] then Inl (InvalidRule ''network_rule host cannot be empty'')
        else if CHR ''*'' \<in> set normalized then
          Inl (InvalidRule ''network_rule host must be a specific host; wildcards are not allowed'')
        else if has_whitespace normalized then
          Inl (InvalidRule ''network_rule host cannot contain whitespace'')
        else Inr normalized))"

section \<open>Executable names\<close>

record host_env =
  windows :: bool
  absolute_path :: "string \<Rightarrow> string + string"
  file_name :: "string \<Rightarrow> string option"
  is_absolute :: "string \<Rightarrow> bool"
  component_count :: "string \<Rightarrow> nat"
  shlex_split :: "string \<Rightarrow> string list option"

definition WINDOWS_EXECUTABLE_SUFFIXES :: "string list" where
  "WINDOWS_EXECUTABLE_SUFFIXES = [''.exe'', ''.cmd'', ''.bat'', ''.com'']"

definition executable_lookup_key :: "host_env \<Rightarrow> string \<Rightarrow> string" where
  "executable_lookup_key env raw =
     (if windows env then
        (let raw = to_ascii_lowercase raw in
         case find (ends_with raw) WINDOWS_EXECUTABLE_SUFFIXES of
           Some suffix \<Rightarrow> take (length raw - length suffix) raw
         | None \<Rightarrow> raw)
      else raw)"

definition executable_path_lookup_key :: "host_env \<Rightarrow> string \<Rightarrow> string option" where
  "executable_path_lookup_key env p = map_option (executable_lookup_key env) (file_name env p)"

section \<open>Policies\<close>

record match_options =
  resolve_host_executables :: bool

definition default_options :: match_options where
  "default_options = \<lparr>resolve_host_executables = False\<rparr>"

type_synonym rule_multimap = "(string \<times> prefix_rule) list"

record policy =
  rules_by_program :: rule_multimap
  network_rules :: "network_rule list"
  host_executables_by_name :: "(string \<times> string list) list"

text \<open>\<open>MultiMap::get_vec\<close> and \<open>HashMap::insert\<close>.\<close>

definition get_vec :: "rule_multimap \<Rightarrow> string \<Rightarrow> prefix_rule list option" where
  "get_vec m k =
     (if list_ex (\<lambda>(k', _). k' = k) m then Some (map snd (filter (\<lambda>(k', _). k' = k) m)) else None)"

definition hash_insert :: "'k \<Rightarrow> 'v \<Rightarrow> ('k \<times> 'v) list \<Rightarrow> ('k \<times> 'v) list" where
  "hash_insert k v m = (k, v) # filter (\<lambda>(k', _). k' \<noteq> k) m"

definition policy_empty :: policy where
  "policy_empty = \<lparr>rules_by_program = [], network_rules = [], host_executables_by_name = []\<rparr>"

definition render_pattern_token :: "pattern_token \<Rightarrow> string" where
  "render_pattern_token token =
     (case token of Single value \<Rightarrow> value | Alts alts \<Rightarrow> ''['' @ join ''|'' alts @ '']'')"

definition allowed_prefix :: "prefix_rule \<Rightarrow> string list" where
  "allowed_prefix r = first (pattern r) # map render_pattern_token (rest (pattern r))"

definition get_allowed_prefixes :: "policy \<Rightarrow> string list list" where
  "get_allowed_prefixes p =
     remdups_adj (sort (map allowed_prefix
       (filter (\<lambda>r. rule_decision r = Allow) (map snd (rules_by_program p)))))"

definition single_rule :: "string \<Rightarrow> string list \<Rightarrow> decision \<Rightarrow> prefix_rule" where
  "single_rule first_token rest_tokens d =
     \<lparr>pattern = \<lparr>first = first_token, rest = map Single rest_tokens\<rparr>, rule_decision = d,
      rule_justification = None\<rparr>"

definition add_prefix_rule :: "policy \<Rightarrow> string list \<Rightarrow> decision \<Rightarrow> policy_error + policy" where
  "add_prefix_rule p prefix d =
     (case prefix of
        [] \<Rightarrow> Inl (InvalidPattern ''prefix cannot be empty'')
      | first_token # rest_tokens \<Rightarrow>
          Inr (p\<lparr>rules_by_program :=
            rules_by_program p @ [(first_token, single_rule first_token rest_tokens d)]\<rparr>))"

definition justification_blank :: "string option \<Rightarrow> bool" where
  "justification_blank j = (case j of Some raw \<Rightarrow> trim raw = [] | None \<Rightarrow> False)"

definition add_network_rule ::
  "policy \<Rightarrow> string \<Rightarrow> network_rule_protocol \<Rightarrow> decision \<Rightarrow> string option \<Rightarrow> policy_error + policy" where
  "add_network_rule p h proto d j =
     and_then (normalize_network_rule_host h) (\<lambda>h.
       if justification_blank j then Inl (InvalidRule ''justification cannot be empty'')
       else Inr (p\<lparr>network_rules := network_rules p @
              [\<lparr>host = h, protocol = proto, network_decision = d, network_justification = j\<rparr>]\<rparr>))"

definition set_host_executable_paths :: "policy \<Rightarrow> string \<Rightarrow> string list \<Rightarrow> policy" where
  "set_host_executable_paths p name paths =
     p\<lparr>host_executables_by_name := hash_insert name paths (host_executables_by_name p)\<rparr>"

definition merge_overlay :: "policy \<Rightarrow> policy \<Rightarrow> policy" where
  "merge_overlay p overlay =
     \<lparr>rules_by_program = rules_by_program p @ rules_by_program overlay,
      network_rules = network_rules p @ network_rules overlay,
      host_executables_by_name =
        fold (\<lambda>(name, paths). hash_insert name paths) (host_executables_by_name overlay)
          (host_executables_by_name p)\<rparr>"

definition upsert_domain :: "string list \<Rightarrow> string \<Rightarrow> string list" where
  "upsert_domain entries h = filter (\<lambda>entry. entry \<noteq> h) entries @ [h]"

definition compile_network_rule :: "network_rule \<Rightarrow> string list \<times> string list \<Rightarrow> string list \<times> string list" where
  "compile_network_rule r = (\<lambda>(allowed, denied).
     case network_decision r of
       Allow \<Rightarrow> (upsert_domain allowed (host r), filter (\<lambda>entry. entry \<noteq> host r) denied)
     | Forbidden \<Rightarrow> (filter (\<lambda>entry. entry \<noteq> host r) allowed, upsert_domain denied (host r))
     | Prompt \<Rightarrow> (allowed, denied))"

definition compiled_network_domains :: "policy \<Rightarrow> string list \<times> string list" where
  "compiled_network_domains p = fold compile_network_rule (network_rules p) ([], [])"

section \<open>Matching commands\<close>

definition match_exact_rules :: "policy \<Rightarrow> string list \<Rightarrow> rule_match list option" where
  "match_exact_rules p cmd =
     (case cmd of
        [] \<Rightarrow> None
      | first_token # _ \<Rightarrow>
          Some (case get_vec (rules_by_program p) first_token of
                  Some rules \<Rightarrow> List.map_filter (\<lambda>r. rule_matches r cmd) rules
                | None \<Rightarrow> []))"

definition match_host_executable_rules :: "host_env \<Rightarrow> policy \<Rightarrow> string list \<Rightarrow> rule_match list" where
  "match_host_executable_rules env p cmd =
     (case cmd of
        [] \<Rightarrow> []
      | first_token # args \<Rightarrow>
          (case absolute_path env first_token of
             Inl _ \<Rightarrow> []
           | Inr program \<Rightarrow>
          (case executable_path_lookup_key env program of
             None \<Rightarrow> []
           | Some basename \<Rightarrow>
          (case get_vec (rules_by_program p) basename of
             None \<Rightarrow> []
           | Some rules \<Rightarrow>
               if (case map_of (host_executables_by_name p) basename of
                     Some paths \<Rightarrow> \<not> list_ex (\<lambda>pth. pth = program) paths | None \<Rightarrow> False)
               then []
               else map (with_resolved_program program)
                      (List.map_filter (\<lambda>r. rule_matches r (basename # args)) rules)))))"

text \<open>\<open>Option::filter\<close>, \<open>or_else\<close> and \<open>unwrap_or_default\<close> on a list that counts only when non-empty.\<close>

definition matches_for_command_with_options ::
  "host_env \<Rightarrow> policy \<Rightarrow> string list \<Rightarrow> (string list \<Rightarrow> decision) option \<Rightarrow> match_options \<Rightarrow> rule_match list" where
  "matches_for_command_with_options env p cmd fallback opts =
     (let matched_rules =
        (case match_exact_rules p cmd of
           Some (m # ms) \<Rightarrow> m # ms
         | _ \<Rightarrow> if resolve_host_executables opts then match_host_executable_rules env p cmd else [])
      in case (matched_rules, fallback) of
           ([], Some heuristics) \<Rightarrow> [HeuristicsRuleMatch cmd (heuristics cmd)]
         | _ \<Rightarrow> matched_rules)"

record evaluation =
  eval_decision :: decision
  matched_rules :: "rule_match list"

fun max_decision :: "decision list \<Rightarrow> decision option" where
  "max_decision [] = None"
| "max_decision (d # ds) = Some (fold max ds d)"

definition from_matches :: "rule_match list \<Rightarrow> evaluation option" where
  "from_matches ms =
     map_option (\<lambda>d. \<lparr>eval_decision = d, matched_rules = ms\<rparr>) (max_decision (map match_decision ms))"

definition is_match :: "evaluation \<Rightarrow> bool" where
  "is_match e \<longleftrightarrow>
     list_ex (\<lambda>m. case m of HeuristicsRuleMatch _ _ \<Rightarrow> False | _ \<Rightarrow> True) (matched_rules e)"

definition check_with_options ::
  "host_env \<Rightarrow> policy \<Rightarrow> string list \<Rightarrow> (string list \<Rightarrow> decision) \<Rightarrow> match_options \<Rightarrow> evaluation option" where
  "check_with_options env p cmd heuristics opts =
     from_matches (matches_for_command_with_options env p cmd (Some heuristics) opts)"

definition check :: "host_env \<Rightarrow> policy \<Rightarrow> string list \<Rightarrow> (string list \<Rightarrow> decision) \<Rightarrow> evaluation option" where
  "check env p cmd heuristics =
     from_matches (matches_for_command_with_options env p cmd (Some heuristics) default_options)"

definition check_multiple_with_options ::
  "host_env \<Rightarrow> policy \<Rightarrow> string list list \<Rightarrow> (string list \<Rightarrow> decision) \<Rightarrow> match_options \<Rightarrow> evaluation option" where
  "check_multiple_with_options env p cmds heuristics opts =
     from_matches (concat (map (\<lambda>cmd.
       matches_for_command_with_options env p cmd (Some heuristics) opts) cmds))"

definition check_multiple ::
  "host_env \<Rightarrow> policy \<Rightarrow> string list list \<Rightarrow> (string list \<Rightarrow> decision) \<Rightarrow> evaluation option" where
  "check_multiple env p cmds heuristics = check_multiple_with_options env p cmds heuristics default_options"

section \<open>Examples\<close>

definition example_options :: match_options where
  "example_options = \<lparr>resolve_host_executables = True\<rparr>"

definition validate_match_examples ::
  "host_env \<Rightarrow> policy \<Rightarrow> prefix_rule list \<Rightarrow> string list list \<Rightarrow> policy_error + unit" where
  "validate_match_examples env p rules matches =
     (let unmatched =
        filter (\<lambda>ex. matches_for_command_with_options env p ex None example_options = []) matches
      in if unmatched = [] then Inr () else Inl (ExampleDidNotMatch rules unmatched None))"

fun validate_not_match_examples ::
  "host_env \<Rightarrow> policy \<Rightarrow> string list list \<Rightarrow> policy_error + unit" where
  "validate_not_match_examples env p [] = Inr ()"
| "validate_not_match_examples env p (ex # exs) =
     (case matches_for_command_with_options env p ex None example_options of
        m # _ \<Rightarrow> Inl (ExampleDidMatch m ex None)
      | [] \<Rightarrow> validate_not_match_examples env p exs)"

section \<open>Prefix patterns\<close>

lemma token_matches_iff: "token_matches tok t \<longleftrightarrow> t \<in> set (alternatives tok)"
  by (cases tok) (auto simp: list_ex_iff)

text \<open>The reference meaning of a pattern: the token lists it stands for.\<close>

definition expansions :: "prefix_pattern \<Rightarrow> string list set" where
  "expansions p = {first p # ts | ts. list_all2 (\<lambda>tok t. t \<in> set (alternatives tok)) (rest p) ts}"

lemma matches_prefix_expansion:
  "matches_prefix p cmd = Some pre \<longleftrightarrow> pre \<in> expansions p \<and> (\<exists>more. cmd = pre @ more)"
proof (cases cmd)
  case Nil
  then show ?thesis by (auto simp: matches_prefix_def expansions_def)
next
  case (Cons c cs)
  let ?n = "length (rest p)"
  have ok: "\<not> list_ex (\<lambda>(tok, t). \<not> token_matches tok t) (zip (rest p) (take ?n cs)) \<longleftrightarrow>
      list_all2 (\<lambda>tok t. t \<in> set (alternatives tok)) (rest p) (take ?n cs)" if "?n \<le> length cs"
    using that by (auto simp: list_ex_iff list_all2_iff token_matches_iff)
  have "matches_prefix p cmd = Some pre \<longleftrightarrow>
      ?n \<le> length cs \<and> c = first p \<and> pre = c # take ?n cs \<and>
      list_all2 (\<lambda>tok t. t \<in> set (alternatives tok)) (rest p) (take ?n cs)"
    using ok by (auto simp: matches_prefix_def Let_def Cons)
  also have "\<dots> \<longleftrightarrow> pre \<in> expansions p \<and> (\<exists>more. cmd = pre @ more)"
  proof
    assume *: "?n \<le> length cs \<and> c = first p \<and> pre = c # take ?n cs \<and>
      list_all2 (\<lambda>tok t. t \<in> set (alternatives tok)) (rest p) (take ?n cs)"
    then have "cmd = pre @ drop ?n cs" by (simp add: Cons)
    moreover have "pre \<in> expansions p" using * by (auto simp: expansions_def)
    ultimately show "pre \<in> expansions p \<and> (\<exists>more. cmd = pre @ more)" by blast
  next
    assume "pre \<in> expansions p \<and> (\<exists>more. cmd = pre @ more)"
    then obtain ts more where ts: "list_all2 (\<lambda>tok t. t \<in> set (alternatives tok)) (rest p) ts"
      and "pre = first p # ts" "c = first p" "cs = ts @ more"
      by (auto simp: expansions_def Cons)
    moreover have "?n = length ts" using ts by (rule list_all2_lengthD)
    ultimately show "?n \<le> length cs \<and> c = first p \<and> pre = c # take ?n cs \<and>
      list_all2 (\<lambda>tok t. t \<in> set (alternatives tok)) (rest p) (take ?n cs)"
      by simp
  qed
  finally show ?thesis .
qed

lemma rule_matches_iff:
  "rule_matches r cmd = Some m \<longleftrightarrow>
     (\<exists>pre more. cmd = pre @ more \<and> pre \<in> expansions (pattern r) \<and>
        m = PrefixRuleMatch pre (rule_decision r) None (rule_justification r))"
  by (auto simp: rule_matches_def matches_prefix_expansion)

section \<open>The index by program\<close>

text \<open>
  The contract of the trait \<open>Rule\<close> that the policy's index relies on: a rule matches only commands
  whose first token is the rule's program.  Then looking up the first token loses no match.
\<close>

locale indexed_rules =
  fixes program :: "'r \<Rightarrow> string"
    and matches :: "'r \<Rightarrow> string list \<Rightarrow> 'm option"
  assumes matches_head: "matches r cmd = Some m \<Longrightarrow> cmd \<noteq> [] \<and> hd cmd = program r"
begin

lemma other_program_no_match: "program r \<noteq> k \<Longrightarrow> matches r (k # args) = None"
  using matches_head by fastforce

lemma empty_command_no_match: "matches r [] = None"
  using matches_head by fastforce

lemma index_complete:
  assumes "\<forall>(k, r) \<in> set idx. k = program r"
  shows "List.map_filter (\<lambda>r. matches r (c # args)) (map snd (filter (\<lambda>(k, _). k = c) idx)) =
    List.map_filter (\<lambda>r. matches r (c # args)) (map snd idx)"
  using assms by (induction idx) (auto simp: other_program_no_match dest: matches_head split: option.splits)

end

interpretation prefix_rules: indexed_rules rule_program rule_matches
  by unfold_locales (auto simp: rule_matches_iff expansions_def rule_program_def)

definition well_keyed :: "policy \<Rightarrow> bool" where
  "well_keyed p \<longleftrightarrow> (\<forall>(k, r) \<in> set (rules_by_program p). k = rule_program r)"

definition matching :: "policy \<Rightarrow> string list \<Rightarrow> rule_match list" where
  "matching p cmd = List.map_filter (\<lambda>r. rule_matches r cmd) (map snd (rules_by_program p))"

lemma map_filter_none: "(\<And>x. x \<in> set xs \<Longrightarrow> f x = None) \<Longrightarrow> List.map_filter f xs = []"
  by (induction xs) auto

lemma matching_Nil [simp]: "matching p [] = []"
  by (simp add: matching_def map_filter_none prefix_rules.empty_command_no_match)

lemma get_vec_matches:
  assumes "well_keyed p"
  shows "(case get_vec (rules_by_program p) c of
      Some rules \<Rightarrow> List.map_filter (\<lambda>r. rule_matches r (c # args)) rules | None \<Rightarrow> []) =
    matching p (c # args)"
proof (cases "get_vec (rules_by_program p) c")
  case None
  then have "program \<noteq> c" if "(program, r) \<in> set (rules_by_program p)" for program r
    using that by (auto simp: get_vec_def list_ex_iff split: if_splits)
  then have "rule_matches r (c # args) = None" if "r \<in> set (map snd (rules_by_program p))" for r
    using that assms prefix_rules.other_program_no_match by (fastforce simp: well_keyed_def)
  then have "matching p (c # args) = []"
    unfolding matching_def by (rule map_filter_none)
  with None show ?thesis by simp
next
  case (Some rules)
  with assms show ?thesis
    by (auto simp: get_vec_def matching_def well_keyed_def prefix_rules.index_complete split: if_splits)
qed

lemma match_exact_rules_matching:
  assumes "well_keyed p"
  shows "(case match_exact_rules p cmd of Some ms \<Rightarrow> ms | None \<Rightarrow> []) = matching p cmd"
  using get_vec_matches [OF assms] by (cases cmd) (auto simp: match_exact_rules_def)

section \<open>Evaluations\<close>

lemma max_decision_Max: "max_decision ds = (if ds = [] then None else Some (Max (set ds)))"
  by (cases ds) (simp_all add: Max.set_eq_fold del: set_simps(2) flip: set_simps(2))

lemma from_matches_eq:
  "from_matches ms =
     (if ms = [] then None
      else Some \<lparr>eval_decision = Max (match_decision ` set ms), matched_rules = ms\<rparr>)"
  by (simp add: from_matches_def max_decision_Max)

text \<open>With a heuristics fallback there is always a match, so no evaluation panics.\<close>

lemma matches_with_fallback_not_Nil:
  "matches_for_command_with_options env p cmd (Some heuristics) opts \<noteq> []"
  by (auto simp: matches_for_command_with_options_def Let_def split: list.splits)

lemma matches_default:
  assumes "well_keyed p"
  shows "matches_for_command_with_options env p cmd (Some heuristics) default_options =
    (if matching p cmd = [] then [HeuristicsRuleMatch cmd (heuristics cmd)] else matching p cmd)"
  using match_exact_rules_matching [OF assms, of cmd]
  by (auto simp: matches_for_command_with_options_def default_options_def Let_def
      split: option.splits list.splits)

lemma check_eq:
  assumes "well_keyed p"
  shows "check env p cmd heuristics =
    Some (if matching p cmd = []
          then \<lparr>eval_decision = heuristics cmd, matched_rules = [HeuristicsRuleMatch cmd (heuristics cmd)]\<rparr>
          else \<lparr>eval_decision = Max (match_decision ` set (matching p cmd)), matched_rules = matching p cmd\<rparr>)"
  by (simp add: check_def matches_default [OF assms] from_matches_eq)

section \<open>Policies stay indexed\<close>

lemma well_keyed_empty: "well_keyed policy_empty"
  by (simp add: well_keyed_def policy_empty_def)

lemma well_keyed_add_prefix_rule: "well_keyed p \<Longrightarrow> add_prefix_rule p pre d = Inr p' \<Longrightarrow> well_keyed p'"
  by (auto simp: add_prefix_rule_def well_keyed_def single_rule_def rule_program_def split: list.splits)

lemma well_keyed_merge: "well_keyed p \<Longrightarrow> well_keyed q \<Longrightarrow> well_keyed (merge_overlay p q)"
  by (auto simp: merge_overlay_def well_keyed_def)

lemma map_filter_append: "List.map_filter f (xs @ ys) = List.map_filter f xs @ List.map_filter f ys"
  by (induction xs) (auto split: option.splits)

lemma matching_merge: "matching (merge_overlay p q) cmd = matching p cmd @ matching q cmd"
  by (simp add: matching_def merge_overlay_def map_filter_append)

section \<open>Network domains\<close>

text \<open>The reference: the last rule about a host that allows or denies it.\<close>

fun last_verdict :: "network_rule list \<Rightarrow> string \<Rightarrow> decision option" where
  "last_verdict [] h = None"
| "last_verdict (r # rs) h =
     (case last_verdict rs h of
        Some d \<Rightarrow> Some d
      | None \<Rightarrow> if host r = h \<and> network_decision r \<noteq> Prompt then Some (network_decision r) else None)"

definition domains_inv :: "string list \<times> string list \<Rightarrow> bool" where
  "domains_inv ad \<longleftrightarrow>
     distinct (fst ad) \<and> distinct (snd ad) \<and> set (fst ad) \<inter> set (snd ad) = {}"

lemma compile_network_rule_inv: "domains_inv ad \<Longrightarrow> domains_inv (compile_network_rule r ad)"
  by (cases "network_decision r")
    (auto simp: domains_inv_def compile_network_rule_def upsert_domain_def split: prod.splits)

lemma compile_network_rule_sets:
  "network_decision r = Allow \<Longrightarrow>
     set (fst (compile_network_rule r ad)) = insert (host r) (set (fst ad)) \<and>
     set (snd (compile_network_rule r ad)) = set (snd ad) - {host r}"
  "network_decision r = Forbidden \<Longrightarrow>
     set (fst (compile_network_rule r ad)) = set (fst ad) - {host r} \<and>
     set (snd (compile_network_rule r ad)) = insert (host r) (set (snd ad))"
  "network_decision r = Prompt \<Longrightarrow> compile_network_rule r ad = ad"
  by (auto simp: compile_network_rule_def upsert_domain_def split: prod.splits)

lemma compile_network_rules:
  assumes "domains_inv ad"
  shows "domains_inv (fold compile_network_rule rs ad)"
    and "h \<in> set (fst (fold compile_network_rule rs ad)) \<longleftrightarrow>
      (case last_verdict rs h of Some d \<Rightarrow> d = Allow | None \<Rightarrow> h \<in> set (fst ad))"
    and "h \<in> set (snd (fold compile_network_rule rs ad)) \<longleftrightarrow>
      (case last_verdict rs h of Some d \<Rightarrow> d = Forbidden | None \<Rightarrow> h \<in> set (snd ad))"
proof -
  have "domains_inv (fold compile_network_rule rs ad) \<and>
    (h \<in> set (fst (fold compile_network_rule rs ad)) \<longleftrightarrow>
      (case last_verdict rs h of Some d \<Rightarrow> d = Allow | None \<Rightarrow> h \<in> set (fst ad))) \<and>
    (h \<in> set (snd (fold compile_network_rule rs ad)) \<longleftrightarrow>
      (case last_verdict rs h of Some d \<Rightarrow> d = Forbidden | None \<Rightarrow> h \<in> set (snd ad)))"
    using assms
  proof (induction rs arbitrary: ad)
    case (Cons r rs)
    note IH = Cons.IH [OF compile_network_rule_inv [OF Cons.prems], of r]
    show ?case
      using IH compile_network_rule_sets [of r ad]
      by (cases "network_decision r") (auto split: option.splits)
  qed simp
  then show "domains_inv (fold compile_network_rule rs ad)"
    and "h \<in> set (fst (fold compile_network_rule rs ad)) \<longleftrightarrow>
      (case last_verdict rs h of Some d \<Rightarrow> d = Allow | None \<Rightarrow> h \<in> set (fst ad))"
    and "h \<in> set (snd (fold compile_network_rule rs ad)) \<longleftrightarrow>
      (case last_verdict rs h of Some d \<Rightarrow> d = Forbidden | None \<Rightarrow> h \<in> set (snd ad))"
    by blast+
qed

section \<open>Properties\<close>

text \<open>
  C18: the decision for a command is the strictest decision of all the policy's rules that match it,
  and the fallback's only if no rule matches.  The index by first token loses no match, and the
  evaluation never panics.
\<close>

theorem check_strictest_match:
  assumes "well_keyed p"
  shows "check env p cmd heuristics =
    Some (if matching p cmd = []
          then \<lparr>eval_decision = heuristics cmd, matched_rules = [HeuristicsRuleMatch cmd (heuristics cmd)]\<rparr>
          else \<lparr>eval_decision = Max (match_decision ` set (matching p cmd)), matched_rules = matching p cmd\<rparr>)"
  using assms by (rule check_eq)

definition sample_policy :: policy where
  "sample_policy =
     \<lparr>rules_by_program =
        [(''git'', \<lparr>pattern = \<lparr>first = ''git'', rest = [Alts [''push'', ''reset'']]\<rparr>, rule_decision = Prompt,
           rule_justification = None\<rparr>),
         (''ls'', single_rule ''ls'' [] Allow),
         (''git'', single_rule ''git'' [''push'', ''--force''] Forbidden)],
      network_rules = [], host_executables_by_name = []\<rparr>"

definition sample_env :: host_env where
  "sample_env =
     \<lparr>windows = False,
      absolute_path = (\<lambda>p. if starts_with p ''/'' then Inr p else Inl ''not absolute''),
      file_name = (\<lambda>p. last_opt (split_on (CHR ''/'') p)),
      is_absolute = (\<lambda>p. starts_with p ''/''),
      component_count = (\<lambda>p. length (split_on (CHR ''/'') p)),
      shlex_split = (\<lambda>s. Some (split_on (CHR '' '') s))\<rparr>"

theorem check_strictest_match_witness:
  "well_keyed sample_policy \<and>
   map_option eval_decision (check sample_env sample_policy [''git'', ''push'', ''--force''] (\<lambda>_. Allow)) = Some Forbidden \<and>
   map_option eval_decision (check sample_env sample_policy [''rm''] (\<lambda>_. Prompt)) = Some Prompt"
proof -
  have keyed: "well_keyed sample_policy" by code_simp
  have forced: "match_decision ` set (matching sample_policy [''git'', ''push'', ''--force'']) = {Prompt, Forbidden}"
    by code_simp
  then have some: "matching sample_policy [''git'', ''push'', ''--force''] \<noteq> []" by auto
  have "matching sample_policy [''rm''] = []" by code_simp
  moreover have "Max {Prompt, Forbidden} = Forbidden" by code_simp
  ultimately show ?thesis
    using keyed forced some
      check_strictest_match [OF keyed, of sample_env "[''git'', ''push'', ''--force'']" "\<lambda>_. Allow"]
      check_strictest_match [OF keyed, of sample_env "[''rm'']" "\<lambda>_. Prompt"] by simp
qed

lemma Max_match_decisions:
  assumes "cmds \<noteq> []" and "\<And>cmd. cmd \<in> set cmds \<Longrightarrow> f cmd \<noteq> []"
  shows "Max (match_decision ` set (concat (map f cmds))) =
    Max ((\<lambda>cmd. Max (match_decision ` set (f cmd))) ` set cmds)"
  using assms
proof (induction cmds rule: list_nonempty_induct)
  case (cons c cs)
  have "set (concat (map f cs)) \<noteq> {}"
    using cons.hyps cons.prems by (cases cs) auto
  then have "Max (match_decision ` set (concat (map f (c # cs)))) =
      max (Max (match_decision ` set (f c))) (Max (match_decision ` set (concat (map f cs))))"
    using cons.prems by (simp add: image_Un Max_Un del: set_concat)
  with cons show ?case by simp
qed simp

text \<open>
  A script of several commands gets the strictest decision of its commands, each evaluated by
  itself.  With no command at all there is nothing to take the maximum of, and the code panics.
\<close>

lemma check_multiple_strictest:
  "map_option eval_decision (check_multiple_with_options env p cmds heuristics opts) =
     (if cmds = [] then None
      else Some (Max ((\<lambda>cmd. eval_decision (the (check_with_options env p cmd heuristics opts))) ` set cmds)))"
proof (cases "cmds = []")
  case False
  let ?f = "\<lambda>cmd. matches_for_command_with_options env p cmd (Some heuristics) opts"
  have "concat (map ?f cmds) \<noteq> []"
    using False matches_with_fallback_not_Nil by (cases cmds) auto
  then show ?thesis
    using False Max_match_decisions [of cmds ?f] matches_with_fallback_not_Nil
    by (simp add: check_multiple_with_options_def check_with_options_def from_matches_eq)
qed (simp add: check_multiple_with_options_def from_matches_eq)

lemma matching_prefix_matches: "m \<in> set (matching p cmd) \<Longrightarrow> \<exists>pre d j. m = PrefixRuleMatch pre d None j"
  by (auto simp: matching_def map_filter_def rule_matches_def)

lemma check_is_match:
  assumes "well_keyed p" and "check env p cmd heuristics = Some e" and "is_match e"
  shows "matching p cmd \<noteq> []" and "eval_decision e = Max (match_decision ` set (matching p cmd))"
proof -
  from assms(2) have "e = (if matching p cmd = []
      then \<lparr>eval_decision = heuristics cmd, matched_rules = [HeuristicsRuleMatch cmd (heuristics cmd)]\<rparr>
      else \<lparr>eval_decision = Max (match_decision ` set (matching p cmd)), matched_rules = matching p cmd\<rparr>)"
    unfolding check_eq [OF assms(1)] by (simp only: option.inject)
  with assms(3) show "matching p cmd \<noteq> []" "eval_decision e = Max (match_decision ` set (matching p cmd))"
    by (auto simp: is_match_def split: if_splits)
qed



text \<open>
  C19: the compiled domain lists agree with the last word on each host.  A host is allowed exactly if
  the last allow or deny rule about it allows it, denied exactly if that rule denies it; no host is
  in both lists or twice in one, and prompt rules change neither.
\<close>

theorem compiled_domains_last_verdict:
  "distinct (fst (compiled_network_domains p)) \<and> distinct (snd (compiled_network_domains p)) \<and>
   set (fst (compiled_network_domains p)) \<inter> set (snd (compiled_network_domains p)) = {} \<and>
   (h \<in> set (fst (compiled_network_domains p)) \<longleftrightarrow> last_verdict (network_rules p) h = Some Allow) \<and>
   (h \<in> set (snd (compiled_network_domains p)) \<longleftrightarrow> last_verdict (network_rules p) h = Some Forbidden)"
proof -
  have "domains_inv ([], [])" by (simp add: domains_inv_def)
  from compile_network_rules [OF this, where rs = "network_rules p"] show ?thesis
    by (auto simp: compiled_network_domains_def domains_inv_def split: option.splits)
qed

lemma resolved_by_prefix:
  "rule_matches r cmd = Some m \<Longrightarrow> resolved_program (with_resolved_program program m) = Some program"
  by (auto simp: rule_matches_iff)

text \<open>
  Rules reach an absolute program path only through its listed host executables.  If a command
  matches through its path's file name, the file name has rules, a listed name admits this very
  path, and every match names the path it was resolved to.
\<close>

lemma host_executable_match_admitted:
  assumes "m \<in> set (match_host_executable_rules env p cmd)"
  shows "\<exists>program basename. cmd \<noteq> [] \<and> absolute_path env (hd cmd) = Inr program \<and>
    executable_path_lookup_key env program = Some basename \<and>
    resolved_program m = Some program \<and>
    (\<exists>(k, r) \<in> set (rules_by_program p). k = basename \<and> rule_matches r (basename # tl cmd) \<noteq> None) \<and>
    (case map_of (host_executables_by_name p) basename of Some paths \<Rightarrow> program \<in> set paths | None \<Rightarrow> True)"
proof -
  note unfold = assms [unfolded match_host_executable_rules_def]
  from unfold obtain c args where cmd: "cmd = c # args" by (cases cmd) auto
  from unfold obtain program where program: "absolute_path env c = Inr program"
    by (cases "absolute_path env c") (auto simp: cmd)
  from unfold obtain basename where basename: "executable_path_lookup_key env program = Some basename"
    by (cases "executable_path_lookup_key env program") (auto simp: cmd program)
  from unfold obtain rules where rules: "get_vec (rules_by_program p) basename = Some rules"
    by (cases "get_vec (rules_by_program p) basename") (auto simp: cmd program basename)
  from unfold have admitted: "case map_of (host_executables_by_name p) basename of
      Some paths \<Rightarrow> program \<in> set paths | None \<Rightarrow> True"
    and found: "m \<in> set (map (with_resolved_program program)
      (List.map_filter (\<lambda>r. rule_matches r (basename # args)) rules))"
    by (auto simp: cmd program basename rules list_ex_iff split: option.splits if_splits)
  from found obtain r m' where r: "r \<in> set rules" "rule_matches r (basename # args) = Some m'"
    and m: "m = with_resolved_program program m'"
    by (auto simp: map_filter_def)
  have "(basename, r) \<in> set (rules_by_program p)"
    using rules r(1) by (auto simp: get_vec_def split: if_splits)
  then have "\<exists>(k, r) \<in> set (rules_by_program p). k = basename \<and> rule_matches r (basename # tl cmd) \<noteq> None"
    using r(2) by (auto simp: cmd)
  then show ?thesis
    using cmd program basename admitted resolved_by_prefix [OF r(2)] m by auto
qed

lemma host_executable_match_admitted_witness:
  "PrefixRuleMatch [''ls''] Allow (Some ''/bin/ls'') None
     \<in> set (match_host_executable_rules sample_env sample_policy [''/bin/ls'', ''-l'']) \<and>
   (\<exists>program basename. absolute_path sample_env ''/bin/ls'' = Inr program \<and>
      executable_path_lookup_key sample_env program = Some basename \<and> program = ''/bin/ls'')"
proof -
  have run: "PrefixRuleMatch [''ls''] Allow (Some ''/bin/ls'') None
     \<in> set (match_host_executable_rules sample_env sample_policy [''/bin/ls'', ''-l''])" by code_simp
  from host_executable_match_admitted [OF run] run show ?thesis by auto
qed
end
