(* ===== verification/Policy_Files.thy ===== *)
theory Policy_Files
  imports Exec_Policy
begin

text \<open>
  \<open>codex-rs/execpolicy/src/{parser,amend}.rs\<close>: building a policy from a rules file and appending
  approved rules to it.

  The Starlark interpreter is a parameter: what it makes of a file is the sequence of calls of the
  three builtins it performs, and the error, if any, that ends it.  File operations and JSON quoting
  are parameters too.
\<close>

section \<open>Building a policy\<close>

text \<open>Starlark values, as far as the builtins look at them.\<close>

datatype starlark_value = StrV string | ListV "starlark_value list" | OtherV string

fun value_type :: "starlark_value \<Rightarrow> string" where
  "value_type (StrV _) = ''string''"
| "value_type (ListV _) = ''list''"
| "value_type (OtherV t) = t"

fun unpack_str :: "starlark_value \<Rightarrow> string option" where
  "unpack_str (StrV s) = Some s"
| "unpack_str _ = None"

record pending_example_validation =
  pending_rules :: "prefix_rule list"
  pending_matches :: "string list list"
  pending_not_matches :: "string list list"
  pending_location :: "error_location option"

record policy_builder =
  builder_rules :: rule_multimap
  builder_network_rules :: "network_rule list"
  builder_host_executables :: "(string \<times> string list) list"
  pending_example_validations :: "pending_example_validation list"

definition builder_new :: policy_builder where
  "builder_new =
     \<lparr>builder_rules = [], builder_network_rules = [], builder_host_executables = [],
      pending_example_validations = []\<rparr>"

definition add_rule :: "prefix_rule \<Rightarrow> policy_builder \<Rightarrow> policy_builder" where
  "add_rule r b = b\<lparr>builder_rules := builder_rules b @ [(rule_program r, r)]\<rparr>"

definition builder_add_network_rule :: "network_rule \<Rightarrow> policy_builder \<Rightarrow> policy_builder" where
  "builder_add_network_rule r b = b\<lparr>builder_network_rules := builder_network_rules b @ [r]\<rparr>"

definition add_host_executable :: "string \<Rightarrow> string list \<Rightarrow> policy_builder \<Rightarrow> policy_builder" where
  "add_host_executable name paths b =
     b\<lparr>builder_host_executables := hash_insert name paths (builder_host_executables b)\<rparr>"

definition add_pending_example_validation ::
  "prefix_rule list \<Rightarrow> string list list \<Rightarrow> string list list \<Rightarrow> error_location option
     \<Rightarrow> policy_builder \<Rightarrow> policy_builder" where
  "add_pending_example_validation rules ms nms loc b =
     b\<lparr>pending_example_validations := pending_example_validations b @
        [\<lparr>pending_rules = rules, pending_matches = ms, pending_not_matches = nms, pending_location = loc\<rparr>]\<rparr>"

definition builder_build :: "policy_builder \<Rightarrow> policy" where
  "builder_build b =
     \<lparr>rules_by_program = builder_rules b, network_rules = builder_network_rules b,
      host_executables_by_name = builder_host_executables b\<rparr>"

fun with_location :: "error_location \<Rightarrow> policy_error \<Rightarrow> policy_error" where
  "with_location l (ExampleDidNotMatch rs exs None) = ExampleDidNotMatch rs exs (Some l)"
| "with_location l (ExampleDidMatch m ex None) = ExampleDidMatch m ex (Some l)"
| "with_location l other = other"

definition attach_validation_location :: "error_location option \<Rightarrow> policy_error \<Rightarrow> policy_error" where
  "attach_validation_location loc e = (case loc of Some l \<Rightarrow> with_location l e | None \<Rightarrow> e)"

definition validation_policy :: "policy_builder \<Rightarrow> prefix_rule list \<Rightarrow> policy" where
  "validation_policy b rules =
     \<lparr>rules_by_program = map (\<lambda>r. (rule_program r, r)) rules, network_rules = [],
      host_executables_by_name = builder_host_executables b\<rparr>"

definition validate_pending ::
  "host_env \<Rightarrow> policy_builder \<Rightarrow> pending_example_validation \<Rightarrow> policy_error + unit" where
  "validate_pending env b v =
     and_then (map_err (attach_validation_location (pending_location v))
         (validate_not_match_examples env (validation_policy b (pending_rules v)) (pending_not_matches v)))
       (\<lambda>_. map_err (attach_validation_location (pending_location v))
         (validate_match_examples env (validation_policy b (pending_rules v)) (pending_rules v)
            (pending_matches v)))"

fun validate_all ::
  "host_env \<Rightarrow> policy_builder \<Rightarrow> pending_example_validation list \<Rightarrow> policy_error + unit" where
  "validate_all env b [] = Inr ()"
| "validate_all env b (v # vs) = and_then (validate_pending env b v) (\<lambda>_. validate_all env b vs)"

definition validate_pending_examples_from :: "host_env \<Rightarrow> policy_builder \<Rightarrow> nat \<Rightarrow> policy_error + unit" where
  "validate_pending_examples_from env b start =
     validate_all env b (drop start (pending_example_validations b))"

text \<open>The arguments of the builtins.\<close>

definition string_items :: "(string \<Rightarrow> policy_error) \<Rightarrow> starlark_value list \<Rightarrow> policy_error + string list" where
  "string_items err vs = collect_results (\<lambda>v. ok_or (err (value_type v)) (unpack_str v)) vs"

fun parse_pattern_token :: "starlark_value \<Rightarrow> policy_error + pattern_token" where
  "parse_pattern_token (StrV s) = Inr (Single s)"
| "parse_pattern_token (ListV vs) =
     and_then (string_items (\<lambda>t. InvalidPattern (''pattern alternative must be a string (got '' @ t @ '')'')) vs)
       (\<lambda>tokens. case tokens of
          [] \<Rightarrow> Inl (InvalidPattern ''pattern alternatives cannot be empty'')
        | [single] \<Rightarrow> Inr (Single single)
        | _ \<Rightarrow> Inr (Alts tokens))"
| "parse_pattern_token (OtherV t) =
     Inl (InvalidPattern (''pattern element must be a string or list of strings (got '' @ t @ '')''))"

definition parse_pattern :: "starlark_value list \<Rightarrow> policy_error + pattern_token list" where
  "parse_pattern items =
     and_then (collect_results parse_pattern_token items) (\<lambda>tokens.
       if tokens = [] then Inl (InvalidPattern ''pattern cannot be empty'') else Inr tokens)"

definition parse_string_example :: "host_env \<Rightarrow> string \<Rightarrow> policy_error + string list" where
  "parse_string_example env raw =
     and_then (ok_or (InvalidExample ''example string has invalid shell syntax'') (shlex_split env raw))
       (\<lambda>tokens. if tokens = [] then Inl (InvalidExample ''example cannot be an empty string'') else Inr tokens)"

definition parse_list_example :: "starlark_value list \<Rightarrow> policy_error + string list" where
  "parse_list_example vs =
     and_then (string_items (\<lambda>t. InvalidExample (''example tokens must be strings (got '' @ t @ '')'')) vs)
       (\<lambda>tokens. if tokens = [] then Inl (InvalidExample ''example cannot be an empty list'') else Inr tokens)"

fun parse_example :: "host_env \<Rightarrow> starlark_value \<Rightarrow> policy_error + string list" where
  "parse_example env (StrV raw) = parse_string_example env raw"
| "parse_example env (ListV vs) = parse_list_example vs"
| "parse_example env (OtherV t) =
     Inl (InvalidExample (''example must be a string or list of strings (got '' @ t @ '')''))"

definition parse_examples :: "host_env \<Rightarrow> starlark_value list \<Rightarrow> policy_error + string list list" where
  "parse_examples env vs = collect_results (parse_example env) vs"

definition optional_examples :: "host_env \<Rightarrow> starlark_value list option \<Rightarrow> policy_error + string list list" where
  "optional_examples env vs = (case vs of Some vs \<Rightarrow> parse_examples env vs | None \<Rightarrow> Inr [])"

definition parse_literal_absolute_path :: "host_env \<Rightarrow> string \<Rightarrow> policy_error + string" where
  "parse_literal_absolute_path env raw =
     (if \<not> is_absolute env raw then
        Inl (InvalidRule (''host_executable paths must be absolute (got '' @ raw @ '')''))
      else map_err (\<lambda>error. InvalidRule (''invalid absolute path `'' @ raw @ ''`: '' @ error)) (absolute_path env raw))"

definition validate_host_executable_name :: "host_env \<Rightarrow> string \<Rightarrow> policy_error + unit" where
  "validate_host_executable_name env name =
     (if name = [] then Inl (InvalidRule ''host_executable name cannot be empty'')
      else if component_count env name \<noteq> 1 \<or> file_name env name \<noteq> Some name then
        Inl (InvalidRule (''host_executable name must be a bare executable name (got '' @ name @ '')''))
      else Inr ())"

definition parse_network_rule_decision :: "string \<Rightarrow> policy_error + decision" where
  "parse_network_rule_decision raw = (if raw = ''deny'' then Inr Forbidden else decision_parse raw)"

definition parse_justification :: "string option \<Rightarrow> policy_error + string option" where
  "parse_justification j =
     (case j of
        Some raw \<Rightarrow> if trim raw = [] then Inl (InvalidRule ''justification cannot be empty'') else Inr (Some raw)
      | None \<Rightarrow> Inr None)"

text \<open>The rules one \<open>prefix_rule\<close> call stands for: one per alternative of the first token.\<close>

definition head_rules ::
  "pattern_token \<Rightarrow> pattern_token list \<Rightarrow> decision \<Rightarrow> string option \<Rightarrow> prefix_rule list" where
  "head_rules first_token remaining d j =
     map (\<lambda>head. \<lparr>pattern = \<lparr>first = head, rest = remaining\<rparr>, rule_decision = d, rule_justification = j\<rparr>)
       (alternatives first_token)"

definition prefix_rule_builtin ::
  "host_env \<Rightarrow> starlark_value list \<Rightarrow> string option \<Rightarrow> starlark_value list option
     \<Rightarrow> starlark_value list option \<Rightarrow> string option \<Rightarrow> error_location option \<Rightarrow> policy_builder
     \<Rightarrow> policy_error + policy_builder" where
  "prefix_rule_builtin env pat d ms nms j loc b =
     and_then (case d of Some raw \<Rightarrow> decision_parse raw | None \<Rightarrow> Inr Allow) (\<lambda>d.
     and_then (parse_justification j) (\<lambda>j.
     and_then (parse_pattern pat) (\<lambda>pattern_tokens.
     and_then (optional_examples env ms) (\<lambda>ms.
     and_then (optional_examples env nms) (\<lambda>nms.
       case pattern_tokens of
         [] \<Rightarrow> Inl (InvalidPattern ''pattern cannot be empty'')
       | first_token # remaining \<Rightarrow>
           (let rules = head_rules first_token remaining d j in
            Inr (fold add_rule rules (add_pending_example_validation rules ms nms loc b))))))))"

definition network_rule_builtin ::
  "string \<Rightarrow> string \<Rightarrow> string \<Rightarrow> string option \<Rightarrow> policy_builder \<Rightarrow> policy_error + policy_builder" where
  "network_rule_builtin h proto d j b =
     and_then (protocol_parse proto) (\<lambda>proto.
     and_then (parse_network_rule_decision d) (\<lambda>d.
     and_then (parse_justification j) (\<lambda>j.
     and_then (normalize_network_rule_host h) (\<lambda>h.
       Inr (builder_add_network_rule
         \<lparr>host = h, protocol = proto, network_decision = d, network_justification = j\<rparr> b)))))"

fun host_executable_paths ::
  "host_env \<Rightarrow> string \<Rightarrow> starlark_value list \<Rightarrow> string list \<Rightarrow> policy_error + string list" where
  "host_executable_paths env name [] parsed = Inr parsed"
| "host_executable_paths env name (v # vs) parsed =
     and_then (ok_or (InvalidRule (''host_executable paths must be strings (got '' @ value_type v @ '')''))
                 (unpack_str v)) (\<lambda>raw.
     and_then (parse_literal_absolute_path env raw) (\<lambda>pth.
       if executable_path_lookup_key env pth \<noteq> Some (executable_lookup_key env name) then
         Inl (InvalidRule (''host_executable path `'' @ raw @ ''` must have basename `'' @ name @ ''`''))
       else host_executable_paths env name vs
              (if list_ex (\<lambda>existing. existing = pth) parsed then parsed else parsed @ [pth])))"

definition host_executable_builtin ::
  "host_env \<Rightarrow> string \<Rightarrow> starlark_value list \<Rightarrow> policy_builder \<Rightarrow> policy_error + policy_builder" where
  "host_executable_builtin env name paths b =
     and_then (validate_host_executable_name env name) (\<lambda>_.
     and_then (host_executable_paths env name paths []) (\<lambda>parsed.
       Inr (add_host_executable (executable_lookup_key env name) parsed b)))"

datatype builtin_call =
    PrefixRuleCall "starlark_value list" "string option" "starlark_value list option"
      "starlark_value list option" "string option" "error_location option"
  | NetworkRuleCall string string string "string option"
  | HostExecutableCall string "starlark_value list"

fun run_builtin :: "host_env \<Rightarrow> builtin_call \<Rightarrow> policy_builder \<Rightarrow> policy_error + policy_builder" where
  "run_builtin env (PrefixRuleCall pat d ms nms j loc) b = prefix_rule_builtin env pat d ms nms j loc b"
| "run_builtin env (NetworkRuleCall h proto d j) b = network_rule_builtin h proto d j b"
| "run_builtin env (HostExecutableCall name paths) b = host_executable_builtin env name paths b"

text \<open>A failing call ends the evaluation; the builder keeps what earlier calls added.\<close>

fun run_builtins ::
  "host_env \<Rightarrow> builtin_call list \<Rightarrow> policy_builder \<Rightarrow> policy_builder \<times> (policy_error + unit)" where
  "run_builtins env [] b = (b, Inr ())"
| "run_builtins env (c # cs) b =
     (case run_builtin env c b of Inl e \<Rightarrow> (b, Inl e) | Inr b' \<Rightarrow> run_builtins env cs b')"

type_synonym starlark = "string \<Rightarrow> string \<Rightarrow> string + builtin_call list \<times> string option"

definition parse_policy ::
  "starlark \<Rightarrow> (policy_error \<Rightarrow> string) \<Rightarrow> host_env \<Rightarrow> string \<Rightarrow> string \<Rightarrow> policy_builder
     \<Rightarrow> policy_builder \<times> (policy_error + unit)" where
  "parse_policy interpret display env identifier source b =
     (let pending_validation_count = length (pending_example_validations b) in
      case interpret identifier source of
        Inl e \<Rightarrow> (b, Inl (Starlark e))
      | Inr (calls, failure) \<Rightarrow>
          (case run_builtins env calls b of
             (b, Inl e) \<Rightarrow> (b, Inl (Starlark (display e)))
           | (b, Inr _) \<Rightarrow>
               (case failure of
                  Some e \<Rightarrow> (b, Inl (Starlark e))
                | None \<Rightarrow> (b, validate_pending_examples_from env b pending_validation_count))))"

section \<open>Appending to a rules file\<close>

datatype amend_error =
    EmptyPrefix
  | InvalidNetworkRule string
  | MissingParent string
  | CreatePolicyDir string
  | SerializePrefix
  | SerializeNetworkRule
  | OpenPolicyFile string
  | WritePolicyFile string
  | LockPolicyFile string
  | SeekPolicyFile string
  | ReadPolicyFile string

datatype create_dir_result = DirCreated | DirAlreadyExists | DirFailed

text \<open>The operations on the file; a boolean tells whether they succeeded.\<close>

record 'w policy_file_ops =
  path_parent :: "string \<Rightarrow> string option"
  create_dir :: "'w \<Rightarrow> string \<Rightarrow> create_dir_result \<times> 'w"
  open_append :: "'w \<Rightarrow> string \<Rightarrow> bool \<times> 'w"
  lock_file :: "'w \<Rightarrow> string \<Rightarrow> bool \<times> 'w"
  seek_start :: "'w \<Rightarrow> string \<Rightarrow> bool \<times> 'w"
  read_to_string :: "'w \<Rightarrow> string \<Rightarrow> string option \<times> 'w"
  write_all :: "'w \<Rightarrow> string \<Rightarrow> string \<Rightarrow> bool \<times> 'w"
  to_json :: "string \<Rightarrow> string option"

definition append_locked_line ::
  "'w policy_file_ops \<Rightarrow> string \<Rightarrow> string \<Rightarrow> 'w \<Rightarrow> (amend_error + unit) \<times> 'w" where
  "append_locked_line ops p line w =
     (case open_append ops w p of
        (False, w) \<Rightarrow> (Inl (OpenPolicyFile p), w)
      | (True, w) \<Rightarrow>
     (case lock_file ops w p of
        (False, w) \<Rightarrow> (Inl (LockPolicyFile p), w)
      | (True, w) \<Rightarrow>
     (case seek_start ops w p of
        (False, w) \<Rightarrow> (Inl (SeekPolicyFile p), w)
      | (True, w) \<Rightarrow>
     (case read_to_string ops w p of
        (None, w) \<Rightarrow> (Inl (ReadPolicyFile p), w)
      | (Some contents, w) \<Rightarrow>
          if list_ex (\<lambda>existing. existing = line) (str_lines contents) then (Inr (), w)
          else (case (if contents \<noteq> [] \<and> \<not> ends_with contents [LF] then write_all ops w p [LF]
                      else (True, w)) of
              (False, w) \<Rightarrow> (Inl (WritePolicyFile p), w)
            | (True, w) \<Rightarrow>
                (case write_all ops w p (line @ [LF]) of
                   (False, w) \<Rightarrow> (Inl (WritePolicyFile p), w)
                 | (True, w) \<Rightarrow> (Inr (), w)))))))"

definition append_rule_line ::
  "'w policy_file_ops \<Rightarrow> string \<Rightarrow> string \<Rightarrow> 'w \<Rightarrow> (amend_error + unit) \<times> 'w" where
  "append_rule_line ops p rule w =
     (case path_parent ops p of
        None \<Rightarrow> (Inl (MissingParent p), w)
      | Some dir \<Rightarrow>
          (case create_dir ops w dir of
             (DirFailed, w) \<Rightarrow> (Inl (CreatePolicyDir dir), w)
           | (_, w) \<Rightarrow> append_locked_line ops p rule w))"

definition QUOTE :: string where "QUOTE = [CHR 0x22]"

definition blocking_append_allow_prefix_rule ::
  "'w policy_file_ops \<Rightarrow> string \<Rightarrow> string list \<Rightarrow> 'w \<Rightarrow> (amend_error + unit) \<times> 'w" where
  "blocking_append_allow_prefix_rule ops p prefix w =
     (if prefix = [] then (Inl EmptyPrefix, w)
      else (case collect_results (\<lambda>t. ok_or SerializePrefix (to_json ops t)) prefix of
          Inl e \<Rightarrow> (Inl e, w)
        | Inr tokens \<Rightarrow>
            append_rule_line ops p
              (''prefix_rule(pattern=['' @ join '', '' tokens @ ''], decision='' @ QUOTE @ ''allow'' @ QUOTE @ '')'') w))"

fun network_decision_word :: "decision \<Rightarrow> string" where
  "network_decision_word Allow = ''allow''"
| "network_decision_word Prompt = ''prompt''"
| "network_decision_word Forbidden = ''deny''"

definition display_rule_error :: "policy_error \<Rightarrow> string" where
  "display_rule_error e = (case e of InvalidRule m \<Rightarrow> ''invalid rule: '' @ m | _ \<Rightarrow> [])"

definition network_rule_line ::
  "(string \<Rightarrow> string option) \<Rightarrow> string \<Rightarrow> network_rule_protocol \<Rightarrow> decision \<Rightarrow> string option
     \<Rightarrow> amend_error + string" where
  "network_rule_line json h proto d j =
     (let quote = (\<lambda>s. ok_or SerializeNetworkRule (json s)) in
      and_then (map_err (\<lambda>e. InvalidNetworkRule (display_rule_error e)) (normalize_network_rule_host h)) (\<lambda>h.
      if justification_blank j then Inl (InvalidNetworkRule ''justification cannot be empty'')
      else
      and_then (quote h) (\<lambda>h.
      and_then (quote (as_policy_string proto)) (\<lambda>proto.
      and_then (quote (network_decision_word d)) (\<lambda>d.
      and_then (case j of None \<Rightarrow> Inr [] | Some j \<Rightarrow> and_then (quote j) (\<lambda>j. Inr [''justification='' @ j])) (\<lambda>j.
        Inr (''network_rule('' @
          join '', '' ([''host='' @ h, ''protocol='' @ proto, ''decision='' @ d] @ j) @ '')'')))))))"

definition blocking_append_network_rule ::
  "'w policy_file_ops \<Rightarrow> string \<Rightarrow> string \<Rightarrow> network_rule_protocol \<Rightarrow> decision \<Rightarrow> string option \<Rightarrow> 'w
     \<Rightarrow> (amend_error + unit) \<times> 'w" where
  "blocking_append_network_rule ops p h proto d j w =
     (case network_rule_line (to_json ops) h proto d j of
        Inl e \<Rightarrow> (Inl e, w)
      | Inr rule \<Rightarrow> append_rule_line ops p rule w)"

section \<open>Built policies are indexed\<close>

lemma fold_add_rule:
  "fold add_rule rs b = b\<lparr>builder_rules := builder_rules b @ map (\<lambda>r. (rule_program r, r)) rs\<rparr>"
  by (induction rs arbitrary: b) (simp_all add: add_rule_def)

lemma prefix_rule_builtin_ok:
  assumes "prefix_rule_builtin env pat d ms nms j loc b = Inr b'"
  obtains first_token remaining dec
  where "parse_pattern pat = Inr (first_token # remaining)"
    and "(case d of Some raw \<Rightarrow> decision_parse raw | None \<Rightarrow> Inr Allow) = Inr dec"
    and "rules_by_program (builder_build b') = rules_by_program (builder_build b) @
           map (\<lambda>r. (rule_program r, r)) (head_rules first_token remaining dec j)"
proof -
  from assms obtain dec tokens ms' nms' j' where
    d: "(case d of Some raw \<Rightarrow> decision_parse raw | None \<Rightarrow> Inr Allow) = Inr dec"
    and j': "parse_justification j = Inr j'" and tokens: "parse_pattern pat = Inr tokens"
    and run: "(case tokens of [] \<Rightarrow> Inl (InvalidPattern ''pattern cannot be empty'')
       | first_token # remaining \<Rightarrow>
           (let rules = head_rules first_token remaining dec j' in
            Inr (fold add_rule rules (add_pending_example_validation rules ms' nms' loc b)))) = Inr b'"
    by (auto simp: prefix_rule_builtin_def)
  from run obtain t ts where ts: "tokens = t # ts" by (cases tokens) auto
  have "j' = j" using j' by (auto simp: parse_justification_def split: option.splits if_splits)
  then have "rules_by_program (builder_build b') = rules_by_program (builder_build b) @
           map (\<lambda>r. (rule_program r, r)) (head_rules t ts dec j)"
    using run ts
    by (auto simp: fold_add_rule builder_build_def Let_def add_pending_example_validation_def)
  with d tokens ts show thesis by (intro that) auto
qed

lemma run_builtin_keyed:
  assumes "run_builtin env c b = Inr b'" and "well_keyed (builder_build b)"
  shows "well_keyed (builder_build b')"
proof (cases c)
  case (PrefixRuleCall pat d ms nms j loc)
  then have "prefix_rule_builtin env pat d ms nms j loc b = Inr b'" using assms(1) by simp
  then show ?thesis
    by (rule prefix_rule_builtin_ok) (use assms(2) in \<open>auto simp: well_keyed_def\<close>)
qed (use assms in \<open>auto simp: network_rule_builtin_def host_executable_builtin_def builder_build_def
    well_keyed_def builder_add_network_rule_def add_host_executable_def\<close>)

lemma run_builtins_keyed:
  "run_builtins env cs b = (b', r) \<Longrightarrow> well_keyed (builder_build b) \<Longrightarrow> well_keyed (builder_build b')"
  by (induction cs arbitrary: b) (auto split: sum.splits dest: run_builtin_keyed)

lemma validate_match_examples_ok:
  "validate_match_examples env p rules ms = Inr () \<longleftrightarrow>
     (\<forall>ex \<in> set ms. matches_for_command_with_options env p ex None example_options \<noteq> [])"
  by (auto simp: validate_match_examples_def Let_def filter_empty_conv)

lemma validate_not_match_examples_ok:
  "validate_not_match_examples env p exs = Inr () \<longleftrightarrow>
     (\<forall>ex \<in> set exs. matches_for_command_with_options env p ex None example_options = [])"
  by (induction exs) (auto split: list.splits)

lemma validate_all_ok:
  "validate_all env b vs = Inr () \<longleftrightarrow>
     (\<forall>v \<in> set vs.
        (\<forall>ex \<in> set (pending_matches v).
           matches_for_command_with_options env (validation_policy b (pending_rules v)) ex None example_options \<noteq> []) \<and>
        (\<forall>ex \<in> set (pending_not_matches v).
           matches_for_command_with_options env (validation_policy b (pending_rules v)) ex None example_options = []))"
  by (induction vs)
    (auto simp: validate_pending_def validate_match_examples_ok validate_not_match_examples_ok)

section \<open>Properties\<close>


definition sample_calls :: "builtin_call list" where
  "sample_calls =
     [HostExecutableCall ''git'' [StrV ''/usr/bin/git''],
      PrefixRuleCall [ListV [StrV ''git'', StrV ''hg''], StrV ''push''] (Some ''prompt'')
        (Some [StrV ''git push origin'', ListV [StrV ''/usr/bin/git'', StrV ''push'']])
        (Some [StrV ''/opt/git push'']) None None]"

definition sample_builder :: policy_builder where
  "sample_builder = fst (run_builtins sample_env sample_calls builder_new)"


lemma list_all2_Cons_ex: "list_all2 P (x # xs) ys \<longleftrightarrow> (\<exists>z zs. ys = z # zs \<and> P x z \<and> list_all2 P xs zs)"
  by (cases ys) auto

lemma expansions_iff:
  "pre \<in> expansions \<lparr>first = h, rest = ts\<rparr> \<longleftrightarrow>
     (\<exists>zs. pre = h # zs \<and> list_all2 (\<lambda>tok x. x \<in> set (alternatives tok)) ts zs)"
  by (auto simp: expansions_def)

lemma head_rules_match:
  "(\<exists>r \<in> set (head_rules t ts d j). rule_matches r cmd \<noteq> None) \<longleftrightarrow>
     (\<exists>pre more. cmd = pre @ more \<and> list_all2 (\<lambda>tok x. x \<in> set (alternatives tok)) (t # ts) pre)"
proof -
  have "(\<exists>r \<in> set (head_rules t ts d j). rule_matches r cmd \<noteq> None) \<longleftrightarrow>
      (\<exists>h \<in> set (alternatives t). \<exists>pre more. cmd = pre @ more \<and> pre \<in> expansions \<lparr>first = h, rest = ts\<rparr>)"
    by (auto simp: head_rules_def rule_matches_iff)
  also have "\<dots> \<longleftrightarrow> (\<exists>pre more. cmd = pre @ more \<and> list_all2 (\<lambda>tok x. x \<in> set (alternatives tok)) (t # ts) pre)"
    unfolding list_all2_Cons_ex expansions_iff by blast
  finally show ?thesis .
qed

lemma map_filter_eq_Nil: "List.map_filter f xs = [] \<longleftrightarrow> (\<forall>x \<in> set xs. f x = None)"
  by (induction xs) (auto split: option.splits)

text \<open>
  A \<open>prefix_rule\<close> call adds exactly the meaning of its pattern.  After an accepted call the rules
  matching a command are the earlier ones followed by new ones, all with the call's decision
  (\<open>allow\<close> by default), and there is a new one exactly if the command begins with one choice of
  alternatives for every element of the pattern, the first included.
\<close>

lemma prefix_rule_adds_pattern:
  assumes "prefix_rule_builtin env pat d ms nms j loc b = Inr b'"
  shows "\<exists>tokens dec new. parse_pattern pat = Inr tokens \<and>
    (case d of Some raw \<Rightarrow> decision_parse raw | None \<Rightarrow> Inr Allow) = Inr dec \<and>
    matching (builder_build b') cmd = matching (builder_build b) cmd @ new \<and>
    (\<forall>m \<in> set new. match_decision m = dec) \<and>
    (new \<noteq> [] \<longleftrightarrow>
      (\<exists>pre more. cmd = pre @ more \<and> list_all2 (\<lambda>tok t. t \<in> set (alternatives tok)) tokens pre))"
  using assms
proof (rule prefix_rule_builtin_ok)
  fix t ts dec
  assume pat: "parse_pattern pat = Inr (t # ts)"
    and dec: "(case d of Some raw \<Rightarrow> decision_parse raw | None \<Rightarrow> Inr Allow) = Inr dec"
    and rules: "rules_by_program (builder_build b') = rules_by_program (builder_build b) @
      map (\<lambda>r. (rule_program r, r)) (head_rules t ts dec j)"
  define new where "new = List.map_filter (\<lambda>r. rule_matches r cmd) (head_rules t ts dec j)"
  have "matching (builder_build b') cmd = matching (builder_build b) cmd @ new"
    by (simp add: matching_def rules map_filter_append new_def o_def)
  moreover have "\<forall>m \<in> set new. match_decision m = dec"
    by (auto simp: new_def map_filter_def rule_matches_def head_rules_def)
  moreover have "new \<noteq> [] \<longleftrightarrow>
      (\<exists>pre more. cmd = pre @ more \<and> list_all2 (\<lambda>tok t. t \<in> set (alternatives tok)) (t # ts) pre)"
  proof -
    have "new \<noteq> [] \<longleftrightarrow> (\<exists>r \<in> set (head_rules t ts dec j). rule_matches r cmd \<noteq> None)"
      by (simp add: new_def map_filter_eq_Nil)
    then show ?thesis by (rule trans) (rule head_rules_match)
  qed
  ultimately show ?thesis using pat dec by blast
qed

definition push_pattern :: "starlark_value list" where
  "push_pattern = [ListV [StrV ''git'', StrV ''hg''], StrV ''push'']"

definition push_builder :: policy_builder where
  "push_builder =
     fst (run_builtins sample_env [PrefixRuleCall push_pattern (Some ''prompt'') None None None None] builder_new)"

lemma prefix_rule_adds_pattern_witness:
  "prefix_rule_builtin sample_env push_pattern (Some ''prompt'') None None None None builder_new = Inr push_builder \<and>
   matching (builder_build push_builder) [''hg'', ''push'', ''-f''] \<noteq> []"
proof -
  have run: "prefix_rule_builtin sample_env push_pattern (Some ''prompt'') None None None None builder_new =
      Inr push_builder" by code_simp
  have pat: "parse_pattern push_pattern = Inr [Alts [''git'', ''hg''], Single ''push'']" by code_simp
  have begins: "\<exists>pre more. [''hg'', ''push'', ''-f''] = pre @ more \<and>
      list_all2 (\<lambda>tok t. t \<in> set (alternatives tok)) [Alts [''git'', ''hg''], Single ''push''] pre"
    by (rule exI [of _ "[''hg'', ''push'']"]) simp
  obtain tokens new where "parse_pattern push_pattern = Inr tokens"
    and "matching (builder_build push_builder) [''hg'', ''push'', ''-f''] =
      matching (builder_build builder_new) [''hg'', ''push'', ''-f''] @ new"
    and new: "new \<noteq> [] \<longleftrightarrow> (\<exists>pre more. [''hg'', ''push'', ''-f''] = pre @ more \<and>
      list_all2 (\<lambda>tok t. t \<in> set (alternatives tok)) tokens pre)"
    using prefix_rule_adds_pattern [OF run, of "[''hg'', ''push'', ''-f'']"] by blast
  moreover from this pat have "tokens = [Alts [''git'', ''hg''], Single ''push'']" by simp
  ultimately show ?thesis using run begins by simp
qed

text \<open>
  What appending relies on: opening (which creates a missing file), locking and seeking keep the
  text, reading returns it, and a successful write in append mode adds to its end.
\<close>

definition append_file :: "'w policy_file_ops \<Rightarrow> string \<Rightarrow> ('w \<Rightarrow> string) \<Rightarrow> bool" where
  "append_file ops p text \<longleftrightarrow>
     (\<forall>w r w'. open_append ops w p = (r, w') \<longrightarrow> text w' = text w) \<and>
     (\<forall>w r w'. lock_file ops w p = (r, w') \<longrightarrow> text w' = text w) \<and>
     (\<forall>w r w'. seek_start ops w p = (r, w') \<longrightarrow> text w' = text w) \<and>
     (\<forall>w r w'. read_to_string ops w p = (Some r, w') \<longrightarrow> r = text w \<and> text w' = text w) \<and>
     (\<forall>w t w'. write_all ops w p t = (True, w') \<longrightarrow> text w' = text w @ t)"

lemma append_locked_line_text:
  assumes "append_file ops p text" and "append_locked_line ops p line w = (Inr (), w')"
  shows "text w' =
    (if line \<in> set (str_lines (text w)) then text w
     else (if text w \<noteq> [] \<and> \<not> ends_with (text w) [LF] then text w @ [LF] else text w) @ line @ [LF])"
proof -
  obtain w1 where open_ok: "open_append ops w p = (True, w1)"
    using assms(2) by (auto simp: append_locked_line_def split: prod.splits bool.splits)
  obtain w2 where lock: "lock_file ops w1 p = (True, w2)"
    using assms(2) by (auto simp: append_locked_line_def open_ok split: prod.splits bool.splits)
  obtain w3 where seek: "seek_start ops w2 p = (True, w3)"
    using assms(2) by (auto simp: append_locked_line_def open_ok lock split: prod.splits bool.splits)
  obtain c w4 where read: "read_to_string ops w3 p = (Some c, w4)"
    using assms(2)
    by (auto simp: append_locked_line_def open_ok lock seek split: prod.splits bool.splits option.splits)
  have texts: "text w4 = text w" "c = text w"
    using assms(1) open_ok lock seek read unfolding append_file_def by metis+
  have writes: "\<And>v t v'. write_all ops v p t = (True, v') \<Longrightarrow> text v' = text v @ t"
    using assms(1) unfolding append_file_def by blast
  show ?thesis
    using assms(2) texts writes
    by (auto simp: append_locked_line_def open_ok lock seek read list_ex_iff
        split: prod.splits bool.splits if_splits)
qed

text \<open>
  C26: appending an approved rule keeps every line of the rules file and adds the rule exactly once.
  After a successful append the file's lines are the old lines, followed by the new one unless it
  was already there, also when the file lacked a final newline.
\<close>

theorem append_locked_line_lines:
  assumes "append_file ops p text" and "append_locked_line ops p line w = (Inr (), w')"
    and "LF \<notin> set line" and "strip_cr line = line" and "text w = [] \<or> last (text w) \<noteq> CR"
  shows "str_lines (text w') =
    (if line \<in> set (str_lines (text w)) then str_lines (text w) else str_lines (text w) @ [line])"
  using append_locked_line_text [OF assms(1,2)] str_lines_append_line [OF assms(3-5)] by simp

definition mem_file :: "string policy_file_ops" where
  "mem_file =
     \<lparr>path_parent = (\<lambda>p. Some []), create_dir = (\<lambda>w d. (DirAlreadyExists, w)),
      open_append = (\<lambda>w p. (True, w)), lock_file = (\<lambda>w p. (True, w)), seek_start = (\<lambda>w p. (True, w)),
      read_to_string = (\<lambda>w p. (Some w, w)), write_all = (\<lambda>w p t. (True, w @ t)),
      to_json = (\<lambda>s. Some (QUOTE @ s @ QUOTE))\<rparr>"

theorem append_locked_line_lines_witness:
  "append_file mem_file ''r'' (\<lambda>w. w) \<and>
   append_locked_line mem_file ''r'' ''b'' ''a'' = (Inr (), ''a'' @ [LF] @ ''b'' @ [LF]) \<and>
   str_lines (''a'' @ [LF] @ ''b'' @ [LF]) = [''a'', ''b'']"
proof -
  have laws: "append_file mem_file ''r'' (\<lambda>w. w)" by (simp add: append_file_def mem_file_def)
  have run: "append_locked_line mem_file ''r'' ''b'' ''a'' = (Inr (), ''a'' @ [LF] @ ''b'' @ [LF])" by code_simp
  have "str_lines ''a'' = [''a'']" by code_simp
  with append_locked_line_lines [OF laws run] laws run show ?thesis by (simp add: strip_cr_def)
qed

section \<open>Persisted network rules\<close>

lemma host_without_port_chars:
  "host_without_port raw s = Inr s' \<Longrightarrow> set s' \<subseteq> set s"
  by (auto simp: host_without_port_def Let_def strip_prefix_Some
      dest!: split_once_Some rsplit_once_Some split: option.splits if_splits)

lemma set_trim_end_dots: "set (trim_end_dots s) \<subseteq> set s"
  unfolding trim_end_dots_def set_rev by (metis set_dropWhileD set_rev subsetI)

lemma trim_end_dots_id: "s = [] \<or> last s \<noteq> CHR ''.'' \<Longrightarrow> trim_end_dots s = s"
  by (cases s rule: rev_cases) (auto simp: trim_end_dots_def)

text \<open>What normalisation guarantees of an accepted host.\<close>

lemma normalize_host_result:
  assumes "normalize_network_rule_host raw = Inr h"
  shows "h \<noteq> []" and "CHR ''*'' \<notin> set h" and "\<not> has_whitespace h" and "to_ascii_lowercase h = h"
    and "CHR ''/'' \<notin> set h" and "CHR ''?'' \<notin> set h" and "CHR ''#'' \<notin> set h"
proof -
  obtain s where s: "host_without_port raw (trim raw) = Inr s"
    and chars: "CHR ''/'' \<notin> set (trim raw)" "CHR ''?'' \<notin> set (trim raw)" "CHR ''#'' \<notin> set (trim raw)"
    and h: "h = to_ascii_lowercase (trim (trim_end_dots s))"
    and ok: "h \<noteq> []" "CHR ''*'' \<notin> set h" "\<not> has_whitespace h"
    using assms by (auto simp: normalize_network_rule_host_def Let_def split: if_splits)
  show "h \<noteq> []" "CHR ''*'' \<notin> set h" "\<not> has_whitespace h" by (fact ok)+
  show "to_ascii_lowercase h = h" by (simp add: h)
  have sub: "set (trim (trim_end_dots s)) \<subseteq> set (trim raw)"
    using set_trim set_trim_end_dots host_without_port_chars [OF s] by blast
  show "CHR ''/'' \<notin> set h" "CHR ''?'' \<notin> set h" "CHR ''#'' \<notin> set h"
    using chars sub unfolding h by (auto simp: set_lowercase_below byte_def)
qed

text \<open>
  A persisted network rule reloads for the host that was approved.  The host written to the
  rules file is the normalised one, and reading the file normalises it again; for a host that has
  no colon, no leading bracket and no trailing dot left this second normalisation changes nothing.
\<close>

lemma persisted_host_reloads:
  assumes "normalize_network_rule_host raw = Inr h"
    and "CHR '':'' \<notin> set h" and "hd h \<noteq> CHR ''[''" and "last h \<noteq> CHR ''.''"
  shows "normalize_network_rule_host h = Inr h"
proof -
  note res = normalize_host_result [OF assms(1)]
  have "strip_prefix ''['' h = None" using assms(3) res(1) by (cases h) (auto simp: strip_prefix_def)
  moreover have "filter (\<lambda>c. c = CHR '':'') h = []" using assms(2) by (auto simp: filter_empty_conv)
  ultimately have "host_without_port h h = Inr h" by (simp add: host_without_port_def)
  moreover have "\<not> str_contains h ''://''" using res(5) by (auto simp: str_contains_iff)
  ultimately show ?thesis
    using res assms(4) by (simp add: normalize_network_rule_host_def trim_no_whitespace trim_end_dots_id)
qed

lemma persisted_host_reloads_witness:
  "normalize_network_rule_host '' Example.COM.:443'' = Inr ''example.com'' \<and>
   normalize_network_rule_host ''example.com'' = Inr ''example.com''"
proof -
  have run: "normalize_network_rule_host '' Example.COM.:443'' = Inr ''example.com''" by code_simp
  from persisted_host_reloads [OF run] run show ?thesis by simp
qed

text \<open>
  Without that restriction the reloaded rule can be about another host: a bracketed name with one
  colon loses its brackets when approved, and its last part, taken for a port, when reloaded.
\<close>

lemma persisted_host_can_change:
  "normalize_network_rule_host ''[abc:80]'' = Inr ''abc:80'' \<and> normalize_network_rule_host ''abc:80'' = Inr ''abc''"
  by code_simp
end
