(* ===== verification/Exec_Approval.thy ===== *)
theory Exec_Approval
  imports Command_Safety Policy_Files
begin

text \<open>Whether a command may run (\<^verbatim>\<open>codex-rs/core/src/exec_policy.rs\<close>): the commands inside a shell
  invocation are evaluated against the policy, with a fallback by the approval setting where no rule
  matches, and the verdict becomes a requirement for the tool that runs the command.  The manager
  keeps the policy in memory and amends it together with its file.  The build for Unix is modelled,
  where every command has the generic origin.\<close>

section \<open>Settings\<close>

record granular_approval_config =
  sandbox_approval :: bool
  granular_rules :: bool
  skill_approval :: bool
  request_permissions :: bool
  mcp_elicitations :: bool

datatype ask_for_approval = UnlessTrusted | OnRequest | Granular granular_approval_config | Never

datatype sandbox_permissions = UseDefault | RequireEscalated | WithAdditionalPermissions

definition requires_escalated_permissions :: "sandbox_permissions \<Rightarrow> bool" where
  "requires_escalated_permissions s \<longleftrightarrow> s = RequireEscalated"

definition requests_sandbox_override :: "sandbox_permissions \<Rightarrow> bool" where
  "requests_sandbox_override s \<longleftrightarrow> s \<noteq> UseDefault"

datatype file_system_access_mode = ReadAccess | WriteAccess | DenyAccess

datatype file_system_special_path =
    RootPath
  | MinimalPaths
  | ProjectRoots "string option"
  | Tmpdir
  | SlashTmp
  | UnknownPath string "string option"

datatype file_system_path = PathEntry string | GlobPattern string | SpecialPath file_system_special_path

datatype missing_path_behavior = SkipMissing

record file_system_sandbox_entry =
  entry_path :: file_system_path
  access :: file_system_access_mode
  missing_path :: "missing_path_behavior option"

datatype file_system_sandbox_kind = Restricted | Unrestricted | ExternalSandbox

record file_system_sandbox_policy =
  sandbox_kind :: file_system_sandbox_kind
  glob_scan_max_depth :: "nat option"
  entries :: "file_system_sandbox_entry list"

datatype network_sandbox_policy = NetworkRestricted | NetworkEnabled

datatype managed_file_system_permissions =
    RestrictedTo "file_system_sandbox_entry list" "nat option"
  | AllFiles

datatype permission_profile =
    Managed managed_file_system_permissions network_sandbox_policy
  | Disabled
  | External network_sandbox_policy

definition unrestricted :: file_system_sandbox_policy where
  "unrestricted = \<lparr>sandbox_kind = Unrestricted, glob_scan_max_depth = None, entries = []\<rparr>"

definition external_sandbox :: file_system_sandbox_policy where
  "external_sandbox = \<lparr>sandbox_kind = ExternalSandbox, glob_scan_max_depth = None, entries = []\<rparr>"

definition to_sandbox_policy :: "managed_file_system_permissions \<Rightarrow> file_system_sandbox_policy" where
  "to_sandbox_policy m =
    (case m of
      RestrictedTo es depth \<Rightarrow> \<lparr>sandbox_kind = Restricted, glob_scan_max_depth = depth, entries = es\<rparr>
    | AllFiles \<Rightarrow> unrestricted)"

definition sandbox_policy_of :: "permission_profile \<Rightarrow> file_system_sandbox_policy" where
  "sandbox_policy_of p =
    (case p of
      Managed file_system _ \<Rightarrow> to_sandbox_policy file_system
    | Disabled \<Rightarrow> unrestricted
    | External _ \<Rightarrow> external_sandbox)"

text \<open>On Unix, every entry that denies counts.\<close>

definition has_denied_read_restrictions :: "file_system_sandbox_policy \<Rightarrow> bool" where
  "has_denied_read_restrictions p \<longleftrightarrow>
    sandbox_kind p = Restricted \<and> list_ex (\<lambda>entry. access entry = DenyAccess) (entries p)"

section \<open>Requirements\<close>

type_synonym exec_policy_amendment = "string list"

datatype exec_approval_requirement =
    Skip bool "exec_policy_amendment option"
  | NeedsApproval "string option" "exec_policy_amendment option"
  | ForbiddenExec string

definition PROMPT_CONFLICT_REASON :: string where
  "PROMPT_CONFLICT_REASON = ''approval required by policy, but AskForApproval is set to Never''"

definition REJECT_SANDBOX_APPROVAL_REASON :: string where
  "REJECT_SANDBOX_APPROVAL_REASON =
    ''approval required by policy, but AskForApproval::Granular.sandbox_approval is false''"

definition REJECT_RULES_APPROVAL_REASON :: string where
  "REJECT_RULES_APPROVAL_REASON =
    ''approval required by policy rule, but AskForApproval::Granular.rules is false''"

definition BANNED_PREFIX_SUGGESTIONS :: "string list list" where
  "BANNED_PREFIX_SUGGESTIONS =
    [[''/bin/bash''], [''/bin/bash'', ''-c''], [''/bin/bash'', ''-lc''], [''/bin/sh''],
     [''/bin/sh'', ''-c''], [''/bin/sh'', ''-lc''], [''/bin/zsh''], [''/bin/zsh'', ''-c''],
     [''/bin/zsh'', ''-lc''], [''Rscript''], [''bash''], [''bash'', ''-c''], [''bash'', ''-lc''],
     [''bun''], [''bun'', ''-e''], [''bun'', ''run''], [''cmd''], [''cmd'', ''/c''], [''cmd'', ''/k''],
     [''cmd.exe''], [''cmd.exe'', ''/c''], [''cmd.exe'', ''/k''], [''dash''], [''dash'', ''-c''],
     [''deno''], [''deno'', ''eval''], [''env''], [''fish''], [''fish'', ''-c''], [''git''], [''julia''],
     [''julia'', ''-e''], [''ksh''], [''ksh'', ''-c''], [''lua''], [''lua'', ''-e''], [''node''],
     [''node'', ''-e''], [''nodejs''], [''nodejs'', ''-e''], [''npm'', ''run''], [''osascript''],
     [''perl''], [''perl'', ''-e''], [''php''], [''php'', ''-r''], [''pnpm'', ''run''], [''powershell''],
     [''powershell'', ''-Command''], [''powershell'', ''-EncodedCommand''], [''powershell'', ''-File''],
     [''powershell'', ''-c''], [''powershell.exe''], [''powershell.exe'', ''-Command''],
     [''powershell.exe'', ''-EncodedCommand''], [''powershell.exe'', ''-File''],
     [''powershell.exe'', ''-c''], [''pwsh''], [''pwsh'', ''-Command''], [''pwsh'', ''-EncodedCommand''],
     [''pwsh'', ''-File''], [''pwsh'', ''-c''], [''pwsh'', ''-e''], [''pwsh'', ''-ec''],
     [''pwsh'', ''-f''], [''py''], [''py'', ''-3''], [''pypy''], [''pypy3''], [''python''],
     [''python'', ''-''], [''python'', ''-c''], [''python3''], [''python3'', ''-''], [''python3'', ''-c''],
     [''pythonw''], [''pyw''], [''rm''], [''ruby''], [''ruby'', ''-e''], [''sh''], [''sh'', ''-c''],
     [''sh'', ''-lc''], [''sudo''], [''yarn'', ''run''], [''zsh''], [''zsh'', ''-c''], [''zsh'', ''-lc'']]"

record unmatched_command_context =
  ctx_approval_policy :: ask_for_approval
  ctx_permission_profile :: permission_profile
  ctx_sandbox_permissions :: sandbox_permissions
  ctx_used_complex_parsing :: bool

record exec_policy_commands =
  policy_commands :: "string list list"
  used_complex_parsing :: bool

text \<open>What the program takes from its surroundings: the parser of scripts, the kind of build, shell
  quoting, and the paths of the host.\<close>

record approval_env =
  shell_parser :: bash_parser
  linux_build :: bool
  shlex_try_join :: "string list \<Rightarrow> string option"
  host_paths :: host_env

fun is_policy_match :: "rule_match \<Rightarrow> bool" where
  "is_policy_match (PrefixRuleMatch _ _ _ _) = True"
| "is_policy_match (HeuristicsRuleMatch _ _) = False"

fun prompt_is_rejected_by_policy :: "ask_for_approval \<Rightarrow> bool \<Rightarrow> string option" where
  "prompt_is_rejected_by_policy Never prompt_is_rule = Some PROMPT_CONFLICT_REASON"
| "prompt_is_rejected_by_policy OnRequest prompt_is_rule = None"
| "prompt_is_rejected_by_policy UnlessTrusted prompt_is_rule = None"
| "prompt_is_rejected_by_policy (Granular granular_config) prompt_is_rule =
    (if prompt_is_rule then
       if \<not> granular_rules granular_config then Some REJECT_RULES_APPROVAL_REASON else None
     else if \<not> sandbox_approval granular_config then Some REJECT_SANDBOX_APPROVAL_REASON
     else None)"

section \<open>The fallback where no rule matches\<close>

definition render_decision_for_unmatched_command ::
  "approval_env \<Rightarrow> string list \<Rightarrow> unmatched_command_context \<Rightarrow> decision" where
  "render_decision_for_unmatched_command env command ctx =
    (let dangerous = dangerous_command_match (shell_parser env) command;
         kind = sandbox_kind (sandbox_policy_of (ctx_permission_profile ctx));
         is_known_safe = is_known_safe_command (shell_parser env) (linux_build env) command in
     if is_known_safe \<and> \<not> ctx_used_complex_parsing ctx \<and> ctx_approval_policy ctx = UnlessTrusted then Allow
     else if dangerous \<noteq> None then
       (case ctx_approval_policy ctx of Never \<Rightarrow> Forbidden | _ \<Rightarrow> Prompt)
     else case ctx_approval_policy ctx of
       Never \<Rightarrow> Allow
     | UnlessTrusted \<Rightarrow> Prompt
     | OnRequest \<Rightarrow>
         (case kind of
           Restricted \<Rightarrow> if requests_sandbox_override (ctx_sandbox_permissions ctx) then Prompt else Allow
         | _ \<Rightarrow> Allow)
     | Granular _ \<Rightarrow>
         (case kind of
           Restricted \<Rightarrow> if requests_sandbox_override (ctx_sandbox_permissions ctx) then Prompt else Allow
         | _ \<Rightarrow> Allow))"

definition dangerous_command_match_for_heuristics ::
  "approval_env \<Rightarrow> evaluation \<Rightarrow> decision \<Rightarrow> dangerous_match option" where
  "dangerous_command_match_for_heuristics env e d =
    find_map (\<lambda>m. case m of
        HeuristicsRuleMatch command matched_decision \<Rightarrow>
          if matched_decision = d then dangerous_command_match (shell_parser env) command else None
      | _ \<Rightarrow> None) (matched_rules e)"

definition commands_for_exec_policy :: "bash_parser \<Rightarrow> string list \<Rightarrow> exec_policy_commands" where
  "commands_for_exec_policy try_parse_shell command =
    (case parse_shell_lc_plain_commands try_parse_shell command of
      Some (c # cs) \<Rightarrow> \<lparr>policy_commands = c # cs, used_complex_parsing = False\<rparr>
    | _ \<Rightarrow>
        (case parse_shell_lc_single_command_prefix try_parse_shell command of
          Some single_command \<Rightarrow> \<lparr>policy_commands = [single_command], used_complex_parsing = True\<rparr>
        | None \<Rightarrow> \<lparr>policy_commands = [command], used_complex_parsing = False\<rparr>))"

section \<open>Amendments\<close>

definition try_derive_execpolicy_amendment_for_prompt_rules :: "rule_match list \<Rightarrow> exec_policy_amendment option" where
  "try_derive_execpolicy_amendment_for_prompt_rules ms =
    (if list_ex (\<lambda>m. is_policy_match m \<and> match_decision m = Prompt) ms then None
     else find_map (\<lambda>m. case m of HeuristicsRuleMatch command Prompt \<Rightarrow> Some command | _ \<Rightarrow> None) ms)"

definition try_derive_execpolicy_amendment_for_allow_rules :: "rule_match list \<Rightarrow> exec_policy_amendment option" where
  "try_derive_execpolicy_amendment_for_allow_rules ms =
    (if list_ex is_policy_match ms then None
     else find_map (\<lambda>m. case m of HeuristicsRuleMatch command Allow \<Rightarrow> Some command | _ \<Rightarrow> None) ms)"

definition prefix_rule_would_approve_all_commands ::
  "host_env \<Rightarrow> policy \<Rightarrow> string list \<Rightarrow> string list list \<Rightarrow> (string list \<Rightarrow> decision) \<Rightarrow> match_options \<Rightarrow> bool" where
  "prefix_rule_would_approve_all_commands hp p prefix commands fallback opts =
    (case add_prefix_rule p prefix Allow of
      Inl _ \<Rightarrow> False
    | Inr policy_with_prefix_rule \<Rightarrow>
        list_all (\<lambda>command.
          map_option eval_decision (check_with_options hp policy_with_prefix_rule command fallback opts)
            = Some Allow) commands)"

definition derive_requested_execpolicy_amendment_from_prefix_rule ::
  "host_env \<Rightarrow> string list option \<Rightarrow> rule_match list \<Rightarrow> policy \<Rightarrow> string list list \<Rightarrow> (string list \<Rightarrow> decision)
     \<Rightarrow> match_options \<Rightarrow> exec_policy_amendment option" where
  "derive_requested_execpolicy_amendment_from_prefix_rule hp prefix_rule ms p commands fallback opts =
    (case prefix_rule of
      None \<Rightarrow> None
    | Some prefix \<Rightarrow>
        if prefix = [] then None
        else if prefix \<in> set BANNED_PREFIX_SUGGESTIONS then None
        else if list_ex is_policy_match ms then None
        else if prefix_rule_would_approve_all_commands hp p prefix commands fallback opts then Some prefix
        else None)"

section \<open>Reasons\<close>

definition render_shlex_command :: "approval_env \<Rightarrow> string list \<Rightarrow> string" where
  "render_shlex_command env args =
    (case shlex_try_join env args of Some s \<Rightarrow> s | None \<Rightarrow> join '' '' args)"

text \<open>\<^verbatim>\<open>Iterator::max_by_key\<close> returns the last of the largest.\<close>

fun max_by_key :: "('a \<Rightarrow> nat) \<Rightarrow> 'a list \<Rightarrow> 'a option" where
  "max_by_key k [] = None"
| "max_by_key k (x # xs) =
    (case max_by_key k xs of None \<Rightarrow> Some x | Some y \<Rightarrow> if k x \<le> k y then Some y else Some x)"

definition policy_matches_with :: "decision \<Rightarrow> rule_match list \<Rightarrow> (string list \<times> string option) list" where
  "policy_matches_with d ms =
    List.map_filter (\<lambda>m. case m of
        PrefixRuleMatch pre matched_decision _ j \<Rightarrow> if matched_decision = d then Some (pre, j) else None
      | _ \<Rightarrow> None) ms"

definition BACKTICK :: string where "BACKTICK = [CHR 0x60]"

definition derive_prompt_reason :: "approval_env \<Rightarrow> string list \<Rightarrow> evaluation \<Rightarrow> string option" where
  "derive_prompt_reason env command_args e =
    (let command = render_shlex_command env command_args in
     case max_by_key (\<lambda>(pre, _). length pre) (policy_matches_with Prompt (matched_rules e)) of
       Some (_, Some justification) \<Rightarrow>
         Some (BACKTICK @ command @ BACKTICK @ '' requires approval: '' @ justification)
     | Some (_, None) \<Rightarrow> Some (BACKTICK @ command @ BACKTICK @ '' requires approval by policy'')
     | None \<Rightarrow> None)"

fun dangerous_command_rejection_reason :: "dangerous_match \<Rightarrow> string" where
  "dangerous_command_rejection_reason ForcedRm = ''rm -f style commands are not permitted. Use a safer approach''"
| "dangerous_command_rejection_reason OtherDanger = ''blocked by policy''"

definition derive_forbidden_reason ::
  "approval_env \<Rightarrow> string list \<Rightarrow> evaluation \<Rightarrow> dangerous_match option \<Rightarrow> string" where
  "derive_forbidden_reason env command_args e dangerous =
    (let command = render_shlex_command env command_args in
     case max_by_key (\<lambda>(pre, _). length pre) (policy_matches_with Forbidden (matched_rules e)) of
       Some (_, Some justification) \<Rightarrow> BACKTICK @ command @ BACKTICK @ '' rejected: '' @ justification
     | Some (pre, None) \<Rightarrow>
         BACKTICK @ command @ BACKTICK @ '' rejected: policy forbids commands starting with '' @ BACKTICK @
           render_shlex_command env pre @ BACKTICK
     | None \<Rightarrow>
         (case dangerous of
           Some m \<Rightarrow> BACKTICK @ command @ BACKTICK @ '' rejected: '' @ dangerous_command_rejection_reason m
         | None \<Rightarrow> BACKTICK @ command @ BACKTICK @ '' rejected: blocked by policy''))"

definition derive_rejected_prompt_reason :: "string \<Rightarrow> dangerous_match option \<Rightarrow> string" where
  "derive_rejected_prompt_reason fallback_reason dangerous =
    (case dangerous of
      Some ForcedRm \<Rightarrow> dangerous_command_rejection_reason ForcedRm
    | _ \<Rightarrow> fallback_reason)"

section \<open>The requirement of a command\<close>

record exec_approval_request =
  req_command :: "string list"
  req_approval_policy :: ask_for_approval
  req_permission_profile :: permission_profile
  req_sandbox_permissions :: sandbox_permissions
  req_prefix_rule :: "string list option"

definition approval_options :: match_options where
  "approval_options = \<lparr>resolve_host_executables = True\<rparr>"

definition exec_policy_fallback :: "approval_env \<Rightarrow> exec_approval_request \<Rightarrow> string list \<Rightarrow> decision" where
  "exec_policy_fallback env req cmd =
    render_decision_for_unmatched_command env cmd
      \<lparr>ctx_approval_policy = req_approval_policy req,
       ctx_permission_profile = req_permission_profile req,
       ctx_sandbox_permissions = req_sandbox_permissions req,
       ctx_used_complex_parsing =
         used_complex_parsing (commands_for_exec_policy (shell_parser env) (req_command req))\<rparr>"

definition allowed_by_rule :: "approval_env \<Rightarrow> policy \<Rightarrow> string list \<Rightarrow> bool" where
  "allowed_by_rule env p command =
    list_ex (\<lambda>m. is_policy_match m \<and> match_decision m = Allow)
      (matches_for_command_with_options (host_paths env) p command None approval_options)"

definition requested_amendment ::
  "approval_env \<Rightarrow> policy \<Rightarrow> exec_approval_request \<Rightarrow> evaluation \<Rightarrow> exec_policy_amendment option" where
  "requested_amendment env p req e =
    (let cmds = commands_for_exec_policy (shell_parser env) (req_command req) in
     if \<not> used_complex_parsing cmds then
       derive_requested_execpolicy_amendment_from_prefix_rule (host_paths env) (req_prefix_rule req)
         (matched_rules e) p (policy_commands cmds) (exec_policy_fallback env req) approval_options
     else None)"

definition requirement_for ::
  "approval_env \<Rightarrow> policy \<Rightarrow> exec_approval_request \<Rightarrow> evaluation \<Rightarrow> exec_approval_requirement" where
  "requirement_for env p req e =
    (let cmds = commands_for_exec_policy (shell_parser env) (req_command req);
         auto_amendment_allowed = (\<not> used_complex_parsing cmds) in
     case eval_decision e of
       Forbidden \<Rightarrow>
         ForbiddenExec (derive_forbidden_reason env (req_command req) e
           (dangerous_command_match_for_heuristics env e Forbidden))
     | Prompt \<Rightarrow>
         (let prompt_is_rule = list_ex (\<lambda>m. is_policy_match m \<and> match_decision m = Prompt) (matched_rules e) in
          case prompt_is_rejected_by_policy (req_approval_policy req) prompt_is_rule of
            Some reason \<Rightarrow>
              if prompt_is_rule then ForbiddenExec reason
              else ForbiddenExec (derive_rejected_prompt_reason reason
                (dangerous_command_match_for_heuristics env e Prompt))
          | None \<Rightarrow>
              NeedsApproval (derive_prompt_reason env (req_command req) e)
                (case requested_amendment env p req e of
                  Some a \<Rightarrow> Some a
                | None \<Rightarrow>
                    if auto_amendment_allowed
                    then try_derive_execpolicy_amendment_for_prompt_rules (matched_rules e) else None))
     | Allow \<Rightarrow>
         Skip (list_all (allowed_by_rule env p) (policy_commands cmds))
           (if auto_amendment_allowed
            then try_derive_execpolicy_amendment_for_allow_rules (matched_rules e) else None))"

text \<open>The evaluation panics on a list without commands, which is the value \<^const>\<open>None\<close>.\<close>

definition create_exec_approval_requirement_for_command ::
  "approval_env \<Rightarrow> policy \<Rightarrow> exec_approval_request \<Rightarrow> exec_approval_requirement option" where
  "create_exec_approval_requirement_for_command env p req =
    map_option (requirement_for env p req)
      (check_multiple_with_options (host_paths env) p
        (policy_commands (commands_for_exec_policy (shell_parser env) (req_command req)))
        (exec_policy_fallback env req) approval_options)"

section \<open>The sandbox of the first attempt\<close>

datatype sandbox_override = NoOverride | BypassSandboxFirstAttempt

definition unsandboxed_execution_allowed :: "file_system_sandbox_policy \<Rightarrow> bool" where
  "unsandboxed_execution_allowed p \<longleftrightarrow> \<not> has_denied_read_restrictions p"

definition sandbox_override_for_first_attempt ::
  "sandbox_permissions \<Rightarrow> exec_approval_requirement \<Rightarrow> file_system_sandbox_policy \<Rightarrow> sandbox_override" where
  "sandbox_override_for_first_attempt permissions requirement fs_policy =
    (if \<not> unsandboxed_execution_allowed fs_policy then NoOverride
     else case requirement of
       Skip True _ \<Rightarrow> BypassSandboxFirstAttempt
     | _ \<Rightarrow>
         if requires_escalated_permissions permissions then BypassSandboxFirstAttempt else NoOverride)"

definition sandbox_permissions_preserving_denied_reads ::
  "sandbox_permissions \<Rightarrow> file_system_sandbox_policy \<Rightarrow> sandbox_permissions" where
  "sandbox_permissions_preserving_denied_reads permissions fs_policy =
    (if requires_escalated_permissions permissions \<and> \<not> unsandboxed_execution_allowed fs_policy
     then UseDefault else permissions)"

definition default_exec_approval_requirement ::
  "ask_for_approval \<Rightarrow> file_system_sandbox_policy \<Rightarrow> exec_approval_requirement" where
  "default_exec_approval_requirement ask fs_policy =
    (let needs_approval =
       (case ask of
         Never \<Rightarrow> False
       | OnRequest \<Rightarrow> sandbox_kind fs_policy = Restricted
       | Granular _ \<Rightarrow> sandbox_kind fs_policy = Restricted
       | UnlessTrusted \<Rightarrow> True) in
     if needs_approval \<and> (case ask of Granular granular_config \<Rightarrow> \<not> sandbox_approval granular_config | _ \<Rightarrow> False)
     then ForbiddenExec ''approval policy disallowed sandbox approval prompt''
     else if needs_approval then NeedsApproval None None
     else Skip False None)"

section \<open>Matches of a command\<close>

lemma matches_with_fallback:
  "matches_for_command_with_options hp p cmd (Some f) opts =
    (let ms = matches_for_command_with_options hp p cmd None opts in
     if ms = [] then [HeuristicsRuleMatch cmd (f cmd)] else ms)"
  by (auto simp: matches_for_command_with_options_def Let_def split: list.splits)

lemma rule_matches_policy: "rule_matches r cmd = Some m \<Longrightarrow> is_policy_match m"
  by (auto simp: rule_matches_iff)

lemma with_resolved_program_policy [simp]: "is_policy_match (with_resolved_program q m) = is_policy_match m"
  by (cases m) simp_all

lemma matched_rules_policy: "m \<in> set (List.map_filter (\<lambda>r. rule_matches r cmd) rs) \<Longrightarrow> is_policy_match m"
  by (auto simp: map_filter_def dest: rule_matches_policy)

lemma exact_matches_policy: "match_exact_rules p cmd = Some ms \<Longrightarrow> m \<in> set ms \<Longrightarrow> is_policy_match m"
  by (auto simp: match_exact_rules_def split: list.splits option.splits dest: matched_rules_policy)

lemma host_matches_policy: "m \<in> set (match_host_executable_rules hp p cmd) \<Longrightarrow> is_policy_match m"
  by (auto simp: match_host_executable_rules_def split: list.splits sum.splits option.splits if_splits)
    (erule matched_rules_policy)+

lemma matches_are_policy:
  assumes "m \<in> set (matches_for_command_with_options hp p cmd None opts)"
  shows "is_policy_match m"
proof (cases "match_exact_rules p cmd \<in> {None, Some []}")
  case True
  then have "m \<in> set (match_host_executable_rules hp p cmd)"
    using assms by (auto simp: matches_for_command_with_options_def Let_def split: list.splits if_splits)
  then show ?thesis by (rule host_matches_policy)
next
  case False
  then obtain x xs where "match_exact_rules p cmd = Some (x # xs)" by (auto simp: neq_Nil_conv)
  moreover from this have "m \<in> set (x # xs)"
    using assms by (simp add: matches_for_command_with_options_def Let_def)
  ultimately show ?thesis by (rule exact_matches_policy)
qed

lemma evaluation_of:
  "check_multiple_with_options hp p cmds f opts = Some e \<longleftrightarrow>
    cmds \<noteq> [] \<and> e = \<lparr>eval_decision = Max (match_decision ` set (matched_rules e)),
      matched_rules = concat (map (\<lambda>cmd. matches_for_command_with_options hp p cmd (Some f) opts) cmds)\<rparr>"
proof -
  have "concat (map (\<lambda>cmd. matches_for_command_with_options hp p cmd (Some f) opts) cmds) = [] \<longleftrightarrow> cmds = []"
    using matches_with_fallback_not_Nil [of hp p _ f opts] by (cases cmds) auto
  then show ?thesis
    by (cases e) (auto simp: check_multiple_with_options_def from_matches_eq)
qed

lemma evaluation_bound:
  assumes "check_multiple_with_options hp p cmds f opts = Some e" and "c \<in> set cmds"
    and "m \<in> set (matches_for_command_with_options hp p c (Some f) opts)"
  shows "m \<in> set (matched_rules e)" and "match_decision m \<le> eval_decision e"
proof -
  have rules: "matched_rules e = concat (map (\<lambda>cmd. matches_for_command_with_options hp p cmd (Some f) opts) cmds)"
    and eval: "eval_decision e = Max (match_decision ` set (matched_rules e))"
    using assms(1) unfolding evaluation_of by (metis evaluation.select_convs)+
  show in_e: "m \<in> set (matched_rules e)" unfolding rules using assms(2,3) by auto
  then show "match_decision m \<le> eval_decision e" unfolding eval by (intro Max_ge) auto
qed

lemma Allow_least [simp]: "d \<le> Allow \<longleftrightarrow> d = Allow" "Allow \<le> d"
  by (cases d; simp add: less_eq_decision_def)+

lemma Forbidden_greatest [simp]: "Forbidden \<le> d \<longleftrightarrow> d = Forbidden"
  by (cases d) (simp_all add: less_eq_decision_def)

lemma commands_not_empty: "policy_commands (commands_for_exec_policy try_parse_shell command) \<noteq> []"
  by (auto simp: commands_for_exec_policy_def split: option.splits list.splits)

lemma requirement_exists:
  obtains e where "check_multiple_with_options (host_paths env) p
      (policy_commands (commands_for_exec_policy (shell_parser env) (req_command req)))
      (exec_policy_fallback env req) approval_options = Some e"
    "create_exec_approval_requirement_for_command env p req = Some (requirement_for env p req e)"
proof -
  obtain c cs where cmds: "policy_commands (commands_for_exec_policy (shell_parser env) (req_command req)) = c # cs"
    using commands_not_empty [of "shell_parser env" "req_command req"] by (auto simp: neq_Nil_conv)
  have "check_multiple_with_options (host_paths env) p
      (policy_commands (commands_for_exec_policy (shell_parser env) (req_command req)))
      (exec_policy_fallback env req) approval_options \<noteq> None"
    unfolding cmds by (simp add: check_multiple_with_options_def from_matches_eq matches_with_fallback_not_Nil)
  then show ?thesis using that by (auto simp: create_exec_approval_requirement_for_command_def)
qed

lemma requirement_Skip:
  "requirement_for env p req e = Skip b a \<Longrightarrow> eval_decision e = Allow \<and>
    (b \<longleftrightarrow> list_all (allowed_by_rule env p) (policy_commands (commands_for_exec_policy (shell_parser env) (req_command req))))"
  by (auto simp: requirement_for_def Let_def split: decision.splits option.splits if_splits)

section \<open>Dangerous commands are evaluated\<close>

text \<open>A danger in a script is a danger of one of the commands that the policy is asked about.\<close>

lemma dangerous_command_evaluated:
  assumes "bash_grammar try_parse_shell" and "dangerous_command_match try_parse_shell command \<noteq> None"
  obtains c where "c \<in> set (policy_commands (commands_for_exec_policy try_parse_shell command))"
    "dangerous_command_match try_parse_shell c \<noteq> None"
proof (cases "extract_bash_command command = None")
  case True
  then have "policy_commands (commands_for_exec_policy try_parse_shell command) = [command]"
    by (simp add: commands_for_exec_policy_def parse_shell_lc_plain_commands_def parse_shell_lc_single_command_prefix_def)
  with assms(2) that show ?thesis by simp
next
  case False
  with assms(2) obtain ls where ls: "parse_shell_lc_literal_commands try_parse_shell command = Some ls"
    "find_map (\<lambda>c. dangerous_command_match_with_depth try_parse_shell c 1) ls \<noteq> None"
    by (cases "parse_shell_lc_literal_commands try_parse_shell command")
      (auto simp: dangerous_command_match_def dangerous_script split: if_splits)
  then obtain l where l: "l \<in> set ls" "dangerous_command_match_with_depth try_parse_shell l 1 \<noteq> None"
    by (auto simp: find_map_None)
  then have danger: "dangerous_command_match try_parse_shell l \<noteq> None"
    using dangerous_depth_mono [of try_parse_shell l 1 0] by (simp add: dangerous_command_match_def)
  note unfold = commands_for_exec_policy_def [of try_parse_shell command]
  consider c cs where "parse_shell_lc_plain_commands try_parse_shell command = Some (c # cs)"
      "policy_commands (commands_for_exec_policy try_parse_shell command) = c # cs"
    | ws where "parse_shell_lc_single_command_prefix try_parse_shell command = Some ws"
      "policy_commands (commands_for_exec_policy try_parse_shell command) = [ws]"
    | "policy_commands (commands_for_exec_policy try_parse_shell command) = [command]"
  proof (cases "\<exists>c cs. parse_shell_lc_plain_commands try_parse_shell command = Some (c # cs)")
    case True
    with that(1) show ?thesis by (auto simp: unfold)
  next
    case False
    then have "commands_for_exec_policy try_parse_shell command =
        (case parse_shell_lc_single_command_prefix try_parse_shell command of
          Some single_command \<Rightarrow> \<lparr>policy_commands = [single_command], used_complex_parsing = True\<rparr>
        | None \<Rightarrow> \<lparr>policy_commands = [command], used_complex_parsing = False\<rparr>)"
      by (auto simp: unfold split: option.splits list.splits)
    with that(2,3) show ?thesis
      by (cases "parse_shell_lc_single_command_prefix try_parse_shell command") auto
  qed
  then show ?thesis
  proof cases
    case 1
    with plain_commands_cover_literal [OF assms(1) 1(1) ls(1)] l(1) danger that show ?thesis by auto
  next
    case 2
    with heredoc_command_covers_literal [OF assms(1) 2(1) ls(1)] l(1) danger that show ?thesis by auto
  next
    case 3
    with assms(2) that show ?thesis by simp
  qed
qed

lemma fallback_dangerous:
  assumes "bash_grammar (shell_parser env)" and "dangerous_command_match (shell_parser env) cmd \<noteq> None"
  shows "render_decision_for_unmatched_command env cmd ctx =
    (if ctx_approval_policy ctx = Never then Forbidden else Prompt)"
  using assms known_safe_not_dangerous [OF assms(1)]
  by (auto simp: render_decision_for_unmatched_command_def Let_def split: ask_for_approval.splits)

section \<open>Prompts\<close>

lemma max_by_key_None [simp]: "max_by_key k xs = None \<longleftrightarrow> xs = []"
  by (induction xs) (auto split: option.splits)

lemma derive_prompt_reason_None:
  "derive_prompt_reason env args e = None \<longleftrightarrow>
    \<not> list_ex (\<lambda>m. is_policy_match m \<and> match_decision m = Prompt) (matched_rules e)"
proof -
  have "policy_matches_with Prompt ms = [] \<longleftrightarrow> \<not> list_ex (\<lambda>m. is_policy_match m \<and> match_decision m = Prompt) ms" for ms
  proof (induction ms)
    case (Cons m ms)
    then show ?case by (cases m) (auto simp: policy_matches_with_def)
  qed (simp add: policy_matches_with_def)
  moreover have "derive_prompt_reason env args e = None \<longleftrightarrow>
      max_by_key (\<lambda>(pre, _). length pre) (policy_matches_with Prompt (matched_rules e)) = None"
    by (auto simp: derive_prompt_reason_def Let_def simp del: max_by_key_None split: option.splits)
  ultimately show ?thesis by simp
qed

section \<open>Properties\<close>

text \<open>C3: A dangerous command never runs without asking, unless a rule allows it.  If a request with a
  dangerous command is to be run without approval, then one of the commands in it that the policy
  was asked about is itself dangerous and is explicitly allowed by a rule.  This holds in every
  approval setting and however the danger is wrapped, also inside scripts and here-documents.\<close>

theorem dangerous_runs_only_by_rule:
  assumes "bash_grammar (shell_parser env)"
    and "dangerous_command_match (shell_parser env) (req_command req) \<noteq> None"
    and "create_exec_approval_requirement_for_command env p req = Some (Skip b a)"
  shows "\<exists>c \<in> set (policy_commands (commands_for_exec_policy (shell_parser env) (req_command req))).
    dangerous_command_match (shell_parser env) c \<noteq> None \<and> allowed_by_rule env p c"
proof -
  obtain e where e: "check_multiple_with_options (host_paths env) p
      (policy_commands (commands_for_exec_policy (shell_parser env) (req_command req)))
      (exec_policy_fallback env req) approval_options = Some e" "eval_decision e = Allow"
    using assms(3) requirement_exists [of env p req] requirement_Skip by (metis option.inject)
  obtain c where c: "c \<in> set (policy_commands (commands_for_exec_policy (shell_parser env) (req_command req)))"
    "dangerous_command_match (shell_parser env) c \<noteq> None"
    by (rule dangerous_command_evaluated [OF assms(1,2)])
  let ?rules = "matches_for_command_with_options (host_paths env) p c None approval_options"
  note bound = evaluation_bound(2) [OF e(1) c(1), unfolded e(2) Allow_least matches_with_fallback Let_def]
  have "exec_policy_fallback env req c \<noteq> Allow"
    using fallback_dangerous [OF assms(1) c(2)] by (simp add: exec_policy_fallback_def)
  then obtain m where "m \<in> set ?rules" "match_decision m = Allow"
    using bound by (cases "?rules = []") (fastforce simp: neq_Nil_conv)+
  then have "allowed_by_rule env p c"
    using matches_are_policy by (auto simp: allowed_by_rule_def list_ex_iff)
  with c show ?thesis by blast
qed

definition approval_sample :: approval_env where
  "approval_sample =
    \<lparr>shell_parser = sample_parser, linux_build = True, shlex_try_join = (\<lambda>args. Some (join '' '' args)),
     host_paths = sample_env\<rparr>"

definition sudo_policy :: policy where
  "sudo_policy =
    \<lparr>rules_by_program = [(''sudo'', single_rule ''sudo'' [''rm''] Allow)], network_rules = [], host_executables_by_name = []\<rparr>"

definition sudo_request :: exec_approval_request where
  "sudo_request =
    \<lparr>req_command = [''sudo'', ''rm'', ''-f'', ''x''], req_approval_policy = Never, req_permission_profile = Disabled,
     req_sandbox_permissions = UseDefault, req_prefix_rule = None\<rparr>"

theorem dangerous_runs_only_by_rule_witness:
  "create_exec_approval_requirement_for_command approval_sample sudo_policy sudo_request = Some (Skip True None) \<and>
   dangerous_command_match sample_parser [''sudo'', ''rm'', ''-f'', ''x''] = Some ForcedRm \<and>
   allowed_by_rule approval_sample sudo_policy [''sudo'', ''rm'', ''-f'', ''x'']"
proof -
  have run: "create_exec_approval_requirement_for_command approval_sample sudo_policy sudo_request = Some (Skip True None)"
    by code_simp
  have danger: "dangerous_command_match sample_parser [''sudo'', ''rm'', ''-f'', ''x''] = Some ForcedRm" by code_simp
  have cmds: "policy_commands (commands_for_exec_policy (shell_parser approval_sample) (req_command sudo_request)) =
      [[''sudo'', ''rm'', ''-f'', ''x'']]" by code_simp
  have "bash_grammar (shell_parser approval_sample)" using sample_grammar by (simp add: approval_sample_def)
  moreover have "dangerous_command_match (shell_parser approval_sample) (req_command sudo_request) \<noteq> None"
    using danger by (simp add: approval_sample_def sudo_request_def)
  ultimately show ?thesis
    using dangerous_runs_only_by_rule [OF _ _ run] run danger unfolding cmds by simp
qed

text \<open>C16: When the sandbox is left out.  If the first attempt runs outside the sandbox without a request
  for escalation, then the active policy denies no reads, nothing is to be asked, and every command
  in the request is matched by rules all of which allow it.\<close>

theorem sandbox_left_out_only_by_rules:
  assumes "create_exec_approval_requirement_for_command env p req = Some requirement"
    and "sandbox_override_for_first_attempt permissions requirement fs_policy = BypassSandboxFirstAttempt"
    and "permissions \<noteq> RequireEscalated"
  shows "\<not> has_denied_read_restrictions fs_policy \<and> (\<exists>a. requirement = Skip True a) \<and>
    (\<forall>c \<in> set (policy_commands (commands_for_exec_policy (shell_parser env) (req_command req))).
      allowed_by_rule env p c \<and>
      (\<forall>m \<in> set (matches_for_command_with_options (host_paths env) p c None approval_options). match_decision m = Allow))"
proof -
  obtain a where skip: "requirement = Skip True a" and reads: "\<not> has_denied_read_restrictions fs_policy"
    using assms(2,3)
    by (auto simp: sandbox_override_for_first_attempt_def unsandboxed_execution_allowed_def
        requires_escalated_permissions_def split: if_splits exec_approval_requirement.splits bool.splits)
  obtain e where e: "check_multiple_with_options (host_paths env) p
      (policy_commands (commands_for_exec_policy (shell_parser env) (req_command req)))
      (exec_policy_fallback env req) approval_options = Some e" "requirement_for env p req e = Skip True a"
    using assms(1) skip requirement_exists [of env p req] by (metis option.inject)
  note allow = requirement_Skip [OF e(2)]
  have "match_decision m = Allow"
    if "c \<in> set (policy_commands (commands_for_exec_policy (shell_parser env) (req_command req)))"
      "m \<in> set (matches_for_command_with_options (host_paths env) p c None approval_options)" for c m
  proof -
    from that(2) have "m \<in> set (matches_for_command_with_options (host_paths env) p c (Some (exec_policy_fallback env req)) approval_options)"
      by (subst matches_with_fallback) (auto simp: Let_def)
    from evaluation_bound(2) [OF e(1) that(1) this] allow show ?thesis by simp
  qed
  with skip reads allow show ?thesis by (simp add: list_all_iff)
qed

theorem sandbox_left_out_only_by_rules_witness:
  "sandbox_override_for_first_attempt UseDefault (Skip True None) unrestricted = BypassSandboxFirstAttempt \<and>
   allowed_by_rule approval_sample sudo_policy [''sudo'', ''rm'', ''-f'', ''x'']"
proof -
  have run: "create_exec_approval_requirement_for_command approval_sample sudo_policy sudo_request = Some (Skip True None)"
    by code_simp
  have bypass: "sandbox_override_for_first_attempt UseDefault (Skip True None) unrestricted = BypassSandboxFirstAttempt"
    by code_simp
  have cmds: "policy_commands (commands_for_exec_policy (shell_parser approval_sample) (req_command sudo_request)) =
      [[''sudo'', ''rm'', ''-f'', ''x'']]" by code_simp
  show ?thesis using sandbox_left_out_only_by_rules [OF run bypass] bypass unfolding cmds by simp
qed


end
