(* ===== verification/Requirements_Policy.thy ===== *)
theory Requirements_Policy
  imports Exec_Policy
begin

text \<open>The rules an administrator requires (\<^verbatim>\<open>codex-rs/config/src/requirements_exec_policy.rs\<close>): the
  tables of the requirements file, after TOML parsing, are checked and become a policy that is laid
  over the user's rules.  No rule of it allows anything.\<close>

section \<open>From tables to a policy\<close>

datatype requirements_decision = RequiredAllow | RequiredPrompt | RequiredForbidden

fun as_decision :: "requirements_decision \<Rightarrow> decision" where
  "as_decision RequiredAllow = Allow"
| "as_decision RequiredPrompt = Prompt"
| "as_decision RequiredForbidden = Forbidden"

record requirements_pattern_token =
  toml_token :: "string option"
  toml_any_of :: "string list option"

record requirements_prefix_rule =
  toml_pattern :: "requirements_pattern_token list"
  toml_decision :: "requirements_decision option"
  toml_justification :: "string option"

datatype requirements_parse_error =
    EmptyPrefixRules
  | EmptyPattern nat
  | InvalidPatternToken nat nat string
  | EmptyJustification nat
  | MissingDecision nat
  | AllowDecisionNotAllowed nat

definition parse_requirements_token ::
  "requirements_pattern_token \<Rightarrow> nat \<Rightarrow> nat \<Rightarrow> requirements_parse_error + pattern_token" where
  "parse_requirements_token token rule_index token_index =
    (case (toml_token token, toml_any_of token) of
      (Some single, None) \<Rightarrow>
        if trim single = [] then Inl (InvalidPatternToken rule_index token_index ''token cannot be empty'')
        else Inr (Single single)
    | (None, Some alts) \<Rightarrow>
        if alts = [] then Inl (InvalidPatternToken rule_index token_index ''any_of cannot be empty'')
        else if list_ex (\<lambda>alt. trim alt = []) alts then
          Inl (InvalidPatternToken rule_index token_index ''any_of cannot include empty tokens'')
        else Inr (Alts alts)
    | (Some _, Some _) \<Rightarrow>
        Inl (InvalidPatternToken rule_index token_index ''set either token or any_of, not both'')
    | (None, None) \<Rightarrow> Inl (InvalidPatternToken rule_index token_index ''set either token or any_of''))"

definition parse_requirements_rule ::
  "nat \<Rightarrow> requirements_prefix_rule \<Rightarrow> requirements_parse_error + rule_multimap" where
  "parse_requirements_rule rule_index rule =
    (if justification_blank (toml_justification rule) then Inl (EmptyJustification rule_index)
     else if toml_pattern rule = [] then Inl (EmptyPattern rule_index)
     else and_then (collect_results (\<lambda>(token_index, token). parse_requirements_token token rule_index token_index)
         (List.enumerate 0 (toml_pattern rule))) (\<lambda>pattern_tokens.
       case toml_decision rule of
         Some RequiredAllow \<Rightarrow> Inl (AllowDecisionNotAllowed rule_index)
       | None \<Rightarrow> Inl (MissingDecision rule_index)
       | Some d \<Rightarrow>
           (case pattern_tokens of
             [] \<Rightarrow> Inl (EmptyPattern rule_index)
           | first_token # remaining_tokens \<Rightarrow>
               Inr (map (\<lambda>head. (head, \<lparr>pattern = \<lparr>first = head, rest = remaining_tokens\<rparr>,
                   rule_decision = as_decision d, rule_justification = toml_justification rule\<rparr>))
                 (alternatives first_token)))))"

definition to_policy :: "requirements_prefix_rule list \<Rightarrow> requirements_parse_error + policy" where
  "to_policy prefix_rules =
    (if prefix_rules = [] then Inl EmptyPrefixRules
     else and_then (collect_results (\<lambda>(rule_index, rule). parse_requirements_rule rule_index rule)
         (List.enumerate 0 prefix_rules)) (\<lambda>rules.
       Inr \<lparr>rules_by_program = concat rules, network_rules = [], host_executables_by_name = []\<rparr>))"

section \<open>What such a policy is\<close>

lemma collect_results_in:
  "collect_results f xs = Inr ys \<Longrightarrow> y \<in> set ys \<Longrightarrow> \<exists>x \<in> set xs. f x = Inr y"
  by (induction xs arbitrary: ys) (auto simp: and_then_def split: sum.splits)

lemma parse_requirements_rule_result:
  assumes "parse_requirements_rule i rule = Inr rs" and "(k, r) \<in> set rs"
  shows "k = rule_program r \<and> rule_decision r \<noteq> Allow"
  using assms
  by (auto simp: parse_requirements_rule_def and_then_def rule_program_def
      split: if_splits sum.splits option.splits requirements_decision.splits list.splits)

lemma to_policy_rules:
  assumes "to_policy rules = Inr q" and "(k, r) \<in> set (rules_by_program q)"
  shows "k = rule_program r \<and> rule_decision r \<noteq> Allow"
  using assms parse_requirements_rule_result
  by (fastforce simp: to_policy_def and_then_def split: if_splits sum.splits dest: collect_results_in)

lemma to_policy_keyed: "to_policy rules = Inr q \<Longrightarrow> well_keyed q"
  using to_policy_rules by (fastforce simp: well_keyed_def)

lemma to_policy_restricts:
  assumes "to_policy rules = Inr q" and "m \<in> set (matching q cmd)"
  shows "match_decision m \<noteq> Allow"
proof -
  obtain k r where "(k, r) \<in> set (rules_by_program q)" "rule_matches r cmd = Some m"
    using assms(2) by (auto simp: matching_def map_filter_def)
  with to_policy_rules [OF assms(1)] show ?thesis by (auto simp: rule_matches_iff)
qed

end
