(* ===== verification/Policy_Manager.thy ===== *)
theory Policy_Manager
  imports Exec_Approval Requirements_Policy
begin

text \<open>The manager of the policy (\<^verbatim>\<open>codex-rs/core/src/exec_policy.rs\<close>): loading the rules of the
  configuration layers under the administrator's requirements, and amending the policy when the user
  approves a command for the future.\<close>

section \<open>Amending the policy\<close>

text \<open>An update appends to the rules file and then changes the policy in memory.  Updates are made one
  at a time, under the manager's lock, and the background task that writes the file is not cancelled.\<close>

datatype exec_policy_update_error = AppendRule string amend_error | AddRule policy_error

definition path_join :: "string \<Rightarrow> string \<Rightarrow> string" where
  "path_join dir name = (if dir = [] \<or> last dir = CHR ''/'' then dir @ name else dir @ ''/'' @ name)"

definition default_policy_path :: "string \<Rightarrow> string" where
  "default_policy_path codex_home = path_join (path_join codex_home ''rules'') ''default.rules''"

definition already_allowed :: "approval_env \<Rightarrow> policy \<Rightarrow> exec_policy_amendment \<Rightarrow> bool" where
  "already_allowed env p amendment =
    (case check_multiple_with_options (host_paths env) p [amendment] (\<lambda>_. Forbidden) approval_options of
      None \<Rightarrow> False
    | Some e \<Rightarrow> eval_decision e = Allow \<and>
        list_ex (\<lambda>m. is_policy_match m \<and> match_decision m = Allow) (matched_rules e))"

definition append_amendment_and_update ::
  "'w policy_file_ops \<Rightarrow> approval_env \<Rightarrow> string \<Rightarrow> exec_policy_amendment \<Rightarrow> policy \<Rightarrow> 'w
     \<Rightarrow> (exec_policy_update_error + unit) \<times> policy \<times> 'w" where
  "append_amendment_and_update ops env codex_home amendment current_policy w =
    (let policy_path = default_policy_path codex_home in
     case blocking_append_allow_prefix_rule ops policy_path amendment w of
       (Inl err, w) \<Rightarrow> (Inl (AppendRule policy_path err), current_policy, w)
     | (Inr _, w) \<Rightarrow>
         if already_allowed env current_policy amendment then (Inr (), current_policy, w)
         else case add_prefix_rule current_policy amendment Allow of
           Inl err \<Rightarrow> (Inl (AddRule err), current_policy, w)
         | Inr updated_policy \<Rightarrow> (Inr (), updated_policy, w))"

definition append_network_rule_and_update ::
  "'w policy_file_ops \<Rightarrow> string \<Rightarrow> string \<Rightarrow> network_rule_protocol \<Rightarrow> decision \<Rightarrow> string option \<Rightarrow> policy \<Rightarrow> 'w
     \<Rightarrow> (exec_policy_update_error + unit) \<times> policy \<times> 'w" where
  "append_network_rule_and_update ops codex_home h proto d justification current_policy w =
    (let policy_path = default_policy_path codex_home in
     case blocking_append_network_rule ops policy_path h proto d justification w of
       (Inl err, w) \<Rightarrow> (Inl (AppendRule policy_path err), current_policy, w)
     | (Inr _, w) \<Rightarrow>
         (case add_network_rule current_policy h proto d justification of
           Inl err \<Rightarrow> (Inl (AddRule err), current_policy, w)
         | Inr updated_policy \<Rightarrow> (Inr (), updated_policy, w)))"

section \<open>Loading the policy\<close>

datatype exec_policy_error = ReadDir string | ReadFile string | ParsePolicy string policy_error

datatype config_layer_source = UserLayer | ProjectLayer | OtherLayer

record config_layer =
  layer_name :: config_layer_source
  config_folder :: "string option"

text \<open>The enabled layers, with the lowest precedence first.\<close>

record config_layer_stack =
  config_layers :: "config_layer list"
  ignore_user_and_project_exec_policy_rules :: bool
  requirements_exec_policy :: "policy option"

datatype dir_entry = EntryError | Entry string "bool option"

datatype dir_listing = DirNotFound | DirError | DirEntries "dir_entry list"

record rules_store =
  read_dir :: "string \<Rightarrow> dir_listing"
  read_rules_file :: "string \<Rightarrow> string option"

definition file_extension :: "string \<Rightarrow> string option" where
  "file_extension name =
    (case rsplit_once (CHR ''.'') name of
      None \<Rightarrow> None
    | Some (before, after) \<Rightarrow> if before = [] then None else Some after)"

fun collect_entries :: "string \<Rightarrow> dir_entry list \<Rightarrow> string list \<Rightarrow> exec_policy_error + string list" where
  "collect_entries dir [] policy_paths = Inr policy_paths"
| "collect_entries dir (EntryError # es) policy_paths = Inl (ReadDir dir)"
| "collect_entries dir (Entry name None # es) policy_paths = Inl (ReadDir dir)"
| "collect_entries dir (Entry name (Some is_file) # es) policy_paths =
    (if file_extension name = Some ''rules'' \<and> is_file
     then collect_entries dir es (policy_paths @ [path_join dir name])
     else collect_entries dir es policy_paths)"

definition collect_policy_files :: "rules_store \<Rightarrow> string \<Rightarrow> exec_policy_error + string list" where
  "collect_policy_files store dir =
    (case read_dir store dir of
      DirNotFound \<Rightarrow> Inr []
    | DirError \<Rightarrow> Inl (ReadDir dir)
    | DirEntries es \<Rightarrow> and_then (collect_entries dir es []) (\<lambda>policy_paths. Inr (sort policy_paths)))"

definition layer_policy_paths ::
  "rules_store \<Rightarrow> config_layer_stack \<Rightarrow> config_layer \<Rightarrow> exec_policy_error + string list" where
  "layer_policy_paths store stack layer =
    (if ignore_user_and_project_exec_policy_rules stack \<and> layer_name layer \<in> {UserLayer, ProjectLayer} then Inr []
     else case config_folder layer of
       None \<Rightarrow> Inr []
     | Some folder \<Rightarrow> collect_policy_files store (path_join folder ''rules''))"

fun parse_rules_files ::
  "starlark \<Rightarrow> (policy_error \<Rightarrow> string) \<Rightarrow> host_env \<Rightarrow> rules_store \<Rightarrow> string list \<Rightarrow> policy_builder
     \<Rightarrow> exec_policy_error + policy_builder" where
  "parse_rules_files interpret display hp store [] b = Inr b"
| "parse_rules_files interpret display hp store (policy_path # ps) b =
    (case read_rules_file store policy_path of
      None \<Rightarrow> Inl (ReadFile policy_path)
    | Some contents \<Rightarrow>
        (case parse_policy interpret display hp policy_path contents b of
          (_, Inl err) \<Rightarrow> Inl (ParsePolicy policy_path err)
        | (b, Inr _) \<Rightarrow> parse_rules_files interpret display hp store ps b))"

definition load_exec_policy ::
  "starlark \<Rightarrow> (policy_error \<Rightarrow> string) \<Rightarrow> host_env \<Rightarrow> rules_store \<Rightarrow> config_layer_stack \<Rightarrow> exec_policy_error + policy" where
  "load_exec_policy interpret display hp store stack =
    and_then (collect_results (layer_policy_paths store stack) (config_layers stack)) (\<lambda>policy_paths.
    and_then (parse_rules_files interpret display hp store (concat policy_paths) builder_new) (\<lambda>b.
      case requirements_exec_policy stack of
        None \<Rightarrow> Inr (builder_build b)
      | Some requirements_policy \<Rightarrow> Inr (merge_overlay (builder_build b) requirements_policy)))"

definition load_exec_policy_with_warning ::
  "starlark \<Rightarrow> (policy_error \<Rightarrow> string) \<Rightarrow> host_env \<Rightarrow> rules_store \<Rightarrow> config_layer_stack
     \<Rightarrow> exec_policy_error + policy \<times> exec_policy_error option" where
  "load_exec_policy_with_warning interpret display hp store stack =
    (case load_exec_policy interpret display hp store stack of
      Inr p \<Rightarrow> Inr (p, None)
    | Inl (ParsePolicy path err) \<Rightarrow>
        Inr (case requirements_exec_policy stack of None \<Rightarrow> policy_empty | Some p \<Rightarrow> p, Some (ParsePolicy path err))
    | Inl err \<Rightarrow> Inl err)"

definition check_execpolicy_for_warnings ::
  "starlark \<Rightarrow> (policy_error \<Rightarrow> string) \<Rightarrow> host_env \<Rightarrow> rules_store \<Rightarrow> config_layer_stack
     \<Rightarrow> exec_policy_error + exec_policy_error option" where
  "check_execpolicy_for_warnings interpret display hp store stack =
    and_then (load_exec_policy_with_warning interpret display hp store stack) (\<lambda>(_, warning). Inr warning)"

section \<open>Loaded policies\<close>

lemma parse_policy_keyed:
  "parse_policy interpret display hp identifier contents b = (b', r) \<Longrightarrow> well_keyed (builder_build b) \<Longrightarrow>
    well_keyed (builder_build b')"
  by (auto simp: parse_policy_def Let_def split: sum.splits prod.splits option.splits dest!: run_builtins_keyed)

lemma parse_rules_files_keyed:
  "parse_rules_files interpret display hp store ps b = Inr b' \<Longrightarrow> well_keyed (builder_build b) \<Longrightarrow>
    well_keyed (builder_build b')"
  by (induction ps arbitrary: b)
    (auto split: option.splits prod.splits sum.splits dest!: parse_policy_keyed)

lemma builder_new_keyed: "well_keyed (builder_build builder_new)"
  by (simp add: well_keyed_def builder_build_def builder_new_def)

lemma load_exec_policy_overlay:
  assumes "load_exec_policy interpret display hp store stack = Inr p" and "requirements_exec_policy stack = Some q"
  obtains base where "well_keyed base" "p = merge_overlay base q"
proof -
  from assms obtain b ps where "parse_rules_files interpret display hp store ps builder_new = Inr b"
    "p = merge_overlay (builder_build b) q"
    by (auto simp: load_exec_policy_def and_then_def split: sum.splits)
  with that parse_rules_files_keyed builder_new_keyed show ?thesis by metis
qed

lemma load_with_warning_keeps_requirements:
  assumes "load_exec_policy_with_warning interpret display hp store stack = Inr (p, warning)"
    and "requirements_exec_policy stack = Some q" and "well_keyed q"
  shows "well_keyed p" and "set (matching q cmd) \<subseteq> set (matching p cmd)"
proof -
  consider (loaded) "load_exec_policy interpret display hp store stack = Inr p" | (fallback) "p = q"
    using assms(1,2)
    by (auto simp: load_exec_policy_with_warning_def split: sum.splits exec_policy_error.splits)
  then have "well_keyed p \<and> set (matching q cmd) \<subseteq> set (matching p cmd)"
  proof cases
    case loaded
    then obtain base where "well_keyed base" "p = merge_overlay base q"
      by (rule load_exec_policy_overlay [OF _ assms(2)])
    with assms(3) show ?thesis by (simp add: well_keyed_merge matching_merge)
  qed (use assms(3) in simp)
  then show "well_keyed p" "set (matching q cmd) \<subseteq> set (matching p cmd)" by blast+
qed

lemma matches_exact:
  assumes "well_keyed p" and "matching p cmd \<noteq> []"
  shows "matches_for_command_with_options hp p cmd fallback opts = matching p cmd"
  using match_exact_rules_matching [OF assms(1), of cmd] assms(2)
  by (auto simp: matches_for_command_with_options_def Let_def split: option.splits list.splits)

text \<open>C6: The administrator's rules hold whatever the user's files say.  If the requirements file has
  been accepted and the policy has been loaded, even with a warning about broken rules files, and a
  required rule matches one of the commands in a request, then the request does not run without
  asking; and if the rule forbids the command, the request is refused.\<close>

theorem required_rules_always_enforced:
  assumes "to_policy rules = Inr q" and "requirements_exec_policy stack = Some q"
    and "load_exec_policy_with_warning interpret display hp store stack = Inr (p, warning)"
    and "c \<in> set (policy_commands (commands_for_exec_policy (shell_parser env) (req_command req)))"
    and "m \<in> set (matching q c)"
  shows "\<exists>requirement. create_exec_approval_requirement_for_command env p req = Some requirement \<and>
    (\<forall>b a. requirement \<noteq> Skip b a) \<and>
    (match_decision m = Forbidden \<longrightarrow> (\<exists>reason. requirement = ForbiddenExec reason))"
proof -
  note keep = load_with_warning_keeps_requirements [OF assms(3,2) to_policy_keyed [OF assms(1)]]
  have "m \<in> set (matching p c)" using keep(2) assms(5) by blast
  then have "m \<in> set (matches_for_command_with_options (host_paths env) p c (Some f) approval_options)" for f
    using matches_exact [OF keep(1), of c] by (cases "matching p c") auto
  moreover obtain e where e: "check_multiple_with_options (host_paths env) p
      (policy_commands (commands_for_exec_policy (shell_parser env) (req_command req)))
      (exec_policy_fallback env req) approval_options = Some e"
    "create_exec_approval_requirement_for_command env p req = Some (requirement_for env p req e)"
    by (rule requirement_exists)
  ultimately have bound: "match_decision m \<le> eval_decision e" using evaluation_bound(2) [OF e(1) assms(4)] by blast
  have "eval_decision e \<noteq> Allow" using bound to_policy_restricts [OF assms(1,5)] by auto
  then have "requirement_for env p req e \<noteq> Skip b a" for b a using requirement_Skip by blast
  moreover have "\<exists>reason. requirement_for env p req e = ForbiddenExec reason" if "match_decision m = Forbidden"
    using bound that by (simp add: requirement_for_def Let_def)
  ultimately show ?thesis using e(2) by blast
qed

definition required_rules :: "requirements_prefix_rule list" where
  "required_rules =
    [\<lparr>toml_pattern = [\<lparr>toml_token = None, toml_any_of = Some [''sudo'', ''su'']\<rparr>], toml_decision = Some RequiredForbidden,
      toml_justification = None\<rparr>]"

definition required_policy :: policy where
  "required_policy =
    \<lparr>rules_by_program =
       [(''sudo'', single_rule ''sudo'' [] Forbidden), (''su'', single_rule ''su'' [] Forbidden)],
     network_rules = [], host_executables_by_name = []\<rparr>"

definition sample_stack :: config_layer_stack where
  "sample_stack =
    \<lparr>config_layers = [\<lparr>layer_name = UserLayer, config_folder = Some ''/u''\<rparr>],
     ignore_user_and_project_exec_policy_rules = False, requirements_exec_policy = Some required_policy\<rparr>"

definition sample_store :: rules_store where
  "sample_store =
    \<lparr>read_dir = (\<lambda>dir. if dir = ''/u/rules'' then DirEntries [Entry ''a.rules'' (Some True)] else DirNotFound),
     read_rules_file = (\<lambda>path. if path = ''/u/rules/a.rules'' then Some ''allow sudo'' else None)\<rparr>"

definition sample_interpreter :: starlark where
  "sample_interpreter identifier contents =
    Inr ([PrefixRuleCall [StrV ''sudo''] (Some ''allow'') None None None None], None)"

definition loaded_policy :: policy where
  "loaded_policy =
    \<lparr>rules_by_program = (''sudo'', single_rule ''sudo'' [] Allow) # rules_by_program required_policy,
     network_rules = [], host_executables_by_name = []\<rparr>"

theorem required_rules_always_enforced_witness:
  "load_exec_policy_with_warning sample_interpreter (\<lambda>_. []) sample_env sample_store sample_stack = Inr (loaded_policy, None) \<and>
   (\<exists>reason. create_exec_approval_requirement_for_command approval_sample loaded_policy sudo_request = Some (ForbiddenExec reason))"
proof -
  have req: "to_policy required_rules = Inr required_policy" "requirements_exec_policy sample_stack = Some required_policy"
    by code_simp+
  have load: "load_exec_policy_with_warning sample_interpreter (\<lambda>_. []) sample_env sample_store sample_stack = Inr (loaded_policy, None)"
    by code_simp
  have c: "[''sudo'', ''rm'', ''-f'', ''x'']
      \<in> set (policy_commands (commands_for_exec_policy (shell_parser approval_sample) (req_command sudo_request)))"
    by code_simp
  have m: "PrefixRuleMatch [''sudo''] Forbidden None None \<in> set (matching required_policy [''sudo'', ''rm'', ''-f'', ''x''])"
    by code_simp
  from required_rules_always_enforced [OF req load c m] load show ?thesis by auto
qed

text \<open>The requirements are compared with the user's rules on the first word as it is written.  A user's
  rule for an absolute path takes precedence over a required rule for the program of that name.\<close>

lemma exact_rule_shadows_requirement:
  assumes "well_keyed p" and "well_keyed q" and "matching p cmd \<noteq> []" and "matching q cmd = []"
  shows "check_with_options hp (merge_overlay p q) cmd f opts = check_with_options hp p cmd f opts"
  using assms matches_exact [OF assms(1,3)] matches_exact [OF well_keyed_merge [OF assms(1,2)], of cmd]
  by (simp add: check_with_options_def matching_merge)

lemma exact_rule_shadows_requirement_witness:
  "map_option eval_decision (check_with_options sample_env required_policy [''/bin/su''] (\<lambda>_. Prompt) approval_options)
     = Some Forbidden \<and>
   map_option eval_decision (check_with_options sample_env
       (merge_overlay \<lparr>rules_by_program = [(''/bin/su'', single_rule ''/bin/su'' [] Allow)], network_rules = [],
          host_executables_by_name = []\<rparr> required_policy) [''/bin/su''] (\<lambda>_. Prompt) approval_options)
     = Some Allow"
  by code_simp

section \<open>Approving for the future\<close>

lemma single_rule_matches:
  "rule_matches (single_rule t ts d) cmd =
    (if \<exists>tail. cmd = t # ts @ tail then Some (PrefixRuleMatch (t # ts) d None None) else None)"
proof -
  have tokens: "list_all2 (\<lambda>tok x. x \<in> set (alternatives tok)) (map Single ts) xs \<longleftrightarrow> xs = ts" for xs
    by (induction ts arbitrary: xs) (auto simp: list_all2_Cons1)
  have "pre \<in> expansions \<lparr>first = t, rest = map Single ts\<rparr> \<longleftrightarrow> pre = t # ts" for pre
    unfolding expansions_iff tokens by blast
  then have "rule_matches (single_rule t ts d) cmd = Some m \<longleftrightarrow>
      (\<exists>tail. cmd = t # ts @ tail) \<and> m = PrefixRuleMatch (t # ts) d None None" for m
    unfolding rule_matches_iff by (auto simp: single_rule_def)
  then show ?thesis by (cases "rule_matches (single_rule t ts d) cmd") auto
qed

lemma add_prefix_rule_matching:
  assumes "add_prefix_rule p a d = Inr pa"
  shows "matching pa cmd = matching p cmd @ (if \<exists>tail. cmd = a @ tail then [PrefixRuleMatch a d None None] else [])"
    and "host_executables_by_name pa = host_executables_by_name p" and "a \<noteq> []"
  using assms
  by (auto simp: add_prefix_rule_def matching_def map_filter_append single_rule_matches split: list.splits)

lemma matching_extends: "matching p cmd \<noteq> [] \<Longrightarrow> matching p (cmd @ tail) \<noteq> []"
proof -
  have "rule_matches r cmd \<noteq> None \<Longrightarrow> rule_matches r (cmd @ tail) \<noteq> None" for r
    by (fastforce simp: rule_matches_iff not_None_eq)
  then show "matching p cmd \<noteq> [] \<Longrightarrow> matching p (cmd @ tail) \<noteq> []"
    unfolding matching_def map_filter_eq_Nil by blast
qed

text \<open>A command is reached through a program's path if the name of the program has rules for it.\<close>

lemma host_matches_iff:
  assumes "well_keyed p"
  shows "match_host_executable_rules hp p (c # args) \<noteq> [] \<longleftrightarrow>
    (\<exists>program basename. absolute_path hp c = Inr program \<and> executable_path_lookup_key hp program = Some basename \<and>
      (case map_of (host_executables_by_name p) basename of Some paths \<Rightarrow> program \<in> set paths | None \<Rightarrow> True) \<and>
      matching p (basename # args) \<noteq> [])"
proof -
  have vec: "get_vec (rules_by_program p) k = None \<Longrightarrow> matching p (k # args) = []"
    "get_vec (rules_by_program p) k = Some rs \<Longrightarrow>
      List.map_filter (\<lambda>r. rule_matches r (k # args)) rs = matching p (k # args)" for k rs
    using get_vec_matches [OF assms, of k args] by simp_all
  show ?thesis
    by (auto simp: match_host_executable_rules_def list_ex_iff vec split: sum.splits option.splits)
qed

lemma matches_None_iff:
  assumes "well_keyed p"
  shows "matches_for_command_with_options hp p cmd None approval_options \<noteq> [] \<longleftrightarrow>
    matching p cmd \<noteq> [] \<or> match_host_executable_rules hp p cmd \<noteq> []"
  using match_exact_rules_matching [OF assms, of cmd]
  by (auto simp: matches_for_command_with_options_def Let_def approval_options_def split: option.splits list.splits)

text \<open>The name of a file is not an absolute path.\<close>

definition relative_names :: "host_env \<Rightarrow> bool" where
  "relative_names hp \<longleftrightarrow>
    (\<forall>path name. executable_path_lookup_key hp path = Some name \<longrightarrow> (\<exists>err. absolute_path hp name = Inl err))"

text \<open>If a rule about a prefix has no effect because the prefix has rules already, then every command
  the new rule would match had rules already.\<close>

lemma known_prefix_adds_no_match:
  assumes keyed: "well_keyed p" and add: "add_prefix_rule p a d = Inr pa" and names: "relative_names hp"
    and known: "matches_for_command_with_options hp p a None approval_options \<noteq> []"
    and new: "matches_for_command_with_options hp pa cmd None approval_options \<noteq> []"
  shows "matches_for_command_with_options hp p cmd None approval_options \<noteq> []"
proof (rule ccontr)
  assume "\<not> ?thesis"
  then have none: "matching p cmd = []" "match_host_executable_rules hp p cmd = []"
    using matches_None_iff [OF keyed] by blast+
  note keyed' = well_keyed_add_prefix_rule [OF keyed add]
  note added = add_prefix_rule_matching [OF add]
  obtain t ts where a: "a = t # ts" using added(3) by (cases a) auto
  have known': "matching p a \<noteq> [] \<or> match_host_executable_rules hp p a \<noteq> []"
    using known matches_None_iff [OF keyed] by blast
  show False
  proof (cases "\<exists>tail. cmd = a @ tail")
    case True
    then obtain tail where cmd: "cmd = a @ tail" by blast
    from known' show False
    proof
      assume "matching p a \<noteq> []"
      with matching_extends none(1) cmd show False by blast
    next
      assume "match_host_executable_rules hp p a \<noteq> []"
      then have "match_host_executable_rules hp p (t # ts @ tail) \<noteq> []"
        unfolding a host_matches_iff [OF keyed] using matching_extends [of p "_ # ts" tail] by fastforce
      with none(2) cmd a show False by simp
    qed
  next
    case False
    then have "matching pa cmd = []" using added(1) none(1) by simp
    then have host: "match_host_executable_rules hp pa cmd \<noteq> []" using new matches_None_iff [OF keyed'] by blast
    then obtain c args where cmd: "cmd = c # args" by (cases cmd) (auto simp: match_host_executable_rules_def)
    from host [unfolded cmd host_matches_iff [OF keyed'] added(2)] obtain program basename where
      res: "absolute_path hp c = Inr program" "executable_path_lookup_key hp program = Some basename"
        "case map_of (host_executables_by_name p) basename of Some paths \<Rightarrow> program \<in> set paths | None \<Rightarrow> True"
      and m: "matching pa (basename # args) \<noteq> []" by blast
    have no: "matching p (basename # args) = []"
      using none(2) [unfolded cmd] host_matches_iff [OF keyed, of hp c args] res by blast
    with m added(1) [of "basename # args"] obtain tail where tail: "basename # args = a @ tail"
      by (auto split: if_splits)
    from known' show False
    proof
      assume "matching p a \<noteq> []"
      with matching_extends [of p a tail] no tail show False by simp
    next
      assume "match_host_executable_rules hp p a \<noteq> []"
      then obtain path where "absolute_path hp t = Inr path" unfolding a host_matches_iff [OF keyed] by blast
      moreover have "t = basename" using tail a by simp
      ultimately show False using names res(2) unfolding relative_names_def by (metis sum.distinct(1))
    qed
  qed
qed

lemma check_with_options_Allow:
  "map_option eval_decision (check_with_options hp p c f opts) = Some Allow \<longleftrightarrow>
    (\<forall>m \<in> set (matches_for_command_with_options hp p c (Some f) opts). match_decision m = Allow)"
proof -
  let ?ms = "matches_for_command_with_options hp p c (Some f) opts"
  have "?ms \<noteq> []" by (rule matches_with_fallback_not_Nil)
  then have "map_option eval_decision (check_with_options hp p c f opts) = Some Allow \<longleftrightarrow>
      Max (match_decision ` set ?ms) \<le> Allow"
    by (simp add: check_with_options_def from_matches_eq)
  also have "\<dots> \<longleftrightarrow> (\<forall>m \<in> set ?ms. match_decision m = Allow)"
    using \<open>?ms \<noteq> []\<close> by (subst Max_le_iff) auto
  finally show ?thesis .
qed

lemma evaluation_Allow:
  assumes "check_multiple_with_options hp p cmds f opts = Some e"
  shows "eval_decision e = Allow \<longleftrightarrow>
    (\<forall>c \<in> set cmds. map_option eval_decision (check_with_options hp p c f opts) = Some Allow)"
proof -
  have rules: "matched_rules e = concat (map (\<lambda>cmd. matches_for_command_with_options hp p cmd (Some f) opts) cmds)"
    and eval: "eval_decision e = Max (match_decision ` set (matched_rules e))" and cmds: "cmds \<noteq> []"
    using assms unfolding evaluation_of by (metis evaluation.select_convs)+
  have "matched_rules e \<noteq> []"
    unfolding rules using cmds matches_with_fallback_not_Nil [of hp p _ f opts] by (cases cmds) auto
  then have "eval_decision e \<le> Allow \<longleftrightarrow> (\<forall>m \<in> set (matched_rules e). match_decision m = Allow)"
    unfolding eval by (subst Max_le_iff) auto
  then show ?thesis unfolding check_with_options_Allow rules by auto
qed

text \<open>The commands of a request, evaluated with its fallback.\<close>

definition approved :: "approval_env \<Rightarrow> policy \<Rightarrow> exec_approval_request \<Rightarrow> bool" where
  "approved env p req \<longleftrightarrow>
    (\<forall>c \<in> set (policy_commands (commands_for_exec_policy (shell_parser env) (req_command req))).
      map_option eval_decision (check_with_options (host_paths env) p c (exec_policy_fallback env req) approval_options)
        = Some Allow)"

lemma approved_skips:
  "approved env p req \<longleftrightarrow> (\<exists>b a. create_exec_approval_requirement_for_command env p req = Some (Skip b a))"
proof -
  obtain e where e: "check_multiple_with_options (host_paths env) p
      (policy_commands (commands_for_exec_policy (shell_parser env) (req_command req)))
      (exec_policy_fallback env req) approval_options = Some e"
    "create_exec_approval_requirement_for_command env p req = Some (requirement_for env p req e)"
    by (rule requirement_exists)
  have "\<exists>b a. requirement_for env p req e = Skip b a" if "eval_decision e = Allow"
    using that by (simp add: requirement_for_def Let_def)
  then have "eval_decision e = Allow \<longleftrightarrow> (\<exists>b a. requirement_for env p req e = Skip b a)"
    using requirement_Skip by blast
  with e evaluation_Allow [OF e(1)] show ?thesis by (auto simp: approved_def)
qed

lemma already_allowed_known:
  assumes "already_allowed env p a"
  shows "matches_for_command_with_options (host_paths env) p a None approval_options \<noteq> []"
proof
  assume "matches_for_command_with_options (host_paths env) p a None approval_options = []"
  with assms show False
    by (auto simp: already_allowed_def check_multiple_with_options_def matches_with_fallback from_matches_eq
        split: option.splits)
qed

lemma requested_amendment_approves:
  assumes "requested_amendment env p req e = Some a"
  obtains pa where "add_prefix_rule p a Allow = Inr pa" "approved env pa req"
    "\<forall>m \<in> set (matched_rules e). \<not> is_policy_match m"
  using assms that
  by (auto simp: requested_amendment_def derive_requested_execpolicy_amendment_from_prefix_rule_def Let_def
      prefix_rule_would_approve_all_commands_def approved_def list_all_iff list_ex_iff
      split: if_splits option.splits sum.splits)

text \<open>If the amendment was known already, the request was approved before.\<close>

lemma known_amendment_approved:
  assumes "well_keyed p" and "relative_names (host_paths env)" and "already_allowed env p a"
    and e: "check_multiple_with_options (host_paths env) p
      (policy_commands (commands_for_exec_policy (shell_parser env) (req_command req)))
      (exec_policy_fallback env req) approval_options = Some e"
    and a: "requested_amendment env p req e = Some a"
  shows "approved env p req"
  unfolding approved_def
proof
  let ?m = "\<lambda>p c. matches_for_command_with_options (host_paths env) p c None approval_options"
  fix c assume c: "c \<in> set (policy_commands (commands_for_exec_policy (shell_parser env) (req_command req)))"
  obtain pa where pa: "add_prefix_rule p a Allow = Inr pa" "approved env pa req"
    "\<forall>m \<in> set (matched_rules e). \<not> is_policy_match m" using a by (rule requested_amendment_approves)
  have none: "?m p c = []"
  proof (rule ccontr)
    assume "?m p c \<noteq> []"
    then have m: "hd (?m p c) \<in> set (?m p c)"
      and "hd (?m p c) \<in> set (matches_for_command_with_options (host_paths env) p c
        (Some (exec_policy_fallback env req)) approval_options)"
      by (auto simp: matches_with_fallback Let_def)
    from evaluation_bound(1) [OF e c this(2)] pa(3) matches_are_policy [OF m] show False by blast
  qed
  then have "?m pa c = []"
    using known_prefix_adds_no_match [OF assms(1) pa(1) assms(2) already_allowed_known [OF assms(3)]] by blast
  with pa(2) c have "exec_policy_fallback env req c = Allow"
    unfolding approved_def check_with_options_Allow matches_with_fallback Let_def by fastforce
  with none show "map_option eval_decision (check_with_options (host_paths env) p c
      (exec_policy_fallback env req) approval_options) = Some Allow"
    unfolding check_with_options_Allow matches_with_fallback Let_def by simp
qed

text \<open>C14: Approving for the future is enough.  If a request comes with a prefix that is proposed as an
  amendment, and the user's approval has been stored without error, then the same request afterwards
  runs without asking.  The policy in memory stays indexed.\<close>

theorem approved_amendment_suffices:
  assumes "well_keyed p" and "relative_names (host_paths env)"
    and "check_multiple_with_options (host_paths env) p
      (policy_commands (commands_for_exec_policy (shell_parser env) (req_command req)))
      (exec_policy_fallback env req) approval_options = Some e"
    and "requested_amendment env p req e = Some a"
    and "append_amendment_and_update ops env codex_home a p w = (Inr (), p', w')"
  shows "well_keyed p' \<and> (\<exists>b a'. create_exec_approval_requirement_for_command env p' req = Some (Skip b a'))"
proof -
  obtain pa where pa: "add_prefix_rule p a Allow = Inr pa" "approved env pa req"
    using assms(4) by (rule requested_amendment_approves)
  have "p' = (if already_allowed env p a then p else pa)"
    using assms(5) pa(1) by (auto simp: append_amendment_and_update_def Let_def split: sum.splits prod.splits if_splits)
  with pa well_keyed_add_prefix_rule [OF assms(1) pa(1)] known_amendment_approved [OF assms(1,2) _ assms(3,4)] assms(1)
  show ?thesis unfolding approved_skips [symmetric] by simp
qed

definition make_request :: exec_approval_request where
  "make_request =
    \<lparr>req_command = [''/usr/bin/make'', ''all''], req_approval_policy = UnlessTrusted, req_permission_profile = Disabled,
     req_sandbox_permissions = UseDefault, req_prefix_rule = Some [''make'']\<rparr>"

definition make_evaluation :: evaluation where
  "make_evaluation =
    \<lparr>eval_decision = Prompt, matched_rules = [HeuristicsRuleMatch [''/usr/bin/make'', ''all''] Prompt]\<rparr>"

lemma sample_relative_names: "relative_names sample_env"
proof -
  have "CHR ''/'' \<notin> set name" if "last_opt (split_on (CHR ''/'') p) = Some name" for p name
    using that split_on_pieces [of name "CHR ''/''" p] by (auto simp: last_opt_def split: if_splits)
  then show ?thesis
    by (auto simp: relative_names_def sample_env_def executable_path_lookup_key_def executable_lookup_key_def starts_with_iff)
      fastforce
qed

theorem approved_amendment_suffices_witness:
  "requested_amendment approval_sample policy_empty make_request make_evaluation = Some [''make''] \<and>
   (\<exists>p' w' b a'. append_amendment_and_update mem_file approval_sample ''/u'' [''make''] policy_empty [] = (Inr (), p', w') \<and>
      create_exec_approval_requirement_for_command approval_sample p' make_request = Some (Skip b a'))"
proof -
  have names: "relative_names (host_paths approval_sample)" using sample_relative_names by (simp add: approval_sample_def)
  have eval: "check_multiple_with_options (host_paths approval_sample) policy_empty
      (policy_commands (commands_for_exec_policy (shell_parser approval_sample) (req_command make_request)))
      (exec_policy_fallback approval_sample make_request) approval_options = Some make_evaluation" by code_simp
  have a: "requested_amendment approval_sample policy_empty make_request make_evaluation = Some [''make'']" by code_simp
  have "is_ok (fst (append_amendment_and_update mem_file approval_sample ''/u'' [''make''] policy_empty []))" by code_simp
  then obtain p' w' where up: "append_amendment_and_update mem_file approval_sample ''/u'' [''make''] policy_empty [] = (Inr (), p', w')"
    by (cases "append_amendment_and_update mem_file approval_sample ''/u'' [''make''] policy_empty []")
      (auto simp: is_ok_def split: sum.splits)
  from approved_amendment_suffices [OF well_keyed_empty names eval a up] a up show ?thesis by blast
qed

end
