(* ===== verification/Command_Line.thy ===== *)
theory Command_Line
  imports Patch_Files Policy_Manager
begin

text \<open>The command line tools: \<^verbatim>\<open>apply_patch\<close> (\<^verbatim>\<open>codex-rs/apply-patch/src/standalone_executable.rs\<close>) and
  the check of a command against rules files (\<^verbatim>\<open>codex-rs/execpolicy/src/execpolicycheck.rs\<close>, after
  its arguments have been parsed).\<close>

section \<open>The executable that applies a patch\<close>

text \<open>What the process gets from the operating system: standard input, the current directory, and
  whether the asynchronous runtime starts.  Errors are their texts.\<close>

record process_env =
  stdin_to_string :: "string + string"
  current_dir :: "string + string"
  runtime_starts :: "string + unit"

definition usage_text :: string where
  "usage_text =
    (let quoted = [CHR 0x27] @ ''PATCH'' @ [CHR 0x27] in
     ''Usage: apply_patch '' @ quoted @ [LF] @ ''       echo '' @ quoted @ '' | apply_patch'')"

text \<open>The patch and the arguments after it, or an exit code with a message.\<close>

definition patch_argument :: "process_env \<Rightarrow> string list \<Rightarrow> (nat \<times> string) + (string \<times> string list)" where
  "patch_argument os argv =
    (case drop 1 argv of
      arg # more_args \<Rightarrow>
        if utf8 arg then Inr (arg, more_args)
        else Inl (1, ''Error: apply_patch requires a UTF-8 PATCH argument.'')
    | [] \<Rightarrow>
        (case stdin_to_string os of
          Inr buf \<Rightarrow>
            if buf = [] then Inl (2, usage_text)
            else Inr (buf, [])
        | Inl err \<Rightarrow> Inl (1, ''Error: Failed to read PATCH from stdin.'' @ [LF] @ err)))"

text \<open>The exit code, the message on standard error that is not that of the patch, and the world.\<close>

definition run_main ::
  "process_env \<Rightarrow> 'w executor_fs \<Rightarrow> string list \<Rightarrow> 'w \<Rightarrow> nat \<times> string option \<times> 'w" where
  "run_main os fs argv w =
    (case patch_argument os argv of
      Inl (code, msg) \<Rightarrow> (code, Some msg, w)
    | Inr (patch_arg, more_args) \<Rightarrow>
        if more_args \<noteq> [] then (2, Some ''Error: apply_patch accepts exactly one argument.'', w)
        else case current_dir os of
          Inl err \<Rightarrow> (1, Some (''Error: Failed to determine current directory.'' @ [LF] @ err), w)
        | Inr cwd \<Rightarrow>
            (case runtime_starts os of
              Inl err \<Rightarrow> (1, Some (''Error: Failed to initialize runtime.'' @ [LF] @ err), w)
            | Inr _ \<Rightarrow>
                (case apply_patch fs cwd patch_arg w of
                  (w, Inr _) \<Rightarrow> (0, None, w)
                | (w, Inl _) \<Rightarrow> (1, None, w))))"

text \<open>The tool succeeds exactly if the patch it was given is applied, and a message of its own means
  that nothing was touched.\<close>

lemma run_main_succeeds:
  "run_main os fs argv w = (0, msg, w') \<longleftrightarrow> msg = None \<and>
    (\<exists>patch cwd d. patch_argument os argv = Inr (patch, []) \<and> current_dir os = Inr cwd \<and>
      runtime_starts os = Inr () \<and> apply_patch fs cwd patch w = (w', Inr d))"
  by (auto simp: run_main_def patch_argument_def split: sum.splits prod.splits if_splits list.splits)

lemma run_main_refuses: "run_main os fs argv w = (code, Some msg, w') \<Longrightarrow> w' = w \<and> code \<in> {1, 2}"
  by (auto simp: run_main_def patch_argument_def split: sum.splits prod.splits if_splits list.splits)

section \<open>The check of a command\<close>

datatype check_error = ReadPolicyFailed string | ParsePolicyFailed string policy_error | SerializeFailed

record exec_policy_check_command =
  check_rules :: "string list"
  check_pretty :: bool
  check_resolve_host_executables :: bool
  check_command :: "string list"

fun load_policies_from ::
  "starlark \<Rightarrow> (policy_error \<Rightarrow> string) \<Rightarrow> host_env \<Rightarrow> (string \<Rightarrow> string option) \<Rightarrow> string list \<Rightarrow> policy_builder
     \<Rightarrow> check_error + policy_builder" where
  "load_policies_from interpret display hp read_text [] parser = Inr parser"
| "load_policies_from interpret display hp read_text (policy_path # ps) parser =
    (case read_text policy_path of
      None \<Rightarrow> Inl (ReadPolicyFailed policy_path)
    | Some policy_file_contents \<Rightarrow>
        (case parse_policy interpret display hp policy_path policy_file_contents parser of
          (_, Inl err) \<Rightarrow> Inl (ParsePolicyFailed policy_path err)
        | (parser, Inr _) \<Rightarrow> load_policies_from interpret display hp read_text ps parser))"

definition load_policies ::
  "starlark \<Rightarrow> (policy_error \<Rightarrow> string) \<Rightarrow> host_env \<Rightarrow> (string \<Rightarrow> string option) \<Rightarrow> string list
     \<Rightarrow> check_error + policy" where
  "load_policies interpret display hp read_text policy_paths =
    and_then (load_policies_from interpret display hp read_text policy_paths builder_new) (\<lambda>parser.
      Inr (builder_build parser))"

text \<open>JSON output is a parameter that gets the flag, the matched rules and the decision.\<close>

definition format_matches_json ::
  "(bool \<Rightarrow> rule_match list \<Rightarrow> decision option \<Rightarrow> string option) \<Rightarrow> rule_match list \<Rightarrow> bool \<Rightarrow> check_error + string" where
  "format_matches_json json_text ms pretty = ok_or SerializeFailed (json_text pretty ms (max_decision (map match_decision ms)))"

definition check_run ::
  "starlark \<Rightarrow> (policy_error \<Rightarrow> string) \<Rightarrow> host_env \<Rightarrow> (string \<Rightarrow> string option)
     \<Rightarrow> (bool \<Rightarrow> rule_match list \<Rightarrow> decision option \<Rightarrow> string option) \<Rightarrow> exec_policy_check_command \<Rightarrow> check_error + string" where
  "check_run interpret display hp read_text json_text args =
    and_then (load_policies interpret display hp read_text (check_rules args)) (\<lambda>p.
      format_matches_json json_text
        (matches_for_command_with_options hp p (check_command args) None
          \<lparr>resolve_host_executables = check_resolve_host_executables args\<rparr>)
        (check_pretty args))"

text \<open>The tool shows what the policy decides: the decision it prints is the one the policy gives with
  any fallback, and it prints none exactly if the fallback decides.\<close>

lemma printed_decision:
  assumes "ms = matches_for_command_with_options hp p cmd None opts"
  shows "max_decision (map match_decision ms) =
    (if ms = [] then None else map_option eval_decision (check_with_options hp p cmd f opts))"
  using assms matches_with_fallback [of hp p cmd f opts]
  by (auto simp: check_with_options_def from_matches_eq max_decision_Max Let_def)

text \<open>The files are loaded as those of the program are, in the order they are given.\<close>

lemma load_policies_loads:
  assumes "load_policies interpret display hp read_text ps = Inr p"
  shows "\<exists>b. parse_rules_files interpret display hp \<lparr>read_dir = dirs, read_rules_file = read_text\<rparr> ps builder_new = Inr b \<and>
    p = builder_build b \<and> well_keyed p"
proof -
  have "parse_rules_files interpret display hp \<lparr>read_dir = dirs, read_rules_file = read_text\<rparr> ps b = Inr b'"
    if "load_policies_from interpret display hp read_text ps b = Inr b'" for b b'
    using that by (induction ps arbitrary: b) (auto split: option.splits prod.splits sum.splits)
  then show ?thesis
    using assms parse_rules_files_keyed builder_new_keyed
    by (fastforce simp: load_policies_def and_then_def split: sum.splits)
qed

end
