(* ===== verification/Actions.thy ===== *)
theory Actions
  imports Prelude
begin

text \<open>Stateful code that may fail: an action takes a state to an error or a value and the state it
  leaves behind, also when it fails.  Most actions fail with a message.  This is the shape of the asynchronous handlers of the GPU
  controller, whose \<^verbatim>\<open>?\<close> operator returns early and leaves every effect made so far in place.

  A guarantee is a relation between the state before and after an action.  The rules below, proved
  once for every reflexive and transitive relation, take a handler apart along its structure, so
  that a guarantee of a handler follows from the guarantees of the calls it makes.\<close>

named_theorems run_simps \<open>equations that run an action\<close>

type_synonym ('s, 'e, 'a) fallible = "'s \<Rightarrow> ('e + 'a) \<times> 's"

type_synonym ('s, 'a) action = "('s, string, 'a) fallible"

definition ret :: "'a \<Rightarrow> ('s, 'e, 'a) fallible" where
  "ret x = (\<lambda>s. (Inr x, s))"

definition fail :: "'e \<Rightarrow> ('s, 'e, 'a) fallible" where
  "fail e = (\<lambda>s. (Inl e, s))"

definition bind :: "('s, 'e, 'a) fallible \<Rightarrow> ('a \<Rightarrow> ('s, 'e, 'b) fallible) \<Rightarrow> ('s, 'e, 'b) fallible" where
  "bind m f = (\<lambda>s. case m s of (Inl e, s') \<Rightarrow> (Inl e, s') | (Inr x, s') \<Rightarrow> f x s')"

definition returning :: "'e + 'a \<Rightarrow> ('s, 'e, 'a) fallible" where
  "returning r = (\<lambda>s. (r, s))"

lemma ret_run [run_simps]: "ret x s = (Inr x, s)"
  by (simp add: ret_def)

lemma fail_run [run_simps]: "fail e s = (Inl e, s)"
  by (simp add: fail_def)

lemma returning_run [run_simps]: "returning r s = (r, s)"
  by (simp add: returning_def)

lemma bind_run [run_simps]:
  "bind m f s = (case m s of (Inl e, s') \<Rightarrow> (Inl e, s') | (Inr x, s') \<Rightarrow> f x s')"
  by (simp add: bind_def)

lemma bind_ret [simp]: "bind (ret x) f = f x"
  by (simp add: bind_def ret_def)

lemma bind_assoc: "bind (bind m f) g = bind m (\<lambda>x. bind (f x) g)"
  by (auto simp: bind_def fun_eq_iff split: prod.splits sum.splits)

text \<open>All runs of the action relate the states by \<^term>\<open>R\<close>.\<close>

definition guarantees :: "('s \<Rightarrow> 's \<Rightarrow> bool) \<Rightarrow> ('s, 'e, 'a) fallible \<Rightarrow> bool" where
  "guarantees R m \<longleftrightarrow> (\<forall>s r s'. m s = (r, s') \<longrightarrow> R s s')"

lemma guaranteesI: "(\<And>s. R s (snd (m s))) \<Longrightarrow> guarantees R m"
  unfolding guarantees_def by (metis snd_conv)

lemma guaranteesD: "guarantees R m \<Longrightarrow> R s (snd (m s))"
  unfolding guarantees_def by (metis prod.collapse)

locale guarantee =
  fixes R :: "'s \<Rightarrow> 's \<Rightarrow> bool"
  assumes refl: "R s s"
    and trans: "R s t \<Longrightarrow> R t u \<Longrightarrow> R s u"
begin

lemma ret_keeps: "guarantees R (ret x)"
  by (simp add: guarantees_def ret_def refl)

lemma fail_keeps: "guarantees R (fail e)"
  by (simp add: guarantees_def fail_def refl)

lemma returning_keeps: "guarantees R (returning r)"
  by (simp add: guarantees_def returning_def refl)

lemma bind_keeps:
  assumes "guarantees R m" and "\<And>x. guarantees R (f x)"
  shows "guarantees R (bind m f)"
proof (rule guaranteesI)
  fix s
  obtain r t where m: "m s = (r, t)" by fastforce
  then have "R s t" using guaranteesD [OF assms(1), of s] by simp
  moreover have "R t (snd (f x t))" for x using guaranteesD [OF assms(2)] .
  ultimately show "R s (snd (bind m f s))"
    by (cases r) (auto simp: bind_def m intro: trans)
qed

lemma if_keeps:
  "(b \<Longrightarrow> guarantees R m) \<Longrightarrow> (\<not> b \<Longrightarrow> guarantees R n) \<Longrightarrow> guarantees R (if b then m else n)"
  by simp

lemma option_keeps:
  "(x = None \<Longrightarrow> guarantees R m) \<Longrightarrow> (\<And>y. x = Some y \<Longrightarrow> guarantees R (f y)) \<Longrightarrow>
   guarantees R (case x of None \<Rightarrow> m | Some y \<Rightarrow> f y)"
  by (cases x) simp_all

lemma sum_keeps:
  "(\<And>e. x = Inl e \<Longrightarrow> guarantees R (g e)) \<Longrightarrow> (\<And>y. x = Inr y \<Longrightarrow> guarantees R (f y)) \<Longrightarrow>
   guarantees R (case x of Inl e \<Rightarrow> g e | Inr y \<Rightarrow> f y)"
  by (cases x) simp_all

lemma let_keeps: "guarantees R (f x) \<Longrightarrow> guarantees R (let y = x in f y)"
  by simp

lemmas keeps = ret_keeps fail_keeps returning_keeps bind_keeps if_keeps option_keeps sum_keeps let_keeps

end

end
