(* ===== verification/Gpu_Model.thy ===== *)
theory Gpu_Model
  imports Prelude "HOL-Library.Word"
begin

text \<open>The data of the GPU rental market: the rental ledger's rows
  (\<^verbatim>\<open>codex-rs/state/src/model/gpu_rental.rs\<close> and
  \<^verbatim>\<open>gpu_runtime_provider.rs\<close>), the provider boundary
  (\<^verbatim>\<open>codex-rs/gpu-market/src/provider.rs\<close>), the credential kinds
  (\<^verbatim>\<open>credential.rs\<close>) and the recipe manifest (\<^verbatim>\<open>recipe.rs\<close>).

  Every \<^verbatim>\<open>i64\<close> is an \<^typ>\<open>int\<close> and the saturating operations are written
  out; the unsigned fields are \<^typ>\<open>nat\<close>.  The fields of a record carry a short
  prefix where the source reuses a name in several structs.  A rental is its
  creation parameters extended with the columns the controller may change, which
  is how the two structs of the source share their fields.\<close>

section \<open>Rental states\<close>

datatype gpu_rental_state =
    Draft | Quoted | CreatePending | Allocating | Bootstrapping | Downloading
  | Starting | Probing | Ready | Degraded | TerminateRequested | Terminating
  | TerminatedConfirmed | TerminationUnconfirmed | Reconciling | Orphaned | Failed

fun state_as_str :: "gpu_rental_state \<Rightarrow> string" where
  "state_as_str Draft = ''draft''"
| "state_as_str Quoted = ''quoted''"
| "state_as_str CreatePending = ''create_pending''"
| "state_as_str Allocating = ''allocating''"
| "state_as_str Bootstrapping = ''bootstrapping''"
| "state_as_str Downloading = ''downloading''"
| "state_as_str Starting = ''starting''"
| "state_as_str Probing = ''probing''"
| "state_as_str Ready = ''ready''"
| "state_as_str Degraded = ''degraded''"
| "state_as_str TerminateRequested = ''terminate_requested''"
| "state_as_str Terminating = ''terminating''"
| "state_as_str TerminatedConfirmed = ''terminated_confirmed''"
| "state_as_str TerminationUnconfirmed = ''termination_unconfirmed''"
| "state_as_str Reconciling = ''reconciling''"
| "state_as_str Orphaned = ''orphaned''"
| "state_as_str Failed = ''failed''"

definition state_parse :: "string \<Rightarrow> string + gpu_rental_state" where
  "state_parse v =
    (if v = ''draft'' then Inr Draft
     else if v = ''quoted'' then Inr Quoted
     else if v = ''create_pending'' then Inr CreatePending
     else if v = ''allocating'' then Inr Allocating
     else if v = ''bootstrapping'' then Inr Bootstrapping
     else if v = ''downloading'' then Inr Downloading
     else if v = ''starting'' then Inr Starting
     else if v = ''probing'' then Inr Probing
     else if v = ''ready'' then Inr Ready
     else if v = ''degraded'' then Inr Degraded
     else if v = ''terminate_requested'' then Inr TerminateRequested
     else if v = ''terminating'' then Inr Terminating
     else if v = ''terminated_confirmed'' then Inr TerminatedConfirmed
     else if v = ''termination_unconfirmed'' then Inr TerminationUnconfirmed
     else if v = ''reconciling'' then Inr Reconciling
     else if v = ''orphaned'' then Inr Orphaned
     else if v = ''failed'' then Inr Failed
     else Inl (''invalid GPU rental state: '' @ v))"

definition state_may_be_billable :: "gpu_rental_state \<Rightarrow> bool" where
  "state_may_be_billable s \<longleftrightarrow> s \<notin> {Draft, Quoted, TerminatedConfirmed, Failed}"

datatype gpu_limit_enforcement = ProviderGuaranteed | LocalControllerDependent

fun enforcement_as_str :: "gpu_limit_enforcement \<Rightarrow> string" where
  "enforcement_as_str ProviderGuaranteed = ''provider_guaranteed''"
| "enforcement_as_str LocalControllerDependent = ''local_controller_dependent''"

definition enforcement_parse :: "string \<Rightarrow> string + gpu_limit_enforcement" where
  "enforcement_parse v =
    (if v = ''provider_guaranteed'' then Inr ProviderGuaranteed
     else if v = ''local_controller_dependent'' then Inr LocalControllerDependent
     else Inl (''invalid GPU limit enforcement: '' @ v))"

section \<open>Rentals, leases and updates\<close>

record gpu_rental_create_params =
  rental_id :: string
  installation_id :: string
  client_operation_id :: string
  provider :: string
  recipe_id :: string
  recipe_revision :: string
  offer_snapshot_json :: string
  quote_expires_at_ms :: "int option"
  max_hourly_microusd :: int
  max_total_microusd :: int
  terminate_at_ms :: int
  enforcement_class :: gpu_limit_enforcement
  ownership_tag :: string

record gpu_rental = gpu_rental_create_params +
  desired_state :: gpu_rental_state
  observed_state :: gpu_rental_state
  provider_resource_id :: "string option"
  state_sequence :: int
  controller_lease_owner :: "string option"
  controller_lease_until_ms :: int
  provision_step :: "string option"
  endpoint_base_url :: "string option"
  endpoint_provider_id :: "string option"
  last_error_code :: "string option"
  last_error_message :: "string option"
  diagnostic_ref :: "string option"
  last_reconciled_at_ms :: "int option"
  next_retry_at_ms :: int
  retry_count :: int
  estimated_accrued_microusd :: int
  provider_reported_cost_microusd :: "int option"
  created_at_ms :: int
  updated_at_ms :: int
  terminated_confirmed_at_ms :: "int option"

definition may_be_billable :: "gpu_rental \<Rightarrow> bool" where
  "may_be_billable r \<longleftrightarrow>
     state_may_be_billable (observed_state r)
     \<or> (provider_resource_id r \<noteq> None \<and> observed_state r \<noteq> TerminatedConfirmed)"

record gpu_rental_lease =
  rental :: gpu_rental
  lease_owner :: string
  lease_until_ms :: int

record gpu_rental_update =
  up_desired_state :: "gpu_rental_state option"
  up_observed_state :: "gpu_rental_state option"
  up_provider_resource_id :: "string option"
  up_provision_step :: "string option"
  up_endpoint_base_url :: "string option"
  up_endpoint_provider_id :: "string option"
  up_last_error_code :: "string option"
  up_last_error_message :: "string option"
  up_diagnostic_ref :: "string option"
  up_clear_last_error :: bool
  up_next_retry_at_ms :: "int option"
  up_estimated_accrued_microusd :: "int option"
  up_provider_reported_cost_microusd :: "int option"
  up_increment_retry_count :: bool

text \<open>\<^verbatim>\<open>GpuRentalUpdate::default()\<close>: no column changes.\<close>

definition no_update :: gpu_rental_update where
  "no_update = \<lparr> up_desired_state = None, up_observed_state = None,
     up_provider_resource_id = None, up_provision_step = None, up_endpoint_base_url = None,
     up_endpoint_provider_id = None, up_last_error_code = None, up_last_error_message = None,
     up_diagnostic_ref = None, up_clear_last_error = False, up_next_retry_at_ms = None,
     up_estimated_accrued_microusd = None, up_provider_reported_cost_microusd = None,
     up_increment_retry_count = False \<rparr>"

datatype gpu_operation_kind =
  OpCreate | OpQuery | OpProvision | OpProbe | OpTerminate | OpBilling

fun operation_as_str :: "gpu_operation_kind \<Rightarrow> string" where
  "operation_as_str OpCreate = ''create''"
| "operation_as_str OpQuery = ''query''"
| "operation_as_str OpProvision = ''provision''"
| "operation_as_str OpProbe = ''probe''"
| "operation_as_str OpTerminate = ''terminate''"
| "operation_as_str OpBilling = ''billing''"

record gpu_provision_step =
  st_rental_id :: string
  st_step_id :: string
  st_command_digest :: string
  st_status :: string
  st_attempt_count :: int
  st_postcondition_json :: "string option"
  st_sanitized_error :: "string option"
  st_started_at_ms :: "int option"
  st_completed_at_ms :: "int option"
  st_updated_at_ms :: int

record gpu_runtime_provider_upsert =
  rp_rental_id :: string
  rp_provider_id :: string
  rp_base_url :: string
  rp_model_id :: string
  rp_wire_api :: string
  rp_health :: string
  rp_display_hourly_microusd :: int
  rp_maximum_context_tokens :: int
  rp_catalog_sequence :: int

text \<open>A row of the catalogue is what was upserted and when; the infrastructure
  provider of \<^verbatim>\<open>GpuRuntimeProvider\<close> is joined in from the rental when rows are
  listed.\<close>

record gpu_runtime_provider = gpu_runtime_provider_upsert +
  rp_updated_at_ms :: int

section \<open>The provider boundary\<close>

datatype json_value =
    JNull | JBool bool | JNumber string | JString string
  | JArray "json_value list" | JObject "(string \<times> json_value) list"

record hardware_requirements =
  hw_gpu_model :: string
  hw_gpu_count :: nat
  hw_minimum_vram_mib_per_gpu :: nat
  hw_minimum_host_ram_mib :: nat
  hw_minimum_disk_gib :: nat
  hw_requires_high_bandwidth_interconnect :: bool
  hw_allowed_cuda_versions :: "string list"

record search_offers_request =
  sr_hardware :: hardware_requirements
  sr_allow_interruptible :: bool
  sr_require_verified_or_secure :: bool
  sr_maximum_hourly_microusd :: int

record gpu_offer =
  of_provider :: string
  of_offer_id :: string
  of_gpu_model :: string
  of_gpu_count :: nat
  of_vram_mib_per_gpu :: nat
  of_host_ram_mib :: nat
  of_disk_gib :: nat
  of_high_bandwidth_interconnect :: bool
  of_runtime_topology_verification :: bool
  of_cuda_versions :: "string list"
  of_region :: string
  of_security_class :: string
  of_reliability_millionths :: "nat option"
  of_interruptible :: bool
  of_hourly_microusd :: int
  of_storage_microusd_per_gib_month :: "int option"
  of_quoted_at_ms :: int
  of_expires_at_ms :: "int option"
  of_raw_snapshot :: json_value

datatype provider_error_kind =
    NotConfigured | CapabilityUnavailable | Unauthorized | InsufficientFunds
  | InvalidRequest | OfferUnavailable | PriceDrift | RateLimited | Retryable
  | Ambiguous | Permanent

text \<open>The \<^verbatim>\<open>Debug\<close> name of the kind in lower case, as \<^verbatim>\<open>record_retry\<close> writes it to
  the ledger.\<close>

fun error_kind_code :: "provider_error_kind \<Rightarrow> string" where
  "error_kind_code NotConfigured = ''notconfigured''"
| "error_kind_code CapabilityUnavailable = ''capabilityunavailable''"
| "error_kind_code Unauthorized = ''unauthorized''"
| "error_kind_code InsufficientFunds = ''insufficientfunds''"
| "error_kind_code InvalidRequest = ''invalidrequest''"
| "error_kind_code OfferUnavailable = ''offerunavailable''"
| "error_kind_code PriceDrift = ''pricedrift''"
| "error_kind_code RateLimited = ''ratelimited''"
| "error_kind_code Retryable = ''retryable''"
| "error_kind_code Ambiguous = ''ambiguous''"
| "error_kind_code Permanent = ''permanent''"

record provider_error =
  pe_kind :: provider_error_kind
  pe_safe_message :: string
  pe_retry_after_ms :: "int option"
  pe_diagnostic_ref :: "string option"

definition provider_error_new :: "provider_error_kind \<Rightarrow> string \<Rightarrow> provider_error" where
  "provider_error_new k msg =
     \<lparr> pe_kind = k, pe_safe_message = msg, pe_retry_after_ms = None, pe_diagnostic_ref = None \<rparr>"

definition error_retryable :: "provider_error \<Rightarrow> bool" where
  "error_retryable e \<longleftrightarrow> pe_kind e \<in> {RateLimited, Retryable, Ambiguous}"

type_synonym 'a provider_result = "provider_error + 'a"

definition validate_for :: "gpu_offer \<Rightarrow> search_offers_request \<Rightarrow> int \<Rightarrow> unit provider_result" where
  "validate_for off req now =
    (if (case of_expires_at_ms off of None \<Rightarrow> False | Some expiry \<Rightarrow> expiry < now)
     then Inl (provider_error_new OfferUnavailable ''the selected offer expired'')
     else if of_hourly_microusd off \<le> 0 \<or> of_hourly_microusd off > sr_maximum_hourly_microusd req
     then Inl (provider_error_new PriceDrift
                 ''the selected offer is outside the authorized hourly price'')
     else if of_gpu_model off \<noteq> hw_gpu_model (sr_hardware req)
       \<or> of_gpu_count off < hw_gpu_count (sr_hardware req)
       \<or> of_vram_mib_per_gpu off < hw_minimum_vram_mib_per_gpu (sr_hardware req)
       \<or> of_host_ram_mib off < hw_minimum_host_ram_mib (sr_hardware req)
       \<or> of_disk_gib off < hw_minimum_disk_gib (sr_hardware req)
       \<or> (hw_requires_high_bandwidth_interconnect (sr_hardware req)
            \<and> \<not> of_high_bandwidth_interconnect off \<and> \<not> of_runtime_topology_verification off)
       \<or> (hw_allowed_cuda_versions (sr_hardware req) \<noteq> [] \<and> of_cuda_versions off \<noteq> []
            \<and> \<not> list_ex (\<lambda>available. list_ex (\<lambda>allowed. allowed = available)
                  (hw_allowed_cuda_versions (sr_hardware req))) (of_cuda_versions off))
       \<or> (of_interruptible off \<and> \<not> sr_allow_interruptible req)
       \<or> (sr_require_verified_or_secure req
            \<and> of_security_class off \<notin> {''verified'', ''secure''})
     then Inl (provider_error_new OfferUnavailable
                 ''the selected offer no longer satisfies the recipe'')
     else Inr ())"

record create_instance_request =
  cr_offer :: gpu_offer
  cr_client_operation_id :: string
  cr_ownership_tag :: string
  cr_image :: string
  cr_disk_gib :: nat
  cr_launch_command :: "string list"
  cr_inference_port :: nat
  cr_endpoint_token :: string
  cr_huggingface_token :: "string option"

record owned_instance_query =
  oq_installation_id :: string
  oq_ownership_tag :: "string option"

datatype gpu_instance_state =
  InstAllocating | InstRunning | InstStopped | InstFailed | InstTerminating

record gpu_instance =
  in_provider :: string
  in_resource_id :: string
  in_ownership_tag :: string
  in_state :: gpu_instance_state
  in_gpu_model :: string
  in_gpu_count :: nat
  in_host_ram_mib :: "nat option"
  in_disk_gib :: "nat option"
  in_high_bandwidth_interconnect :: "bool option"
  in_hourly_microusd :: int
  in_created_at_ms :: "int option"
  in_public_ip :: "string option"
  in_ssh_port :: "nat option"

record billing_state =
  bl_resource_id :: string
  bl_estimated_accrued_microusd :: int
  bl_provider_reported_cost_microusd :: "int option"
  bl_still_billable :: bool

datatype gpu_provision_phase =
    HardwareCheck | RuntimeSetup | RuntimeBuild | ModelDownload
  | ModelVerification | ModelLoading | EndpointProbing

fun phase_as_str :: "gpu_provision_phase \<Rightarrow> string" where
  "phase_as_str HardwareCheck = ''hardware_check''"
| "phase_as_str RuntimeSetup = ''runtime_setup''"
| "phase_as_str RuntimeBuild = ''runtime_build''"
| "phase_as_str ModelDownload = ''model_download''"
| "phase_as_str ModelVerification = ''model_verification''"
| "phase_as_str ModelLoading = ''model_loading''"
| "phase_as_str EndpointProbing = ''endpoint_probing''"

definition phase_parse :: "string \<Rightarrow> gpu_provision_phase option" where
  "phase_parse v =
    (let t = trim v in
     if t = ''hardware_check'' then Some HardwareCheck
     else if t = ''runtime_setup'' then Some RuntimeSetup
     else if t = ''runtime_build'' then Some RuntimeBuild
     else if t = ''model_download'' then Some ModelDownload
     else if t = ''model_verification'' then Some ModelVerification
     else if t = ''model_loading'' then Some ModelLoading
     else if t = ''endpoint_probing'' then Some EndpointProbing
     else None)"

record provider_capabilities =
  pc_provider :: string
  pc_supports_ownership_tags :: bool
  pc_supports_inventory :: bool
  pc_supports_secure_endpoint_transport :: bool
  pc_supports_native_ttl :: bool
  pc_supports_native_spend_cap :: bool
  pc_security_classes :: "string list"

text \<open>The trait \<^verbatim>\<open>GpuProvider\<close>.  The marketplaces are remote services: an adapter is a
  record of functions over a state of type \<^typ>\<open>'w\<close> that stands for everything outside
  the program, so that an answer may depend on every call made before it.\<close>

type_synonym ('w, 'a) remote = "'w \<Rightarrow> 'a \<times> 'w"

record 'w gpu_provider =
  capabilities :: provider_capabilities
  create_revalidates_exact_offer_atomically :: bool
  secure_endpoint_base_url :: "gpu_instance \<Rightarrow> nat \<Rightarrow> ('w, string provider_result) remote"
  provision_phase :: "gpu_instance \<Rightarrow> ('w, gpu_provision_phase option provider_result) remote"
  search_offers :: "search_offers_request \<Rightarrow> ('w, gpu_offer list provider_result) remote"
  create_instance :: "create_instance_request \<Rightarrow> ('w, gpu_instance provider_result) remote"
  get_instance :: "string \<Rightarrow> ('w, gpu_instance option provider_result) remote"
  list_owned_instances :: "owned_instance_query \<Rightarrow> ('w, gpu_instance list provider_result) remote"
  terminate_instance :: "string \<Rightarrow> ('w, unit provider_result) remote"
  billing_state_of :: "string \<Rightarrow> ('w, billing_state provider_result) remote"

end
