(* ===== verification/Gpu_Recipe.thy ===== *)
theory Gpu_Recipe
  imports Gpu_Model
begin

text \<open>The recipe manifest a rental is pinned to
  (\<^verbatim>\<open>codex-rs/gpu-market/src/recipe.rs\<close>) and the credential labels of the GPU market
  (\<^verbatim>\<open>codex-rs/gpu-market/src/credential.rs\<close>).  The checked \<^verbatim>\<open>u64\<close> arithmetic of the
  manifest's capacity checks is written out; the resolver trait, which several stores
  implement, is a record of functions like the provider.\<close>

section \<open>Recipes\<close>

datatype recipe_stability = Qualified | Experimental

record gpu_recipe =
  rc_id :: string
  rc_revision :: string
  rc_model_id :: string
  rc_served_model_id :: string
  rc_wire_api :: string
  rc_model_revision :: string
  rc_image :: string
  rc_runtime :: string
  rc_serving_runtime_version :: string
  rc_license_id :: string
  rc_requires_huggingface_token :: bool
  rc_minimum_driver_version :: string
  rc_gpu_architectures :: "string list"
  rc_weight_format :: string
  rc_hardware :: hardware_requirements
  rc_tensor_parallel_size :: nat
  rc_maximum_context_tokens :: nat
  rc_maximum_concurrent_requests :: nat
  rc_expected_download_bytes :: nat
  rc_model_weight_bytes :: nat
  rc_kv_cache_reserve_bytes :: nat
  rc_workspace_reserve_bytes :: nat
  rc_launch_command :: "string list"
  rc_environment_allowlist :: "string list"
  rc_startup_deadline_ms :: nat
  rc_download_deadline_ms :: nat
  rc_probe_deadline_ms :: nat
  rc_inference_port :: nat
  rc_chat_encoding :: string
  rc_probe_contract :: string
  rc_stability :: recipe_stability
  rc_manifest_verified :: bool

type_synonym recipe_catalog = "gpu_recipe list"

definition catalog_get :: "recipe_catalog \<Rightarrow> string \<Rightarrow> gpu_recipe option" where
  "catalog_get rs i = find (\<lambda>r. rc_id r = i) rs"

definition served_model_id :: "gpu_recipe \<Rightarrow> string" where
  "served_model_id r =
     (if trim (rc_served_model_id r) = [] then rc_model_id r else rc_served_model_id r)"

definition is_ascii_hexdigit :: "char \<Rightarrow> bool" where
  "is_ascii_hexdigit c \<longleftrightarrow>
     (48 \<le> byte c \<and> byte c \<le> 57) \<or> (65 \<le> byte c \<and> byte c \<le> 70) \<or> (97 \<le> byte c \<and> byte c \<le> 102)"

definition is_immutable_revision :: "string \<Rightarrow> bool" where
  "is_immutable_revision v \<longleftrightarrow> (length v = 40 \<or> length v = 64) \<and> list_all is_ascii_hexdigit v"

text \<open>\<^verbatim>\<open>str::rsplit_once\<close> with a string pattern splits at the last occurrence.\<close>

fun rsplit_once_str :: "string \<Rightarrow> string \<Rightarrow> (string \<times> string) option" where
  "rsplit_once_str sep [] = None"
| "rsplit_once_str sep (c # cs) =
    (case rsplit_once_str sep cs of
       Some (a, b) \<Rightarrow> Some (c # a, b)
     | None \<Rightarrow> if starts_with (c # cs) sep then Some ([], drop (length sep) (c # cs)) else None)"

definition has_image_digest :: "string \<Rightarrow> bool" where
  "has_image_digest v =
    (case rsplit_once_str ''@sha256:'' v of
       None \<Rightarrow> False
     | Some (name, digest) \<Rightarrow>
         name \<noteq> [] \<and> length digest = 64 \<and> list_all is_ascii_hexdigit digest)"

definition u64_max :: nat where "u64_max = 18446744073709551615"

definition checked_u64 :: "nat \<Rightarrow> nat option" where
  "checked_u64 n = (if n \<le> u64_max then Some n else None)"

definition ensure :: "bool \<Rightarrow> string \<Rightarrow> string + unit" where
  "ensure b msg = (if b then Inr () else Inl msg)"

fun has_window2 :: "'a \<Rightarrow> 'a \<Rightarrow> 'a list \<Rightarrow> bool" where
  "has_window2 a b (x # y # zs) \<longleftrightarrow> (x = a \<and> y = b) \<or> has_window2 a b (y # zs)"
| "has_window2 a b _ \<longleftrightarrow> False"

definition total_vram_bytes :: "gpu_recipe \<Rightarrow> nat option" where
  "total_vram_bytes r =
     Option.bind (checked_u64 (hw_minimum_vram_mib_per_gpu (rc_hardware r) * hw_gpu_count (rc_hardware r)))
       (\<lambda>v. checked_u64 (v * (1024 * 1024)))"

definition required_vram_bytes :: "gpu_recipe \<Rightarrow> nat option" where
  "required_vram_bytes r =
     Option.bind (checked_u64 (rc_model_weight_bytes r + rc_kv_cache_reserve_bytes r))
       (\<lambda>v. checked_u64 (v + rc_workspace_reserve_bytes r))"

definition scoped_auth :: "gpu_recipe \<Rightarrow> bool" where
  "scoped_auth r =
    (let launch = join '' '' (rc_launch_command r) in
       has_window2 ''--api-key'' ''$PFT_ENDPOINT_TOKEN'' (rc_launch_command r)
     \<or> str_contains launch (''--api-key '' @ [CHR 34] @ ''$PFT_ENDPOINT_TOKEN'' @ [CHR 34])
     \<or> (str_contains launch ''Bearer {$PFT_ENDPOINT_TOKEN}'' \<and> str_contains launch ''reverse_proxy''))"

definition validate_verified_recipe :: "gpu_recipe \<Rightarrow> string + unit" where
  "validate_verified_recipe r =
    (let launch = join '' '' (rc_launch_command r) in
     and_then (ensure (rc_wire_api r = ''chat'' \<or> rc_wire_api r = ''responses'')
       ''verified recipe wire API must be chat or responses'') (\<lambda>_.
     and_then (ensure (rc_tensor_parallel_size r = hw_gpu_count (rc_hardware r))
       ''verified recipe tensor parallel size must match its allocated GPU count'') (\<lambda>_.
     and_then (ensure (is_immutable_revision (rc_model_revision r))
       ''verified recipe model revision must be an immutable commit digest'') (\<lambda>_.
     and_then (ensure (has_image_digest (rc_image r))
       ''verified recipe image must use an immutable sha256 digest'') (\<lambda>_.
     and_then (ensure (\<not> str_contains (rc_revision r) ''pending''
         \<and> list_all (\<lambda>v. trim v \<noteq> [])
             [rc_runtime r, rc_serving_runtime_version r, rc_license_id r,
              rc_minimum_driver_version r, rc_weight_format r, rc_chat_encoding r])
       ''verified recipe manifest metadata is incomplete'') (\<lambda>_.
     and_then (ensure (rc_gpu_architectures r \<noteq> [] \<and> rc_maximum_context_tokens r > 0
         \<and> rc_maximum_concurrent_requests r > 0 \<and> rc_expected_download_bytes r > 0
         \<and> rc_model_weight_bytes r > 0 \<and> rc_startup_deadline_ms r > 0
         \<and> rc_download_deadline_ms r > 0 \<and> rc_probe_deadline_ms r > 0 \<and> rc_inference_port r > 0)
       ''verified recipe capacity and deadline fields must be complete'') (\<lambda>_.
     and_then (ok_or ''verified recipe VRAM calculation overflowed'' (total_vram_bytes r)) (\<lambda>total_vram.
     and_then (ok_or ''verified recipe memory calculation overflowed'' (required_vram_bytes r)) (\<lambda>required_vram.
     and_then (ensure (required_vram \<le> total_vram)
       ''verified recipe exceeds its minimum aggregate VRAM'') (\<lambda>_.
     and_then (ok_or ''verified recipe disk calculation overflowed''
         (checked_u64 (hw_minimum_disk_gib (rc_hardware r) * (1024 * 1024 * 1024)))) (\<lambda>disk_bytes.
     and_then (ensure (case checked_u64 (rc_expected_download_bytes r + rc_workspace_reserve_bytes r) of
                         None \<Rightarrow> False | Some required \<Rightarrow> required \<le> disk_bytes)
       ''verified recipe exceeds its minimum disk capacity'') (\<lambda>_.
     and_then (ensure (list_all (\<lambda>n. n \<in> {''PFT_ENDPOINT_TOKEN'', ''HF_TOKEN''}) (rc_environment_allowlist r)
         \<and> list_ex (\<lambda>n. n = ''PFT_ENDPOINT_TOKEN'') (rc_environment_allowlist r)
         \<and> (\<not> rc_requires_huggingface_token r
            \<or> list_ex (\<lambda>n. n = ''HF_TOKEN'') (rc_environment_allowlist r)))
       ''verified recipe environment allowlist is unsafe or incomplete'') (\<lambda>_.
     and_then (ensure (str_contains launch (rc_model_id r) \<and> str_contains launch (rc_model_revision r))
       ''verified recipe launch must consume its pinned model source and revision'') (\<lambda>_.
     and_then (ensure (rc_launch_command r \<noteq> [] \<and> \<not> str_contains launch ''--api-key='' \<and> scoped_auth r)
       ''verified recipe must launch an authenticated endpoint using its scoped token'') (\<lambda>_.
     and_then (ensure (hw_requires_high_bandwidth_interconnect (rc_hardware r) \<longrightarrow>
           str_contains launch ''nvidia-smi topo -m''
           \<and> str_contains launch ''PFTERMINAL_RUNTIME_GATE=nvlink-ok'')
       ''verified multi-GPU recipe must gate serving on allocation-local topology checks'') (\<lambda>_.
     and_then (ensure (rc_runtime r \<in> {''llama.cpp'', ''ds4''} \<longrightarrow>
           is_immutable_revision (rc_serving_runtime_version r)
           \<and> str_contains launch (rc_serving_runtime_version r))
       ''verified source-built recipes must pin and launch their runtime revision'') (\<lambda>_.
     ensure (rc_probe_contract r = ''pfterminal-openai-v1'')
       ''verified recipe readiness contract is unsupported'')))))))))))))))))"

text \<open>\<^verbatim>\<open>RecipeCatalog::new\<close>: the loop carries the set of ids seen so far.\<close>

primrec catalog_check :: "string list \<Rightarrow> gpu_recipe list \<Rightarrow> string + unit" where
  "catalog_check ids [] = Inr ()"
| "catalog_check ids (r # rs) =
    (if trim (rc_id r) = [] \<or> rc_id r \<in> set ids
     then Inl ''recipe ids must be non-empty and unique''
     else if hw_gpu_count (rc_hardware r) = 0 \<or> rc_tensor_parallel_size r = 0
     then Inl ''recipe GPU counts must be positive''
     else and_then (if rc_manifest_verified r then validate_verified_recipe r else Inr ())
            (\<lambda>_. catalog_check (rc_id r # ids) rs))"

definition catalog_new :: "gpu_recipe list \<Rightarrow> string + recipe_catalog" where
  "catalog_new rs = and_then (catalog_check [] rs) (\<lambda>_. Inr rs)"

section \<open>Credentials\<close>

datatype gpu_credential_kind =
    ProviderApiKey string
  | HuggingFaceToken
  | RentalEndpointToken string

datatype gpu_credential_error =
    CredMissing | CredEmpty | UnsupportedProvider string | InvalidRentalId | StoreUnavailable

definition credential_retryable :: "gpu_credential_error \<Rightarrow> bool" where
  "credential_retryable e \<longleftrightarrow> e = CredMissing \<or> e = StoreUnavailable"

definition validate_rental_id :: "string \<Rightarrow> gpu_credential_error + unit" where
  "validate_rental_id i =
    (if i = [] \<or> length i > 128
        \<or> \<not> list_all (\<lambda>c. is_ascii_alphanumeric c \<or> c = CHR ''-'' \<or> c = CHR ''_'') i
     then Inl InvalidRentalId else Inr ())"

definition canonical_label :: "gpu_credential_kind \<Rightarrow> gpu_credential_error + string" where
  "canonical_label k =
    (case k of
       ProviderApiKey p \<Rightarrow>
         if p = ''vast'' then Inr ''gpu/provider/vast/api-key''
         else if p = ''runpod'' then Inr ''gpu/provider/runpod/api-key''
         else Inl (UnsupportedProvider p)
     | HuggingFaceToken \<Rightarrow> Inr ''gpu/huggingface/token''
     | RentalEndpointToken i \<Rightarrow>
         and_then (validate_rental_id i) (\<lambda>_. Inr (''gpu/rental/'' @ i @ ''/endpoint-token'')))"

definition rental_id_from_endpoint_token_label :: "string \<Rightarrow> string option" where
  "rental_id_from_endpoint_token_label label =
    Option.bind (strip_prefix ''gpu/rental/'' label) (\<lambda>r.
    Option.bind (strip_suffix ''/endpoint-token'' r) (\<lambda>i.
      if is_ok (validate_rental_id i) then Some i else None))"

text \<open>The trait \<^verbatim>\<open>GpuCredentialResolver\<close>; a credential is the secret it resolves to.\<close>

record 'w credential_resolver =
  resolve :: "gpu_credential_kind \<Rightarrow> ('w, gpu_credential_error + string) remote"
  rental_endpoint_token_ids :: "('w, gpu_credential_error + string list) remote"
  delete_rental_endpoint_token :: "string \<Rightarrow> ('w, gpu_credential_error + bool) remote"
  delete_rental_endpoint_tokens :: "string list \<Rightarrow> ('w, gpu_credential_error + nat) remote"
  ensure_rental_endpoint_token :: "string \<Rightarrow> ('w, gpu_credential_error + string) remote"

section \<open>Properties\<close>

lemma ensure_Inr [simp]: "ensure b msg = Inr u \<longleftrightarrow> b"
  by (simp add: ensure_def)

lemma checked_u64_Some [simp]: "checked_u64 n = Some m \<longleftrightarrow> m = n \<and> n \<le> u64_max"
  by (auto simp: checked_u64_def)

lemma ok_or_Inr [simp]: "ok_or e x = Inr y \<longleftrightarrow> x = Some y"
  by (cases x) simp_all

text \<open>The labels of the credential store and the label parser are inverse to each other
  on the rental tokens, and no other credential's label reads as a rental token.\<close>

lemma endpoint_label_roundtrip:
  "rental_id_from_endpoint_token_label l = Some i \<longleftrightarrow> canonical_label (RentalEndpointToken i) = Inr l"
  by (auto simp: rental_id_from_endpoint_token_label_def canonical_label_def bind_eq_Some_conv
        strip_prefix_Some strip_suffix_Some is_ok_iff)

lemma endpoint_label_kind:
  "canonical_label k = Inr l \<Longrightarrow> rental_id_from_endpoint_token_label l = Some i \<Longrightarrow> k = RentalEndpointToken i"
  by (auto simp: endpoint_label_roundtrip canonical_label_def split: gpu_credential_kind.splits if_splits)

text \<open>What a recipe of an accepted catalogue is known to satisfy when its manifest is
  marked as verified.\<close>

definition pinned_recipe :: "gpu_recipe \<Rightarrow> bool" where
  "pinned_recipe r \<longleftrightarrow>
     is_immutable_revision (rc_model_revision r) \<and> has_image_digest (rc_image r)
   \<and> 0 < rc_maximum_context_tokens r \<and> rc_wire_api r \<in> {''chat'', ''responses''}
   \<and> rc_model_weight_bytes r + rc_kv_cache_reserve_bytes r + rc_workspace_reserve_bytes r
       \<le> hw_minimum_vram_mib_per_gpu (rc_hardware r) * hw_gpu_count (rc_hardware r) * 1048576
   \<and> rc_expected_download_bytes r + rc_workspace_reserve_bytes r
       \<le> hw_minimum_disk_gib (rc_hardware r) * 1073741824
   \<and> set (rc_environment_allowlist r) \<subseteq> {''PFT_ENDPOINT_TOKEN'', ''HF_TOKEN''}
   \<and> scoped_auth r
   \<and> str_contains (join '' '' (rc_launch_command r)) (rc_model_revision r)"

lemma validate_verified_recipe_pinned:
  assumes "validate_verified_recipe r = Inr u"
  shows "pinned_recipe r"
  using assms
  by (simp add: validate_verified_recipe_def Let_def pinned_recipe_def total_vram_bytes_def
        required_vram_bytes_def bind_eq_Some_conv list_all_iff subset_iff split: option.splits)

lemma catalog_check_Inr:
  "catalog_check ids rs = Inr u \<Longrightarrow>
     distinct (map rc_id rs) \<and> set (map rc_id rs) \<inter> set ids = {}
     \<and> (\<forall>r \<in> set rs. rc_manifest_verified r \<longrightarrow> pinned_recipe r)"
proof (induction rs arbitrary: ids)
  case (Cons r rs)
  then have "catalog_check (rc_id r # ids) rs = Inr ()" "rc_id r \<notin> set ids"
    and "rc_manifest_verified r \<Longrightarrow> validate_verified_recipe r = Inr ()"
    by (auto split: if_splits)
  with Cons.IH show ?case by (fastforce dest: validate_verified_recipe_pinned)
qed simp

lemma catalog_get_new:
  assumes "catalog_new rs = Inr cat" "r \<in> set cat"
  shows "catalog_get cat (rc_id r) = Some r"
proof -
  have d: "distinct (map rc_id cat)"
    using assms(1) catalog_check_Inr by (fastforce simp: catalog_new_def)
  have "\<exists>y. catalog_get cat (rc_id r) = Some y"
    using assms(2) by (cases "catalog_get cat (rc_id r)") (auto simp: catalog_get_def find_None_iff)
  then obtain y where y: "catalog_get cat (rc_id r) = Some y" by blast
  then have "y \<in> set cat" "rc_id y = rc_id r"
    by (auto simp: catalog_get_def find_Some_iff)
  then show ?thesis
    using d assms(2) y by (metis distinct_map inj_on_def)
qed


definition hex40 :: string where
  "hex40 = ''7872f01b1d1fe23eabc4c98b48bffcef5a386062''"

definition sample_image :: string where
  "sample_image = ''img@sha256:'' @ hex40 @ ''7872f01b1d1fe23eabc4c98b''"

definition sample_launch :: "string list" where
  "sample_launch = [''serve'', ''m/x'', hex40, ''--api-key'', ''$PFT_ENDPOINT_TOKEN'']"

definition sample_hardware :: hardware_requirements where
  "sample_hardware = \<lparr> hw_gpu_model = ''H200'', hw_gpu_count = 1,
     hw_minimum_vram_mib_per_gpu = 141000, hw_minimum_host_ram_mib = 65536,
     hw_minimum_disk_gib = 200, hw_requires_high_bandwidth_interconnect = False,
     hw_allowed_cuda_versions = [] \<rparr>"

definition sample_recipe :: gpu_recipe where
  "sample_recipe = \<lparr> rc_id = ''r1'', rc_revision = ''r1-a'', rc_model_id = ''m/x'',
     rc_served_model_id = ''x'', rc_wire_api = ''chat'', rc_model_revision = hex40,
     rc_image = sample_image, rc_runtime = ''vllm'',
     rc_serving_runtime_version = ''1'', rc_license_id = ''mit'',
     rc_requires_huggingface_token = False, rc_minimum_driver_version = ''570'',
     rc_gpu_architectures = [''hopper''], rc_weight_format = ''fp8'', rc_hardware = sample_hardware,
     rc_tensor_parallel_size = 1, rc_maximum_context_tokens = 4096,
     rc_maximum_concurrent_requests = 2, rc_expected_download_bytes = 1000,
     rc_model_weight_bytes = 1000, rc_kv_cache_reserve_bytes = 10, rc_workspace_reserve_bytes = 10,
     rc_launch_command = sample_launch,
     rc_environment_allowlist = [''PFT_ENDPOINT_TOKEN''], rc_startup_deadline_ms = 1000,
     rc_download_deadline_ms = 1000, rc_probe_deadline_ms = 1000, rc_inference_port = 8000,
     rc_chat_encoding = ''openai'', rc_probe_contract = ''pfterminal-openai-v1'',
     rc_stability = Qualified, rc_manifest_verified = True \<rparr>"

lemma sample_strings:
  "trim ''r1'' = ''r1''" "trim ''vllm'' = ''vllm''" "trim ''1'' = ''1''" "trim ''mit'' = ''mit''"
  "trim ''570'' = ''570''" "trim ''fp8'' = ''fp8''" "trim ''openai'' = ''openai''"
  "is_immutable_revision hex40" "has_image_digest sample_image"
  "str_contains (join '' '' sample_launch) ''m/x''"
  "str_contains (join '' '' sample_launch) hex40"
  "\<not> str_contains (join '' '' sample_launch) ''--api-key=''"
  "has_window2 ''--api-key'' ''$PFT_ENDPOINT_TOKEN'' sample_launch" "sample_launch \<noteq> []"
  "\<not> str_contains ''r1-a'' ''pending''"
  by code_simp+

lemma sample_fields:
  "rc_id sample_recipe = ''r1''" "rc_wire_api sample_recipe = ''chat''"
  "rc_tensor_parallel_size sample_recipe = 1" "rc_hardware sample_recipe = sample_hardware"
  "rc_model_revision sample_recipe = hex40" "rc_image sample_recipe = sample_image" "rc_revision sample_recipe = ''r1-a''"
  "rc_runtime sample_recipe = ''vllm''" "rc_serving_runtime_version sample_recipe = ''1''"
  "rc_license_id sample_recipe = ''mit''" "rc_minimum_driver_version sample_recipe = ''570''"
  "rc_weight_format sample_recipe = ''fp8''" "rc_chat_encoding sample_recipe = ''openai''"
  "rc_gpu_architectures sample_recipe = [''hopper'']" "rc_maximum_context_tokens sample_recipe = 4096"
  "rc_maximum_concurrent_requests sample_recipe = 2" "rc_expected_download_bytes sample_recipe = 1000"
  "rc_model_weight_bytes sample_recipe = 1000" "rc_kv_cache_reserve_bytes sample_recipe = 10"
  "rc_workspace_reserve_bytes sample_recipe = 10" "rc_startup_deadline_ms sample_recipe = 1000"
  "rc_download_deadline_ms sample_recipe = 1000" "rc_probe_deadline_ms sample_recipe = 1000"
  "rc_inference_port sample_recipe = 8000" "rc_launch_command sample_recipe = sample_launch"
  "rc_environment_allowlist sample_recipe = [''PFT_ENDPOINT_TOKEN'']"
  "rc_model_id sample_recipe = ''m/x''" "rc_requires_huggingface_token sample_recipe = False"
  "rc_probe_contract sample_recipe = ''pfterminal-openai-v1''" "rc_manifest_verified sample_recipe"
  by (simp_all add: sample_recipe_def)

lemma sample_catalog: "catalog_new [sample_recipe] = Inr [sample_recipe]"
  by (simp add: catalog_new_def validate_verified_recipe_def Let_def sample_strings sample_fields
        ensure_def sample_hardware_def total_vram_bytes_def required_vram_bytes_def checked_u64_def
        u64_max_def scoped_auth_def)


end
