(* ===== verification/Gpu_Ledger.thy ===== *)
theory Gpu_Ledger
  imports Gpu_Model "HOL-Library.Product_Lexorder" "HOL-Library.List_Lexorder"
begin

text \<open>The durable ledger of the GPU market: every operation of
  \<^verbatim>\<open>codex-rs/state/src/runtime/gpu_rentals.rs\<close> and
  \<^verbatim>\<open>gpu_runtime_providers.rs\<close> on the tables of
  \<^verbatim>\<open>codex-rs/state/migrations/0042_gpu_rentals.sql\<close> and
  \<^verbatim>\<open>0043_gpu_provisioning_overlay.sql\<close>.

  A table is the list of its rows in the order they were inserted, and each SQL statement
  is one atomic step on it: an \<^verbatim>\<open>UPDATE\<close> maps its \<^verbatim>\<open>SET\<close> clause over the rows its \<^verbatim>\<open>WHERE\<close>
  clause selects and reports how many it changed; an \<^verbatim>\<open>INSERT\<close> checks the index its
  \<^verbatim>\<open>ON CONFLICT\<close> clause names first and every other constraint after it.  Where the order of
  the rows is left to SQLite the model keeps the insertion order.  Rows hold the parsed
  states: parsing is the inverse of the spelling the statements bind.  A failing
  connection is outside the model; a violated constraint is an error value, and an
  error leaves the tables as they were.\<close>

section \<open>Tables\<close>

record gpu_rental_operation =
  op_operation_id :: string
  op_rental_id :: string
  op_kind :: gpu_operation_kind
  op_sequence :: int
  op_status :: string
  op_provider_request_id :: "string option"
  op_provider_resource_id :: "string option"
  op_sanitized_error :: "string option"
  op_started_at_ms :: int
  op_completed_at_ms :: "int option"

record gpu_rental_notification =
  nt_rental_id :: string
  nt_state_sequence :: int
  nt_kind :: string
  nt_delivered_at_ms :: int

record gpu_db =
  db_rentals :: "gpu_rental list"
  db_operations :: "gpu_rental_operation list"
  db_notifications :: "gpu_rental_notification list"
  db_provision_steps :: "gpu_provision_step list"
  db_runtime_providers :: "gpu_runtime_provider list"

definition empty_db :: gpu_db where
  "empty_db = \<lparr> db_rentals = [], db_operations = [], db_notifications = [],
     db_provision_steps = [], db_runtime_providers = [] \<rparr>"

definition update_rows :: "('r \<Rightarrow> bool) \<Rightarrow> ('r \<Rightarrow> 'r) \<Rightarrow> 'r list \<Rightarrow> 'r list" where
  "update_rows p f rows = map (\<lambda>r. if p r then f r else r) rows"

definition count_rows :: "('r \<Rightarrow> bool) \<Rightarrow> 'r list \<Rightarrow> nat" where
  "count_rows p rows = length (filter p rows)"

definition coalesce :: "'a option \<Rightarrow> 'a option \<Rightarrow> 'a option" where
  "coalesce a b = (case a of Some x \<Rightarrow> Some x | None \<Rightarrow> b)"

definition coalesce_to :: "'a option \<Rightarrow> 'a \<Rightarrow> 'a" where
  "coalesce_to a b = (case a of Some x \<Rightarrow> x | None \<Rightarrow> b)"

section \<open>Rentals\<close>

definition is_object :: "json_value \<Rightarrow> bool" where
  "is_object v = (case v of JObject _ \<Rightarrow> True | _ \<Rightarrow> False)"

definition validate_gpu_rental_create ::
    "(string \<Rightarrow> json_value option) \<Rightarrow> gpu_rental_create_params \<Rightarrow> int \<Rightarrow> string + unit" where
  "validate_gpu_rental_create from_str p now =
    (case find (\<lambda>(name, v). trim v = [])
       [(''rental_id'', rental_id p), (''installation_id'', installation_id p),
        (''client_operation_id'', client_operation_id p), (''provider'', provider p),
        (''recipe_id'', recipe_id p), (''recipe_revision'', recipe_revision p),
        (''ownership_tag'', ownership_tag p)] of
       Some (name, v) \<Rightarrow> Inl (name @ '' must not be empty'')
     | None \<Rightarrow>
       (case from_str (offer_snapshot_json p) of
          None \<Rightarrow> Inl ''offer snapshot is not JSON''
        | Some offer \<Rightarrow>
            if \<not> is_object offer then Inl ''offer snapshot must be a JSON object''
            else if max_hourly_microusd p \<le> 0 \<or> max_total_microusd p \<le> 0
            then Inl ''GPU rental money limits must be positive''
            else if terminate_at_ms p \<le> now
            then Inl ''GPU rental termination time must be in the future''
            else if (case quote_expires_at_ms p of None \<Rightarrow> False | Some e \<Rightarrow> e < now)
            then Inl ''GPU rental quote has expired''
            else Inr ()))"

definition gpu_rental_matches_create :: "gpu_rental \<Rightarrow> gpu_rental_create_params \<Rightarrow> bool" where
  "gpu_rental_matches_create r p \<longleftrightarrow>
     installation_id r = installation_id p \<and> provider r = provider p
   \<and> recipe_id r = recipe_id p \<and> recipe_revision r = recipe_revision p
   \<and> offer_snapshot_json r = offer_snapshot_json p
   \<and> quote_expires_at_ms r = quote_expires_at_ms p
   \<and> max_hourly_microusd r = max_hourly_microusd p
   \<and> max_total_microusd r = max_total_microusd p
   \<and> terminate_at_ms r = terminate_at_ms p
   \<and> enforcement_class r = enforcement_class p \<and> ownership_tag r = ownership_tag p"

text \<open>The row the \<^verbatim>\<open>INSERT\<close> writes: the bound values and the column defaults.\<close>

definition new_rental_row :: "gpu_rental_create_params \<Rightarrow> int \<Rightarrow> gpu_rental" where
  "new_rental_row p now =
     \<lparr> rental_id = rental_id p, installation_id = installation_id p,
       client_operation_id = client_operation_id p, provider = provider p,
       recipe_id = recipe_id p, recipe_revision = recipe_revision p,
       offer_snapshot_json = offer_snapshot_json p, quote_expires_at_ms = quote_expires_at_ms p,
       max_hourly_microusd = max_hourly_microusd p, max_total_microusd = max_total_microusd p,
       terminate_at_ms = terminate_at_ms p, enforcement_class = enforcement_class p,
       ownership_tag = ownership_tag p,
       desired_state = Quoted, observed_state = Quoted, provider_resource_id = None,
       state_sequence = 1, controller_lease_owner = None, controller_lease_until_ms = 0,
       provision_step = None, endpoint_base_url = None, endpoint_provider_id = None,
       last_error_code = None, last_error_message = None, diagnostic_ref = None,
       last_reconciled_at_ms = None, next_retry_at_ms = now, retry_count = 0,
       estimated_accrued_microusd = 0, provider_reported_cost_microusd = None,
       created_at_ms = now, updated_at_ms = now, terminated_confirmed_at_ms = None \<rparr>"

definition get_gpu_rental :: "string \<Rightarrow> gpu_db \<Rightarrow> gpu_rental option" where
  "get_gpu_rental i db = find (\<lambda>r. rental_id r = i) (db_rentals db)"

definition get_gpu_rental_by_client_operation :: "string \<Rightarrow> gpu_db \<Rightarrow> gpu_rental option" where
  "get_gpu_rental_by_client_operation c db = find (\<lambda>r. client_operation_id r = c) (db_rentals db)"

definition insert_rental ::
    "gpu_rental_create_params \<Rightarrow> int \<Rightarrow> gpu_db \<Rightarrow> string + (nat \<times> gpu_db)" where
  "insert_rental p now db =
    (if list_ex (\<lambda>r. client_operation_id r = client_operation_id p) (db_rentals db)
     then Inr (0, db)
     else if list_ex (\<lambda>r. rental_id r = rental_id p \<or> ownership_tag r = ownership_tag p) (db_rentals db)
     then Inl ''UNIQUE constraint failed''
     else Inr (1, db\<lparr>db_rentals := db_rentals db @ [new_rental_row p now]\<rparr>))"

definition create_gpu_rental ::
    "(string \<Rightarrow> json_value option) \<Rightarrow> gpu_rental_create_params \<Rightarrow> int \<Rightarrow> gpu_db
       \<Rightarrow> string + (gpu_rental \<times> gpu_db)" where
  "create_gpu_rental from_str p now db =
     and_then (validate_gpu_rental_create from_str p now) (\<lambda>_.
     and_then (insert_rental p now db) (\<lambda>(inserted, db').
     and_then (ok_or ''GPU rental insert did not produce a row''
         (get_gpu_rental_by_client_operation (client_operation_id p) db')) (\<lambda>r.
       if inserted = 0 \<and> \<not> gpu_rental_matches_create r p
       then Inl ''client operation id is already bound to different GPU rental terms''
       else Inr (r, db'))))"

definition list_gpu_rentals :: "nat \<Rightarrow> gpu_db \<Rightarrow> string + gpu_rental list" where
  "list_gpu_rentals limit db =
    (if int (max limit 1) > i64_max then Inl ''out of range integral type conversion attempted''
     else Inr (take (max limit 1) (sort_key (\<lambda>r. - created_at_ms r) (db_rentals db))))"

definition request_gpu_rental_creation :: "string \<Rightarrow> int \<Rightarrow> gpu_db \<Rightarrow> bool \<times> gpu_db" where
  "request_gpu_rental_creation i now db =
    (let p = (\<lambda>r. rental_id r = i \<and> desired_state r = Quoted \<and> observed_state r = Quoted
                \<and> terminate_at_ms r > now
                \<and> (case quote_expires_at_ms r of None \<Rightarrow> True | Some e \<Rightarrow> e \<ge> now));
         f = (\<lambda>r. r\<lparr>desired_state := CreatePending, state_sequence := state_sequence r + 1,
                   next_retry_at_ms := now, updated_at_ms := now\<rparr>)
     in (count_rows p (db_rentals db) = 1, db\<lparr>db_rentals := update_rows p f (db_rentals db)\<rparr>))"

definition request_gpu_rental_termination :: "string \<Rightarrow> int \<Rightarrow> gpu_db \<Rightarrow> bool \<times> gpu_db" where
  "request_gpu_rental_termination i now db =
    (let p = (\<lambda>r. rental_id r = i \<and> observed_state r \<noteq> TerminatedConfirmed);
         f = (\<lambda>r. r\<lparr>desired_state := TerminateRequested,
                   state_sequence := state_sequence r + (if desired_state r = TerminateRequested then 0 else 1),
                   next_retry_at_ms := now, updated_at_ms := now\<rparr>)
     in (count_rows p (db_rentals db) = 1, db\<lparr>db_rentals := update_rows p f (db_rentals db)\<rparr>))"

definition lease_free :: "string \<Rightarrow> int \<Rightarrow> gpu_rental \<Rightarrow> bool" where
  "lease_free own now r \<longleftrightarrow>
     controller_lease_until_ms r \<le> now \<or> controller_lease_owner r = Some own"

definition due_rental :: "string \<Rightarrow> string option \<Rightarrow> int \<Rightarrow> gpu_rental \<Rightarrow> bool" where
  "due_rental own prov now r \<longleftrightarrow>
     next_retry_at_ms r \<le> now \<and> observed_state r \<noteq> TerminatedConfirmed
   \<and> (case prov of None \<Rightarrow> True | Some p \<Rightarrow> provider r = p) \<and> lease_free own now r"

definition leased :: "string \<Rightarrow> int \<Rightarrow> int \<Rightarrow> gpu_rental \<Rightarrow> gpu_rental" where
  "leased own t now r =
     r\<lparr>controller_lease_owner := Some own, controller_lease_until_ms := t, updated_at_ms := now\<rparr>"

definition claim_due_gpu_rentals_inner ::
    "string \<Rightarrow> string option \<Rightarrow> int \<Rightarrow> int \<Rightarrow> nat \<Rightarrow> gpu_db \<Rightarrow> string + (gpu_rental_lease list \<times> gpu_db)" where
  "claim_due_gpu_rentals_inner own prov now ttl limit db =
    (if int (max limit 1) > i64_max then Inl ''out of range integral type conversion attempted''
     else
       (let lease_until = saturating_add now (max ttl 1);
            ids = map rental_id (take (max limit 1)
                    (sort_key (\<lambda>r. (next_retry_at_ms r, created_at_ms r))
                      (filter (due_rental own prov now) (db_rentals db))));
            p = (\<lambda>r. rental_id r \<in> set ids \<and> lease_free own now r);
            f = leased own lease_until now
        in Inr (map (\<lambda>r. \<lparr>rental = f r, lease_owner = own, lease_until_ms = lease_until\<rparr>)
                  (filter p (db_rentals db)),
                db\<lparr>db_rentals := update_rows p f (db_rentals db)\<rparr>)))"

definition claim_due_gpu_rentals ::
    "string \<Rightarrow> int \<Rightarrow> int \<Rightarrow> nat \<Rightarrow> gpu_db \<Rightarrow> string + (gpu_rental_lease list \<times> gpu_db)" where
  "claim_due_gpu_rentals own now ttl limit db = claim_due_gpu_rentals_inner own None now ttl limit db"

definition claim_due_gpu_rentals_for_provider ::
    "string \<Rightarrow> string \<Rightarrow> int \<Rightarrow> int \<Rightarrow> nat \<Rightarrow> gpu_db \<Rightarrow> string + (gpu_rental_lease list \<times> gpu_db)" where
  "claim_due_gpu_rentals_for_provider own prov now ttl limit db =
    (if prov = [] then Inl ''GPU provider must not be empty''
     else claim_due_gpu_rentals_inner own (Some prov) now ttl limit db)"

text \<open>The \<^verbatim>\<open>SET\<close> clause of \<^verbatim>\<open>update_gpu_rental\<close>.\<close>

definition update_columns :: "gpu_rental_update \<Rightarrow> int \<Rightarrow> gpu_rental \<Rightarrow> gpu_rental" where
  "update_columns u now r =
     r\<lparr>state_sequence := state_sequence r +
         (if (case up_desired_state u of None \<Rightarrow> False | Some d \<Rightarrow> desired_state r \<noteq> d)
           \<or> (case up_observed_state u of None \<Rightarrow> False | Some s \<Rightarrow> observed_state r \<noteq> s)
          then 1 else 0),
       desired_state := coalesce_to (up_desired_state u) (desired_state r),
       observed_state := coalesce_to (up_observed_state u) (observed_state r),
       provider_resource_id := coalesce (up_provider_resource_id u) (provider_resource_id r),
       provision_step := coalesce (up_provision_step u) (provision_step r),
       endpoint_base_url := coalesce (up_endpoint_base_url u) (endpoint_base_url r),
       endpoint_provider_id := coalesce (up_endpoint_provider_id u) (endpoint_provider_id r),
       last_error_code := (if up_clear_last_error u then None
                           else coalesce (up_last_error_code u) (last_error_code r)),
       last_error_message := (if up_clear_last_error u then None
                              else coalesce (up_last_error_message u) (last_error_message r)),
       diagnostic_ref := (if up_clear_last_error u then None
                          else coalesce (up_diagnostic_ref u) (diagnostic_ref r)),
       last_reconciled_at_ms := Some now,
       next_retry_at_ms := coalesce_to (up_next_retry_at_ms u) (next_retry_at_ms r),
       retry_count := retry_count r + (if up_increment_retry_count u then 1 else 0),
       estimated_accrued_microusd :=
         coalesce_to (up_estimated_accrued_microusd u) (estimated_accrued_microusd r),
       provider_reported_cost_microusd :=
         coalesce (up_provider_reported_cost_microusd u) (provider_reported_cost_microusd r),
       controller_lease_owner := None,
       controller_lease_until_ms := 0,
       updated_at_ms := now,
       terminated_confirmed_at_ms :=
         (if up_observed_state u = Some TerminatedConfirmed
          then Some (coalesce_to (terminated_confirmed_at_ms r) now)
          else terminated_confirmed_at_ms r)\<rparr>"

definition holds_lease :: "gpu_rental_lease \<Rightarrow> gpu_rental \<Rightarrow> bool" where
  "holds_lease l r \<longleftrightarrow>
     rental_id r = rental_id (rental l) \<and> controller_lease_owner r = Some (lease_owner l)"

definition update_gpu_rental ::
    "gpu_rental_lease \<Rightarrow> gpu_rental_update \<Rightarrow> int \<Rightarrow> gpu_db \<Rightarrow> bool \<times> gpu_db" where
  "update_gpu_rental l u now db =
    (let updated = (count_rows (holds_lease l) (db_rentals db) = 1);
         db1 = db\<lparr>db_rentals := update_rows (holds_lease l) (update_columns u now) (db_rentals db)\<rparr>
     in (updated,
         if updated \<and> up_observed_state u = Some TerminatedConfirmed
         then db1\<lparr>db_runtime_providers :=
                filter (\<lambda>p. rp_rental_id p \<noteq> rental_id (rental l)) (db_runtime_providers db1)\<rparr>
         else db1))"

definition release_gpu_rental_lease :: "gpu_rental_lease \<Rightarrow> int \<Rightarrow> int \<Rightarrow> gpu_db \<Rightarrow> bool \<times> gpu_db" where
  "release_gpu_rental_lease l next_retry now db =
    (count_rows (holds_lease l) (db_rentals db) = 1,
     db\<lparr>db_rentals := update_rows (holds_lease l)
          (\<lambda>r. r\<lparr>controller_lease_owner := None, controller_lease_until_ms := 0,
                next_retry_at_ms := next_retry, updated_at_ms := now\<rparr>) (db_rentals db)\<rparr>)"

section \<open>Operations and notifications\<close>

definition rental_exists :: "gpu_db \<Rightarrow> string \<Rightarrow> bool" where
  "rental_exists db i \<longleftrightarrow> list_ex (\<lambda>r. rental_id r = i) (db_rentals db)"

definition same_operation :: "string \<Rightarrow> gpu_operation_kind \<Rightarrow> int \<Rightarrow> gpu_rental_operation \<Rightarrow> bool" where
  "same_operation i k n op \<longleftrightarrow> op_rental_id op = i \<and> op_kind op = k \<and> op_sequence op = n"

definition begin_gpu_rental_operation ::
    "string \<Rightarrow> string \<Rightarrow> gpu_operation_kind \<Rightarrow> int \<Rightarrow> int \<Rightarrow> gpu_db \<Rightarrow> string + (bool \<times> gpu_db)" where
  "begin_gpu_rental_operation oid i k n now db =
    (if list_ex (same_operation i k n) (db_operations db) then Inr (False, db)
     else if list_ex (\<lambda>op. op_operation_id op = oid) (db_operations db)
     then Inl ''UNIQUE constraint failed''
     else if \<not> rental_exists db i then Inl ''FOREIGN KEY constraint failed''
     else Inr (True, db\<lparr>db_operations := db_operations db @
       [\<lparr>op_operation_id = oid, op_rental_id = i, op_kind = k, op_sequence = n,
         op_status = ''started'', op_provider_request_id = None, op_provider_resource_id = None,
         op_sanitized_error = None, op_started_at_ms = now, op_completed_at_ms = None\<rparr>]\<rparr>))"

definition finish_gpu_rental_operation ::
    "string \<Rightarrow> string \<Rightarrow> string option \<Rightarrow> string option \<Rightarrow> string option \<Rightarrow> int \<Rightarrow> gpu_db
       \<Rightarrow> string + (bool \<times> gpu_db)" where
  "finish_gpu_rental_operation oid status request_id resource_id err now db =
    (if status \<notin> {''succeeded'', ''failed'', ''ambiguous''}
     then Inl (''invalid GPU operation status: '' @ status)
     else
       (let p = (\<lambda>op. op_operation_id op = oid \<and> op_status op = ''started'');
            f = (\<lambda>op. op\<lparr>op_status := status, op_provider_request_id := request_id,
                        op_provider_resource_id := resource_id, op_sanitized_error := err,
                        op_completed_at_ms := Some now\<rparr>)
        in Inr (count_rows p (db_operations db) = 1,
                db\<lparr>db_operations := update_rows p f (db_operations db)\<rparr>)))"

definition record_gpu_notification_once ::
    "string \<Rightarrow> int \<Rightarrow> string \<Rightarrow> int \<Rightarrow> gpu_db \<Rightarrow> string + (bool \<times> gpu_db)" where
  "record_gpu_notification_once i n kind now db =
    (if list_ex (\<lambda>t. nt_rental_id t = i \<and> nt_state_sequence t = n \<and> nt_kind t = kind) (db_notifications db)
     then Inr (False, db)
     else if \<not> rental_exists db i then Inl ''FOREIGN KEY constraint failed''
     else Inr (True, db\<lparr>db_notifications := db_notifications db @
       [\<lparr>nt_rental_id = i, nt_state_sequence = n, nt_kind = kind, nt_delivered_at_ms = now\<rparr>]\<rparr>))"

section \<open>Provision steps\<close>

definition validate_identifier :: "string \<Rightarrow> string \<Rightarrow> string + unit" where
  "validate_identifier name v =
    (if v = [] \<or> length v > 128
        \<or> \<not> list_all (\<lambda>c. is_ascii_alphanumeric c \<or> c = CHR ''-'' \<or> c = CHR ''_'' \<or> c = CHR '':'') v
     then Inl (''invalid '' @ name) else Inr ())"

definition same_step :: "string \<Rightarrow> string \<Rightarrow> gpu_provision_step \<Rightarrow> bool" where
  "same_step i s st \<longleftrightarrow> st_rental_id st = i \<and> st_step_id st = s"

definition begin_gpu_provision_step ::
    "string \<Rightarrow> string \<Rightarrow> string \<Rightarrow> int \<Rightarrow> gpu_db \<Rightarrow> string + (bool \<times> gpu_db)" where
  "begin_gpu_provision_step i s digest now db =
     and_then (validate_identifier ''step_id'' s) (\<lambda>_.
     and_then (validate_identifier ''command_digest'' digest) (\<lambda>_.
       if list_ex (same_step i s) (db_provision_steps db)
       then (let p = (\<lambda>st. same_step i s st \<and> st_command_digest st = digest
                          \<and> st_status st \<in> {''pending'', ''failed'', ''running''});
                 f = (\<lambda>st. st\<lparr>st_status := ''running'', st_attempt_count := st_attempt_count st + 1,
                             st_sanitized_error := None, st_started_at_ms := Some now,
                             st_completed_at_ms := None, st_updated_at_ms := now\<rparr>)
             in Inr (count_rows p (db_provision_steps db) = 1,
                     db\<lparr>db_provision_steps := update_rows p f (db_provision_steps db)\<rparr>))
       else if \<not> rental_exists db i then Inl ''FOREIGN KEY constraint failed''
       else Inr (True, db\<lparr>db_provision_steps := db_provision_steps db @
         [\<lparr>st_rental_id = i, st_step_id = s, st_command_digest = digest, st_status = ''running'',
           st_attempt_count = 1, st_postcondition_json = None, st_sanitized_error = None,
           st_started_at_ms = Some now, st_completed_at_ms = None, st_updated_at_ms = now\<rparr>]\<rparr>)))"

definition finish_gpu_provision_step ::
    "(string \<Rightarrow> json_value option) \<Rightarrow> string \<Rightarrow> string \<Rightarrow> bool \<Rightarrow> string option \<Rightarrow> string option \<Rightarrow> int
       \<Rightarrow> gpu_db \<Rightarrow> string + (bool \<times> gpu_db)" where
  "finish_gpu_provision_step from_str i s succeeded postcondition err now db =
     and_then
       (case postcondition of
          None \<Rightarrow> Inr ()
        | Some v \<Rightarrow>
            (case from_str v of
               None \<Rightarrow> Inl ''provision postcondition is not JSON''
             | Some parsed \<Rightarrow>
                 if is_object parsed then Inr () else Inl ''provision postcondition must be a JSON object''))
       (\<lambda>_.
         let p = (\<lambda>st. same_step i s st \<and> st_status st = ''running'');
             f = (\<lambda>st. st\<lparr>st_status := (if succeeded then ''succeeded'' else ''failed''),
                         st_postcondition_json := postcondition, st_sanitized_error := err,
                         st_completed_at_ms := Some now, st_updated_at_ms := now\<rparr>)
         in Inr (count_rows p (db_provision_steps db) = 1,
                 db\<lparr>db_provision_steps := update_rows p f (db_provision_steps db)\<rparr>))"

definition list_gpu_provision_steps :: "string \<Rightarrow> gpu_db \<Rightarrow> gpu_provision_step list" where
  "list_gpu_provision_steps i db =
     sort_key (\<lambda>st. map byte (st_step_id st)) (filter (\<lambda>st. st_rental_id st = i) (db_provision_steps db))"

section \<open>Runtime providers\<close>

text \<open>\<^verbatim>\<open>Url::parse\<close> belongs to the \<^verbatim>\<open>url\<close> crate: it is a parameter that gives the scheme and
  the host, or nothing for text that is no URL.\<close>

definition validate_runtime_provider ::
    "(string \<Rightarrow> (string \<times> string option) option) \<Rightarrow> gpu_runtime_provider_upsert \<Rightarrow> string + unit" where
  "validate_runtime_provider parse_url p =
     and_then (validate_identifier ''provider_id'' (rp_provider_id p)) (\<lambda>_.
       if \<not> starts_with (rp_provider_id p) ''gpu-''
       then Inl ''runtime GPU provider id must use the gpu- namespace''
       else if rp_rental_id p = [] \<or> rp_model_id p = []
       then Inl ''runtime provider identity must not be empty''
       else if rp_wire_api p \<notin> {''chat'', ''responses''} \<or> rp_health p \<notin> {''ready'', ''degraded''}
       then Inl ''invalid runtime provider protocol or health''
       else (case parse_url (rp_base_url p) of
          None \<Rightarrow> Inl ''invalid URL''
        | Some (scheme, host) \<Rightarrow>
            if scheme \<noteq> ''https''
               \<and> \<not> (case host of None \<Rightarrow> False
                     | Some h \<Rightarrow> h \<in> {''127.0.0.1'', ''::1'', ''localhost''})
            then Inl ''runtime provider endpoint must use HTTPS or loopback''
            else if rp_display_hourly_microusd p \<le> 0 \<or> rp_maximum_context_tokens p \<le> 0
                    \<or> rp_catalog_sequence p \<le> 0
            then Inl ''invalid runtime provider price, context limit, or sequence''
            else Inr ()))"

definition serving :: "gpu_rental \<Rightarrow> bool" where
  "serving r \<longleftrightarrow> observed_state r = Ready \<or> observed_state r = Degraded"

definition rental_serving :: "gpu_db \<Rightarrow> string \<Rightarrow> bool" where
  "rental_serving db i \<longleftrightarrow> list_ex (\<lambda>r. rental_id r = i \<and> serving r) (db_rentals db)"

text \<open>The \<^verbatim>\<open>INSERT ... SELECT ... ON CONFLICT(rental_id) DO UPDATE\<close> that the two publishing
  operations share: they differ in the guard of the update and in the catalogue sequence
  it writes.\<close>

definition publish ::
    "(gpu_runtime_provider \<Rightarrow> bool) \<Rightarrow> (gpu_runtime_provider \<Rightarrow> int) \<Rightarrow> gpu_runtime_provider_upsert \<Rightarrow> int
       \<Rightarrow> gpu_db \<Rightarrow> string + (bool \<times> gpu_db)" where
  "publish guard seq p now db =
    (if \<not> rental_serving db (rp_rental_id p) then Inr (False, db)
     else if list_ex (\<lambda>q. rp_rental_id q = rp_rental_id p) (db_runtime_providers db)
     then
       (let w = (\<lambda>q. rp_rental_id q = rp_rental_id p \<and> guard q);
            f = (\<lambda>q. q\<lparr>rp_provider_id := rp_provider_id p, rp_base_url := rp_base_url p,
                       rp_model_id := rp_model_id p, rp_wire_api := rp_wire_api p,
                       rp_health := rp_health p,
                       rp_display_hourly_microusd := rp_display_hourly_microusd p,
                       rp_maximum_context_tokens := rp_maximum_context_tokens p,
                       rp_catalog_sequence := seq q, rp_updated_at_ms := now\<rparr>)
        in if list_ex w (db_runtime_providers db)
              \<and> list_ex (\<lambda>q. rp_rental_id q \<noteq> rp_rental_id p \<and> rp_provider_id q = rp_provider_id p)
                  (db_runtime_providers db)
           then Inl ''UNIQUE constraint failed''
           else Inr (count_rows w (db_runtime_providers db) = 1,
                     db\<lparr>db_runtime_providers := update_rows w f (db_runtime_providers db)\<rparr>))
     else if list_ex (\<lambda>q. rp_provider_id q = rp_provider_id p) (db_runtime_providers db)
     then Inl ''UNIQUE constraint failed''
     else Inr (True, db\<lparr>db_runtime_providers := db_runtime_providers db @
            [\<lparr>rp_rental_id = rp_rental_id p, rp_provider_id = rp_provider_id p,
              rp_base_url = rp_base_url p, rp_model_id = rp_model_id p, rp_wire_api = rp_wire_api p,
              rp_health = rp_health p, rp_display_hourly_microusd = rp_display_hourly_microusd p,
              rp_maximum_context_tokens = rp_maximum_context_tokens p,
              rp_catalog_sequence = rp_catalog_sequence p, rp_updated_at_ms = now\<rparr>]\<rparr>))"

definition upsert_gpu_runtime_provider ::
    "(string \<Rightarrow> (string \<times> string option) option) \<Rightarrow> gpu_runtime_provider_upsert \<Rightarrow> int \<Rightarrow> gpu_db
       \<Rightarrow> string + (bool \<times> gpu_db)" where
  "upsert_gpu_runtime_provider parse_url p now db =
     and_then (validate_runtime_provider parse_url p) (\<lambda>_.
       publish (\<lambda>q. rp_catalog_sequence p \<ge> rp_catalog_sequence q) (\<lambda>q. rp_catalog_sequence p) p now db)"

definition refresh_gpu_runtime_provider ::
    "(string \<Rightarrow> (string \<times> string option) option) \<Rightarrow> gpu_runtime_provider_upsert \<Rightarrow> int \<Rightarrow> gpu_db
       \<Rightarrow> string + (bool \<times> gpu_db)" where
  "refresh_gpu_runtime_provider parse_url p now db =
     and_then (validate_runtime_provider parse_url p) (\<lambda>_.
       publish (\<lambda>q. True) (\<lambda>q. rp_catalog_sequence q + 1) p now db)"

text \<open>The list joins the rental's infrastructure provider to each row.\<close>

definition list_gpu_runtime_providers :: "gpu_db \<Rightarrow> (string \<times> gpu_runtime_provider) list" where
  "list_gpu_runtime_providers db =
     sort_key (\<lambda>(infra, q). - rp_updated_at_ms q)
       (concat (map (\<lambda>q. map (\<lambda>r. (provider r, q))
          (filter (\<lambda>r. rental_id r = rp_rental_id q \<and> serving r) (db_rentals db)))
        (db_runtime_providers db)))"

definition rental_terminated :: "gpu_db \<Rightarrow> string \<Rightarrow> bool" where
  "rental_terminated db i \<longleftrightarrow>
     list_ex (\<lambda>r. rental_id r = i \<and> observed_state r = TerminatedConfirmed) (db_rentals db)"

definition remove_gpu_runtime_provider :: "string \<Rightarrow> gpu_db \<Rightarrow> bool \<times> gpu_db" where
  "remove_gpu_runtime_provider i db =
    (let p = (\<lambda>q. rp_rental_id q = i \<and> rental_terminated db i)
     in (count_rows p (db_runtime_providers db) = 1,
         db\<lparr>db_runtime_providers := filter (\<lambda>q. \<not> p q) (db_runtime_providers db)\<rparr>))"

definition prune_terminal_gpu_runtime_providers :: "gpu_db \<Rightarrow> nat \<times> gpu_db" where
  "prune_terminal_gpu_runtime_providers db =
    (let p = (\<lambda>q. rental_terminated db (rp_rental_id q))
     in (count_rows p (db_runtime_providers db),
         db\<lparr>db_runtime_providers := filter (\<lambda>q. \<not> p q) (db_runtime_providers db)\<rparr>))"

definition set_gpu_runtime_provider_health ::
    "string \<Rightarrow> string \<Rightarrow> int \<Rightarrow> gpu_db \<Rightarrow> string + (bool \<times> gpu_db)" where
  "set_gpu_runtime_provider_health i health now db =
    (if health \<notin> {''ready'', ''degraded''} then Inl ''invalid runtime provider health''
     else
       (let p = (\<lambda>q. rp_rental_id q = i);
            f = (\<lambda>q. q\<lparr>rp_health := health, rp_catalog_sequence := rp_catalog_sequence q + 1,
                       rp_updated_at_ms := now\<rparr>)
        in Inr (count_rows p (db_runtime_providers db) = 1,
                db\<lparr>db_runtime_providers := update_rows p f (db_runtime_providers db)\<rparr>)))"

definition set_gpu_runtime_provider_health_and_price ::
    "string \<Rightarrow> string \<Rightarrow> int \<Rightarrow> int \<Rightarrow> int \<Rightarrow> gpu_db \<Rightarrow> string + (bool \<times> gpu_db)" where
  "set_gpu_runtime_provider_health_and_price i health price context_tokens now db =
    (if health \<notin> {''ready'', ''degraded''} then Inl ''invalid runtime provider health''
     else if price \<le> 0 then Inl ''invalid runtime provider price''
     else if context_tokens \<le> 0 then Inl ''invalid runtime provider context limit''
     else
       (let p = (\<lambda>q. rp_rental_id q = i);
            f = (\<lambda>q. q\<lparr>rp_health := health, rp_display_hourly_microusd := price,
                       rp_maximum_context_tokens := context_tokens,
                       rp_catalog_sequence := rp_catalog_sequence q + 1, rp_updated_at_ms := now\<rparr>)
        in Inr (count_rows p (db_runtime_providers db) = 1,
                db\<lparr>db_runtime_providers := update_rows p f (db_runtime_providers db)\<rparr>)))"

end
