(* ===== verification/Gpu_Controller.thy ===== *)
theory Gpu_Controller
  imports Actions Gpu_Recipe Gpu_Ledger
begin

text \<open>The controller that reconciles rentals with their provider
  (\<^verbatim>\<open>codex-rs/gpu-market/src/controller.rs\<close>, \<^verbatim>\<open>controller_create.rs\<close> and
  \<^verbatim>\<open>controller_termination.rs\<close>).  Every handler is an action on the ledger and on the outside
  world: the provider, the credential store, the readiness probe and the generator of identifiers
  are functions of a state of type \<^typ>\<open>'w\<close>, so that every answer may depend on all that happened
  before.  The state also keeps a log of the calls made to the provider; the program never reads it
  and the properties speak about it.  A panic is a failing action.\<close>

unbundle bit_operations_syntax

section \<open>The state of a reconciliation\<close>

datatype provider_call =
    CreateCall string int create_instance_request
  | TerminateCall string int string
  | GetCall string "gpu_instance option provider_result"
  | ListCall owned_instance_query "gpu_instance list provider_result"

record 'w ctl =
  ctl_db :: gpu_db
  ctl_world :: 'w
  ctl_log :: "provider_call list"

text \<open>Ledger operations that cannot fail, ledger operations that may, and calls to the outside.\<close>

definition on_db :: "(gpu_db \<Rightarrow> 'a \<times> gpu_db) \<Rightarrow> ('w ctl, 'e, 'a) fallible" where
  "on_db f = (\<lambda>s. let (x, db) = f (ctl_db s) in (Inr x, s\<lparr>ctl_db := db\<rparr>))"

definition try_db :: "(gpu_db \<Rightarrow> 'e + ('a \<times> gpu_db)) \<Rightarrow> ('w ctl, 'e, 'a) fallible" where
  "try_db f = (\<lambda>s. case f (ctl_db s) of Inl e \<Rightarrow> (Inl e, s) | Inr (x, db) \<Rightarrow> (Inr x, s\<lparr>ctl_db := db\<rparr>))"

definition outside :: "('w, 'a) remote \<Rightarrow> ('w ctl, 'e, 'a) fallible" where
  "outside f = (\<lambda>s. let (x, w) = f (ctl_world s) in (Inr x, s\<lparr>ctl_world := w\<rparr>))"

definition logged :: "('a \<Rightarrow> provider_call) \<Rightarrow> ('w, 'a) remote \<Rightarrow> ('w ctl, 'a) action" where
  "logged entry f =
    (\<lambda>s. let (x, w) = f (ctl_world s) in (Inr x, s\<lparr>ctl_world := w, ctl_log := ctl_log s @ [entry x]\<rparr>))"

lemma ctl_run [run_simps]:
  "on_db g s = (Inr (fst (g (ctl_db s))), s\<lparr>ctl_db := snd (g (ctl_db s))\<rparr>)"
  "outside f s = (Inr (fst (f (ctl_world s))), s\<lparr>ctl_world := snd (f (ctl_world s))\<rparr>)"
  "logged entry f s = (Inr (fst (f (ctl_world s))),
     s\<lparr>ctl_world := snd (f (ctl_world s)), ctl_log := ctl_log s @ [entry (fst (f (ctl_world s)))]\<rparr>)"
  by (simp_all add: on_db_def outside_def logged_def case_prod_beta)

lemma try_db_run [run_simps]:
  "try_db h s = (case h (ctl_db s) of Inl e \<Rightarrow> (Inl e, s) | Inr p \<Rightarrow> (Inr (fst p), s\<lparr>ctl_db := snd p\<rparr>))"
  by (simp add: try_db_def split: sum.split prod.split)

section \<open>Configuration\<close>

record reconcile_config =
  controller_id :: string
  lease_ttl_ms :: int
  normal_poll_ms :: int
  maximum_retry_ms :: int
  health_poll_ms :: int
  batch_size :: nat

definition default_config :: "string \<Rightarrow> reconcile_config" where
  "default_config uuid = \<lparr> controller_id = ''gpu-controller-'' @ uuid, lease_ttl_ms = 30000,
     normal_poll_ms = 5000, maximum_retry_ms = 5 * 60000, health_poll_ms = 60000, batch_size = 8 \<rparr>"

datatype controller_event =
    StateChanged string gpu_rental_state
  | NeedsProvisioning string string
  | Warning string string string

record endpoint_readiness_report =
  rejects_missing_token :: bool
  rejects_wrong_token :: bool
  model_identity_ok :: bool
  chat_ok :: bool
  streaming_ok :: bool
  cancellation_ok :: bool
  tool_call_ok :: bool

definition report_ready :: "endpoint_readiness_report \<Rightarrow> bool" where
  "report_ready r \<longleftrightarrow> rejects_missing_token r \<and> rejects_wrong_token r \<and> model_identity_ok r
     \<and> chat_ok r \<and> streaming_ok r \<and> cancellation_ok r \<and> tool_call_ok r"

text \<open>The trait \<^verbatim>\<open>GpuReadinessProbe\<close>: endpoint, model and token to a report or an error.\<close>

record 'w readiness_probe =
  probe :: "string \<Rightarrow> string \<Rightarrow> string \<Rightarrow> ('w, string + endpoint_readiness_report) remote"
  probe_health :: "string \<Rightarrow> string \<Rightarrow> string \<Rightarrow> ('w, string + bool) remote"

text \<open>What is used of the \<^verbatim>\<open>serde_json\<close> and \<^verbatim>\<open>url\<close> crates.\<close>

record codec =
  json_from_str :: "string \<Rightarrow> json_value option"
  json_to_string :: "json_value \<Rightarrow> string"
  offer_from_str :: "string \<Rightarrow> gpu_offer option"
  offer_to_string :: "gpu_offer \<Rightarrow> string option"
  url_parse :: "string \<Rightarrow> (string \<times> string option) option"

record 'w controller =
  c_provider :: "'w gpu_provider"
  c_recipes :: recipe_catalog
  c_installation_id :: string
  c_config :: reconcile_config
  c_credentials :: "'w credential_resolver option"
  c_readiness :: "'w readiness_probe option"
  c_new_uuid :: "('w, string) remote"
  c_codec :: codec

section \<open>Small functions\<close>

definition fnv_step :: "64 word \<Rightarrow> nat \<Rightarrow> 64 word" where
  "fnv_step hash b = (hash XOR of_nat b) * 0x100000001b3"

definition fnv1a64 :: "nat list \<Rightarrow> 64 word" where
  "fnv1a64 bytes = foldl fnv_step 0xcbf29ce484222325 bytes"

definition to_le_bytes :: "int \<Rightarrow> nat list" where
  "to_le_bytes n = map (\<lambda>i. nat ((n div 256 ^ i) mod 256)) [0..<8]"

definition hex_digit :: "nat \<Rightarrow> char" where
  "hex_digit d = ''0123456789abcdef'' ! d"

definition hex16 :: "64 word \<Rightarrow> string" where
  "hex16 w = map (\<lambda>i. hex_digit (unat (drop_bit (4 * (15 - i)) w) mod 16)) [0..<16]"

definition manifest_step_digest :: "string \<Rightarrow> string" where
  "manifest_step_digest v = ''fnv1a64:'' @ hex16 (fnv1a64 (map byte v))"

text \<open>The delay before the next attempt; \<^term>\<open>None\<close> is the panic of \<^verbatim>\<open>i64::clamp\<close> when the
  configured maximum lies below the lower bound.  The exponent is at most six, and the product is
  not negative, so that the integer division rounds as it does in Rust.\<close>

definition retry_delay_ms :: "reconcile_config \<Rightarrow> gpu_rental \<Rightarrow> int option \<Rightarrow> int option" where
  "retry_delay_ms cfg r retry_after =
    (case retry_after of
       Some t \<Rightarrow> if 0 \<le> maximum_retry_ms cfg then Some (clamp 0 (maximum_retry_ms cfg) t) else None
     | None \<Rightarrow>
       (let exponent = nat (clamp 0 6 (retry_count r));
            base_ms = saturating_mul 1000 (sat_i64 (2 ^ exponent));
            hash = fnv1a64 (map byte (rental_id r) @ to_le_bytes (retry_count r));
            jitter_per_mille = 750 + uint hash mod 501
        in if 1 \<le> maximum_retry_ms cfg
           then Some (clamp 1 (maximum_retry_ms cfg) (saturating_mul base_ms jitter_per_mille div 1000))
           else None))"

definition i64_try_from :: "nat \<Rightarrow> int option" where
  "i64_try_from n = (if int n \<le> i64_max then Some (int n) else None)"

definition i64_or_max :: "nat \<Rightarrow> int" where
  "i64_or_max n = (case i64_try_from n of Some i \<Rightarrow> i | None \<Rightarrow> i64_max)"

definition quoted_hourly_microusd :: "codec \<Rightarrow> gpu_rental \<Rightarrow> int" where
  "quoted_hourly_microusd k r =
    (case offer_from_str k (offer_snapshot_json r) of
       None \<Rightarrow> max_hourly_microusd r
     | Some off \<Rightarrow>
         if of_hourly_microusd off > 0 \<and> of_hourly_microusd off \<le> max_hourly_microusd r
         then of_hourly_microusd off else max_hourly_microusd r)"

fun provision_phase_state :: "gpu_provision_phase \<Rightarrow> gpu_rental_state" where
  "provision_phase_state HardwareCheck = Bootstrapping"
| "provision_phase_state RuntimeSetup = Bootstrapping"
| "provision_phase_state RuntimeBuild = Bootstrapping"
| "provision_phase_state ModelDownload = Downloading"
| "provision_phase_state ModelVerification = Downloading"
| "provision_phase_state ModelLoading = Starting"
| "provision_phase_state EndpointProbing = Probing"

definition rental_requires_endpoint_token :: "gpu_rental \<Rightarrow> bool" where
  "rental_requires_endpoint_token r \<longleftrightarrow>
     desired_state r \<noteq> TerminateRequested
   \<and> ((desired_state r = CreatePending \<and> observed_state r = Quoted)
      \<or> observed_state r \<in> {Allocating, Reconciling, Bootstrapping, Downloading, Starting, Probing, Ready, Degraded})"

fun credential_error_message :: "gpu_credential_error \<Rightarrow> string" where
  "credential_error_message CredMissing = ''GPU credential is not configured''"
| "credential_error_message CredEmpty = ''GPU credential is empty''"
| "credential_error_message (UnsupportedProvider p) = ''GPU provider '' @ [CHR 34] @ p @ [CHR 34] @ '' is unsupported''"
| "credential_error_message InvalidRentalId = ''rental id is invalid''"
| "credential_error_message StoreUnavailable = ''GPU credential store is unavailable''"

definition or_credential_error :: "gpu_credential_error + 'a \<Rightarrow> ('s, 'a) action" where
  "or_credential_error r = returning (map_err credential_error_message r)"

section \<open>Shared steps\<close>

definition release_later :: "'w controller \<Rightarrow> gpu_rental_lease \<Rightarrow> int \<Rightarrow> ('w ctl, unit) action" where
  "release_later c l now =
     bind (on_db (release_gpu_rental_lease l (saturating_add now (normal_poll_ms (c_config c))) now))
       (\<lambda>_. ret ())"

text \<open>The costs that were refreshed into the lease go into whichever update ends it.\<close>

definition with_costs :: "gpu_rental \<Rightarrow> gpu_rental_update \<Rightarrow> gpu_rental_update" where
  "with_costs r u =
    (if may_be_billable r
     then u\<lparr>up_estimated_accrued_microusd :=
              Some (coalesce_to (up_estimated_accrued_microusd u) (estimated_accrued_microusd r)),
            up_provider_reported_cost_microusd :=
              coalesce (up_provider_reported_cost_microusd u) (provider_reported_cost_microusd r)\<rparr>
     else u)"

definition apply_update ::
    "'w controller \<Rightarrow> gpu_rental_lease \<Rightarrow> gpu_rental_update \<Rightarrow> int \<Rightarrow> ('w ctl, unit) action" where
  "apply_update c l u now =
     bind (on_db (update_gpu_rental l (with_costs (rental l) u) now))
       (\<lambda>updated. if updated then ret () else fail ''GPU rental lease was lost before its state update'')"

definition find_owned ::
    "'w controller \<Rightarrow> gpu_rental \<Rightarrow> ('w ctl, gpu_instance option provider_result) action" where
  "find_owned c r =
    (let q = \<lparr>oq_installation_id = c_installation_id c, oq_ownership_tag = Some (ownership_tag r)\<rparr>
     in bind (logged (ListCall q) (list_owned_instances (c_provider c) q))
       (\<lambda>res. ret (case res of
            Inl e \<Rightarrow> Inl e
          | Inr [] \<Rightarrow> Inr None
          | Inr [inst] \<Rightarrow> Inr (Some inst)
          | Inr _ \<Rightarrow> Inl (provider_error_new Permanent
               ''Multiple provider resources have the same Corbanu Terminal ownership tag.''))))"

definition get_instance_of ::
    "'w controller \<Rightarrow> string \<Rightarrow> ('w ctl, gpu_instance option provider_result) action" where
  "get_instance_of c resource = logged (GetCall resource) (get_instance (c_provider c) resource)"

definition record_retry ::
    "'w controller \<Rightarrow> gpu_rental_lease \<Rightarrow> provider_error \<Rightarrow> int \<Rightarrow> ('w ctl, controller_event list) action" where
  "record_retry c l e now =
    (case retry_delay_ms (c_config c) (rental l) (pe_retry_after_ms e) of
       None \<Rightarrow> fail ''panic: clamp''
     | Some retry_ms \<Rightarrow>
       bind (apply_update c l (no_update\<lparr>
           up_observed_state :=
             (if pe_kind e = Ambiguous then Some Reconciling
              else if observed_state (rental l) = Terminating then Some TerminationUnconfirmed
              else None),
           up_last_error_code := Some (error_kind_code (pe_kind e)),
           up_last_error_message := Some (pe_safe_message e),
           up_diagnostic_ref := pe_diagnostic_ref e,
           up_next_retry_at_ms := Some (saturating_add now (min retry_ms (maximum_retry_ms (c_config c)))),
           up_increment_retry_count := True\<rparr>) now)
         (\<lambda>_. ret []))"

definition record_terminal_failure ::
    "'w controller \<Rightarrow> gpu_rental_lease \<Rightarrow> string \<Rightarrow> string \<Rightarrow> int \<Rightarrow> ('w ctl, controller_event list) action" where
  "record_terminal_failure c l code message now =
    (let billing_risk = may_be_billable (rental l)
     in bind (apply_update c l (no_update\<lparr>
            up_desired_state := Some (if billing_risk then TerminateRequested else Failed),
            up_observed_state := Some (if billing_risk then TerminationUnconfirmed else Failed),
            up_last_error_code := Some code,
            up_last_error_message := Some message,
            up_next_retry_at_ms := Some (if billing_risk then now else i64_max)\<rparr>) now)
          (\<lambda>_. ret (if billing_risk
             then [Warning (rental_id (rental l)) code
                     (message @ '' Cleanup is required before billing can be considered stopped.'')]
             else [StateChanged (rental_id (rental l)) Failed])))"

section \<open>Termination\<close>

definition confirm_terminated ::
    "'w controller \<Rightarrow> gpu_rental_lease \<Rightarrow> int \<Rightarrow> ('w ctl, controller_event list) action" where
  "confirm_terminated c l now =
     bind (case c_credentials c of
             None \<Rightarrow> ret False
           | Some creds \<Rightarrow>
               bind (outside (delete_rental_endpoint_token creds (rental_id (rental l)))) or_credential_error)
       (\<lambda>_. bind (apply_update c l (no_update\<lparr>
              up_desired_state := Some TerminatedConfirmed,
              up_observed_state := Some TerminatedConfirmed,
              up_next_retry_at_ms := Some i64_max\<rparr>) now)
         (\<lambda>_. ret [StateChanged (rental_id (rental l)) TerminatedConfirmed]))"

definition record_termination_retry ::
    "'w controller \<Rightarrow> gpu_rental_lease \<Rightarrow> provider_error \<Rightarrow> int \<Rightarrow> ('w ctl, controller_event list) action" where
  "record_termination_retry c l e now =
    (case retry_delay_ms (c_config c) (rental l) (pe_retry_after_ms e) of
       None \<Rightarrow> fail ''panic: clamp''
     | Some retry_ms \<Rightarrow>
       bind (apply_update c l (no_update\<lparr>
           up_observed_state := Some TerminationUnconfirmed,
           up_last_error_code := Some (error_kind_code (pe_kind e)),
           up_last_error_message := Some (pe_safe_message e),
           up_diagnostic_ref := pe_diagnostic_ref e,
           up_next_retry_at_ms := Some (saturating_add now (min retry_ms (maximum_retry_ms (c_config c)))),
           up_increment_retry_count := True\<rparr>) now)
         (\<lambda>_. ret []))"

text \<open>The part of \<^verbatim>\<open>send_termination\<close> that handles the provider's answer.\<close>

definition record_termination ::
    "'w controller \<Rightarrow> gpu_rental_lease \<Rightarrow> string \<Rightarrow> string \<Rightarrow> int \<Rightarrow> unit provider_result
       \<Rightarrow> ('w ctl, controller_event list) action" where
  "record_termination c l resource operation_id now res =
    (case res of
       Inr _ \<Rightarrow>
         bind (try_db (finish_gpu_rental_operation operation_id ''succeeded'' None (Some resource) None now)) (\<lambda>_.
         bind (apply_update c l (no_update\<lparr>
             up_observed_state := Some Terminating,
             up_provider_resource_id := Some resource,
             up_next_retry_at_ms := Some (saturating_add now (normal_poll_ms (c_config c)))\<rparr>) now) (\<lambda>_.
         ret []))
     | Inl e \<Rightarrow>
         bind (try_db (finish_gpu_rental_operation operation_id
             (if pe_kind e = Ambiguous then ''ambiguous'' else ''failed'')
             None (Some resource) (Some (pe_safe_message e)) now)) (\<lambda>_.
         record_termination_retry c l e now))"

definition send_termination ::
    "'w controller \<Rightarrow> gpu_rental_lease \<Rightarrow> string \<Rightarrow> int \<Rightarrow> ('w ctl, controller_event list) action" where
  "send_termination c l resource now =
     bind (outside (c_new_uuid c)) (\<lambda>uuid.
     let operation_id = ''gpu-terminate-'' @ uuid in
     bind (try_db (begin_gpu_rental_operation operation_id (rental_id (rental l)) OpTerminate
                     (state_sequence (rental l)) now)) (\<lambda>began.
     if \<not> began
     then record_termination_retry c l
            (provider_error_new Ambiguous ''A prior termination request is unresolved.'') now
     else
       bind (logged (\<lambda>_. TerminateCall (rental_id (rental l)) (state_sequence (rental l)) resource)
              (terminate_instance (c_provider c) resource))
         (record_termination c l resource operation_id now)))"

text \<open>The arms of \<^verbatim>\<open>reconcile_termination\<close> on the inventory, on the answer to the lookup, and
  the lookup itself.\<close>

definition terminate_by_inventory ::
    "'w controller \<Rightarrow> gpu_rental_lease \<Rightarrow> string \<Rightarrow> int \<Rightarrow> gpu_instance option provider_result
       \<Rightarrow> ('w ctl, controller_event list) action" where
  "terminate_by_inventory c l resource now owned =
    (case owned of
       Inr (Some _) \<Rightarrow>
         if observed_state (rental l) = Terminating
         then bind (release_later c l now) (\<lambda>_. ret [])
         else send_termination c l resource now
     | Inr None \<Rightarrow>
         if observed_state (rental l) = Terminating
         then confirm_terminated c l now
         else send_termination c l resource now
     | Inl inventory_error \<Rightarrow> record_termination_retry c l inventory_error now)"

definition terminate_by_lookup ::
    "'w controller \<Rightarrow> gpu_rental_lease \<Rightarrow> string \<Rightarrow> int \<Rightarrow> gpu_instance option provider_result
       \<Rightarrow> ('w ctl, controller_event list) action" where
  "terminate_by_lookup c l resource now found =
    (case found of
       Inr None \<Rightarrow> confirm_terminated c l now
     | Inr (Some _) \<Rightarrow>
         if observed_state (rental l) = Terminating
         then bind (apply_update c l (no_update\<lparr>
                  up_provider_resource_id := Some resource,
                  up_next_retry_at_ms := Some (saturating_add now (normal_poll_ms (c_config c)))\<rparr>) now)
                (\<lambda>_. ret [])
         else send_termination c l resource now
     | Inl e \<Rightarrow>
         if pe_kind e = Ambiguous
         then bind (find_owned c (rental l)) (terminate_by_inventory c l resource now)
         else record_termination_retry c l e now)"

definition terminate_known ::
    "'w controller \<Rightarrow> gpu_rental_lease \<Rightarrow> string \<Rightarrow> int \<Rightarrow> ('w ctl, controller_event list) action" where
  "terminate_known c l resource now =
    (if observed_state (rental l) = TerminateRequested then send_termination c l resource now
     else bind (get_instance_of c resource) (terminate_by_lookup c l resource now))"

definition reconcile_termination ::
    "'w controller \<Rightarrow> gpu_rental_lease \<Rightarrow> int \<Rightarrow> ('w ctl, controller_event list) action" where
  "reconcile_termination c l now =
    (case provider_resource_id (rental l) of
       Some resource \<Rightarrow> terminate_known c l resource now
     | None \<Rightarrow>
       bind (find_owned c (rental l)) (\<lambda>owned.
       case owned of
         Inl e \<Rightarrow> record_retry c l e now
       | Inr None \<Rightarrow> confirm_terminated c l now
       | Inr (Some inst) \<Rightarrow> terminate_known c l (in_resource_id inst) now))"

section \<open>Creation\<close>

definition adopt_instance ::
    "'w controller \<Rightarrow> gpu_rental_lease \<Rightarrow> gpu_instance \<Rightarrow> int \<Rightarrow> ('w ctl, controller_event list) action" where
  "adopt_instance c l inst now =
    (let state = (if in_state inst = InstRunning then Bootstrapping else Allocating)
     in bind (apply_update c l (no_update\<lparr>
            up_observed_state := Some state,
            up_provider_resource_id := Some (in_resource_id inst),
            up_next_retry_at_ms := Some (saturating_add now (normal_poll_ms (c_config c))),
            up_clear_last_error := True\<rparr>) now)
          (\<lambda>_. ret (StateChanged (rental_id (rental l)) state
             # (if state = Bootstrapping
                then [NeedsProvisioning (rental_id (rental l)) (in_resource_id inst)] else []))))"

definition create_error_code :: "provider_error_kind \<Rightarrow> string" where
  "create_error_code k =
    (case k of
       OfferUnavailable \<Rightarrow> ''offer-unavailable''
     | PriceDrift \<Rightarrow> ''price-drift''
     | Unauthorized \<Rightarrow> ''provider-unauthorized''
     | InsufficientFunds \<Rightarrow> ''insufficient-funds''
     | _ \<Rightarrow> ''create-rejected'')"

definition creation_request ::
    "gpu_rental \<Rightarrow> gpu_recipe \<Rightarrow> gpu_offer \<Rightarrow> string \<Rightarrow> string option \<Rightarrow> create_instance_request" where
  "creation_request r recipe off endpoint_token huggingface_token =
     \<lparr> cr_offer = off, cr_client_operation_id = client_operation_id r, cr_ownership_tag = ownership_tag r,
       cr_image = rc_image recipe, cr_disk_gib = hw_minimum_disk_gib (rc_hardware recipe),
       cr_launch_command = rc_launch_command recipe, cr_inference_port = rc_inference_port recipe,
       cr_endpoint_token = endpoint_token, cr_huggingface_token = huggingface_token \<rparr>"

text \<open>The parts of \<^verbatim>\<open>reconcile_create\<close> that handle the provider's answer, and from the durable start
  of the operation on.\<close>

definition record_creation ::
    "'w controller \<Rightarrow> gpu_rental_lease \<Rightarrow> string \<Rightarrow> int \<Rightarrow> gpu_instance provider_result
       \<Rightarrow> ('w ctl, controller_event list) action" where
  "record_creation c l operation_id now res =
    (case res of
       Inr inst \<Rightarrow>
         bind (try_db (finish_gpu_rental_operation operation_id ''succeeded'' None
                 (Some (in_resource_id inst)) None now)) (\<lambda>_.
         adopt_instance c l inst now)
     | Inl e \<Rightarrow>
         bind (try_db (finish_gpu_rental_operation operation_id
             (if pe_kind e = Ambiguous then ''ambiguous'' else ''failed'')
             None None (Some (pe_safe_message e)) now)) (\<lambda>_.
         if error_retryable e then record_retry c l e now
         else record_terminal_failure c l (create_error_code (pe_kind e)) (pe_safe_message e) now))"

definition send_creation ::
    "'w controller \<Rightarrow> gpu_rental_lease \<Rightarrow> create_instance_request \<Rightarrow> int \<Rightarrow> ('w ctl, controller_event list) action" where
  "send_creation c l request now =
     bind (outside (c_new_uuid c)) (\<lambda>uuid.
     let operation_id = ''gpu-create-'' @ uuid in
     bind (try_db (begin_gpu_rental_operation operation_id (rental_id (rental l)) OpCreate
                     (state_sequence (rental l)) now)) (\<lambda>began.
     if \<not> began
     then record_retry c l
            (provider_error_new Ambiguous ''A prior create is unresolved; reconciling provider inventory.'') now
     else
       bind (logged (\<lambda>_. CreateCall (rental_id (rental l)) (state_sequence (rental l)) request)
              (create_instance (c_provider c) request))
         (record_creation c l operation_id now)))"

definition recipe_request :: "gpu_recipe \<Rightarrow> int \<Rightarrow> search_offers_request" where
  "recipe_request recipe max_hourly =
     \<lparr> sr_hardware = rc_hardware recipe, sr_allow_interruptible = False,
       sr_require_verified_or_secure = True, sr_maximum_hourly_microusd = max_hourly \<rparr>"

definition create_with_credentials ::
    "'w controller \<Rightarrow> gpu_rental_lease \<Rightarrow> gpu_recipe \<Rightarrow> gpu_offer \<Rightarrow> 'w credential_resolver \<Rightarrow> int
       \<Rightarrow> ('w ctl, controller_event list) action" where
  "create_with_credentials c l recipe off creds now =
     bind (outside (ensure_rental_endpoint_token creds (rental_id (rental l)))) (\<lambda>token.
     case token of
       Inl e \<Rightarrow>
         if credential_retryable e
         then record_retry c l (provider_error_new Retryable
                ''The per-rental endpoint credential store is temporarily unavailable.'') now
         else record_terminal_failure c l ''endpoint-token-unavailable''
                ''The per-rental endpoint token is unavailable.'' now
     | Inr endpoint_token \<Rightarrow>
         if rc_requires_huggingface_token recipe
         then bind (outside (resolve creds HuggingFaceToken)) (\<lambda>hf.
              case hf of
                Inl _ \<Rightarrow> record_terminal_failure c l ''huggingface-token-unavailable''
                  ''The pinned recipe requires Hugging Face access, but its scoped token is unavailable.'' now
              | Inr hf_token \<Rightarrow>
                  send_creation c l (creation_request (rental l) recipe off endpoint_token (Some hf_token)) now)
         else send_creation c l (creation_request (rental l) recipe off endpoint_token None) now)"

definition reconcile_create ::
    "'w controller \<Rightarrow> gpu_rental_lease \<Rightarrow> int \<Rightarrow> ('w ctl, controller_event list) action" where
  "reconcile_create c l now =
     bind (find_owned c (rental l)) (\<lambda>owned.
     case owned of
       Inr (Some inst) \<Rightarrow> adopt_instance c l inst now
     | Inl e \<Rightarrow> record_retry c l e now
     | Inr None \<Rightarrow>
       (case catalog_get (c_recipes c) (recipe_id (rental l)) of
          None \<Rightarrow> record_terminal_failure c l ''recipe-missing'' ''Pinned GPU recipe is missing.'' now
        | Some recipe \<Rightarrow>
            if \<not> rc_manifest_verified recipe
            then record_terminal_failure c l ''recipe-unverified''
                   ''Pinned GPU recipe manifest has not been verified.'' now
            else
              (case offer_from_str (c_codec c) (offer_snapshot_json (rental l)) of
                 None \<Rightarrow> fail ''offer snapshot is not a GPU offer''
               | Some off \<Rightarrow>
                 (case validate_for off (recipe_request recipe (max_hourly_microusd (rental l))) now of
                    Inl e \<Rightarrow> record_terminal_failure c l ''offer-invalid'' (pe_safe_message e) now
                  | Inr _ \<Rightarrow>
                    (case c_credentials c of
                       None \<Rightarrow> record_terminal_failure c l ''endpoint-token-unavailable''
                         ''The scoped endpoint credential resolver is unavailable.'' now
                     | Some creds \<Rightarrow> create_with_credentials c l recipe off creds now)))))"

definition reconcile_allocating ::
    "'w controller \<Rightarrow> gpu_rental_lease \<Rightarrow> int \<Rightarrow> ('w ctl, controller_event list) action" where
  "reconcile_allocating c l now =
     bind (case provider_resource_id (rental l) of
             Some resource \<Rightarrow> get_instance_of c resource
           | None \<Rightarrow> find_owned c (rental l)) (\<lambda>res.
     case res of
       Inr (Some inst) \<Rightarrow>
         if in_state inst = InstRunning
         then bind (apply_update c l (no_update\<lparr>
                  up_observed_state := Some Bootstrapping,
                  up_provider_resource_id := Some (in_resource_id inst),
                  up_next_retry_at_ms := Some (saturating_add now (normal_poll_ms (c_config c))),
                  up_clear_last_error := True\<rparr>) now)
                (\<lambda>_. ret [NeedsProvisioning (rental_id (rental l)) (in_resource_id inst)])
         else if in_state inst = InstFailed
         then bind (apply_update c l (no_update\<lparr>
                  up_desired_state := Some TerminateRequested,
                  up_observed_state := Some TerminateRequested,
                  up_provider_resource_id := Some (in_resource_id inst),
                  up_last_error_code := Some ''provider-instance-failed'',
                  up_last_error_message := Some ''Provider reported that the instance failed.'',
                  up_next_retry_at_ms := Some now\<rparr>) now)
                (\<lambda>_. ret [])
         else bind (apply_update c l (no_update\<lparr>
                  up_provider_resource_id := Some (in_resource_id inst),
                  up_observed_state := Some Allocating,
                  up_next_retry_at_ms := Some (saturating_add now (normal_poll_ms (c_config c))),
                  up_clear_last_error := True\<rparr>) now)
                (\<lambda>_. ret [])
     | Inr None \<Rightarrow>
         if provider_resource_id (rental l) = None
         then bind (apply_update c l (no_update\<lparr>
                  up_observed_state := Some Orphaned,
                  up_last_error_code := Some ''ambiguous-create-unresolved'',
                  up_last_error_message := Some
                    ''Create outcome remains ambiguous and no owned resource is visible; human resolution is required.'',
                  up_next_retry_at_ms := Some (saturating_add now (maximum_retry_ms (c_config c))),
                  up_increment_retry_count := True\<rparr>) now)
                (\<lambda>_. ret [Warning (rental_id (rental l)) ''ambiguous-create-unresolved''
                   ''GPU create outcome needs human resolution; no duplicate was created.''])
         else record_terminal_failure c l ''instance-disappeared''
                ''Provider instance disappeared before becoming ready.'' now
     | Inl e \<Rightarrow> record_retry c l e now)"

section \<open>Provisioning\<close>

definition provision_deadline :: "gpu_rental \<Rightarrow> gpu_recipe \<Rightarrow> int" where
  "provision_deadline r recipe =
     saturating_add (saturating_add (created_at_ms r) (i64_or_max (rc_download_deadline_ms recipe)))
       (i64_or_max (rc_startup_deadline_ms recipe))"

definition hardware_mismatch :: "gpu_instance \<Rightarrow> hardware_requirements \<Rightarrow> bool" where
  "hardware_mismatch inst hw \<longleftrightarrow>
     in_gpu_model inst \<noteq> hw_gpu_model hw \<or> in_gpu_count inst < hw_gpu_count hw
   \<or> (case in_host_ram_mib inst of None \<Rightarrow> True | Some ram \<Rightarrow> ram < hw_minimum_host_ram_mib hw)
   \<or> (case in_disk_gib inst of None \<Rightarrow> True | Some disk \<Rightarrow> disk < hw_minimum_disk_gib hw)
   \<or> (hw_requires_high_bandwidth_interconnect hw \<and> in_high_bandwidth_interconnect inst = Some False)"

definition json_of_nat :: "nat \<Rightarrow> json_value" where
  "json_of_nat n = JNumber (show_nat n)"

definition json_of_option :: "('a \<Rightarrow> json_value) \<Rightarrow> 'a option \<Rightarrow> json_value" where
  "json_of_option f x = (case x of None \<Rightarrow> JNull | Some y \<Rightarrow> f y)"

definition bootstrap_postcondition :: "string \<Rightarrow> gpu_instance \<Rightarrow> hardware_requirements \<Rightarrow> json_value" where
  "bootstrap_postcondition resource inst hw = JObject
     [(''resource_id'', JString resource), (''gpu_model'', JString (in_gpu_model inst)),
      (''gpu_count'', json_of_nat (in_gpu_count inst)),
      (''host_ram_mib'', json_of_option json_of_nat (in_host_ram_mib inst)),
      (''disk_gib'', json_of_option json_of_nat (in_disk_gib inst)),
      (''high_bandwidth_interconnect'', json_of_option JBool (in_high_bandwidth_interconnect inst)),
      (''runtime_topology_gate'', JBool (hw_requires_high_bandwidth_interconnect hw
                                          \<and> in_high_bandwidth_interconnect inst = None))]"

definition readiness_postcondition :: "endpoint_readiness_report \<Rightarrow> json_value" where
  "readiness_postcondition r = JObject
     [(''authenticated'', JBool (rejects_missing_token r \<and> rejects_wrong_token r)),
      (''model_identity'', JBool (model_identity_ok r)), (''chat'', JBool (chat_ok r)),
      (''streaming'', JBool (streaming_ok r)), (''cancellation'', JBool (cancellation_ok r)),
      (''tool_call'', JBool (tool_call_ok r))]"

text \<open>A provision step that begins and succeeds; False when its manifest conflicts.\<close>

definition run_step ::
    "'w controller \<Rightarrow> gpu_rental_lease \<Rightarrow> string \<Rightarrow> string \<Rightarrow> json_value \<Rightarrow> int \<Rightarrow> ('w ctl, bool) action" where
  "run_step c l step contract postcondition now =
     bind (try_db (begin_gpu_provision_step (rental_id (rental l)) step (manifest_step_digest contract) now)) (\<lambda>began.
     if \<not> began then ret False
     else bind (try_db (finish_gpu_provision_step (json_from_str (c_codec c)) (rental_id (rental l)) step True
                   (Some (json_to_string (c_codec c) postcondition)) None now))
            (\<lambda>_. ret True))"

definition publish_ready ::
    "'w controller \<Rightarrow> gpu_rental_lease \<Rightarrow> gpu_recipe \<Rightarrow> string \<Rightarrow> int \<Rightarrow> ('w ctl, controller_event list) action" where
  "publish_ready c l recipe endpoint now =
    (let endpoint_provider = ''gpu-'' @ rental_id (rental l)
     in bind (apply_update c l (no_update\<lparr>
            up_desired_state := Some Ready,
            up_observed_state := Some Ready,
            up_provision_step := Some ''ready'',
            up_endpoint_base_url := Some endpoint,
            up_endpoint_provider_id := Some endpoint_provider,
            up_next_retry_at_ms := Some (saturating_add now (normal_poll_ms (c_config c))),
            up_clear_last_error := True\<rparr>) now) (\<lambda>_.
        bind (try_db (upsert_gpu_runtime_provider (url_parse (c_codec c))
            \<lparr>rp_rental_id = rental_id (rental l), rp_provider_id = endpoint_provider, rp_base_url = endpoint,
              rp_model_id = served_model_id recipe, rp_wire_api = rc_wire_api recipe, rp_health = ''ready'',
              rp_display_hourly_microusd = quoted_hourly_microusd (c_codec c) (rental l),
              rp_maximum_context_tokens = i64_or_max (rc_maximum_context_tokens recipe),
              rp_catalog_sequence = saturating_add (state_sequence (rental l)) 1\<rparr> now)) (\<lambda>_.
        ret [StateChanged (rental_id (rental l)) Ready])))"

definition probe_readiness ::
    "'w controller \<Rightarrow> gpu_rental_lease \<Rightarrow> gpu_recipe \<Rightarrow> string \<Rightarrow> 'w credential_resolver \<Rightarrow> 'w readiness_probe \<Rightarrow> int
       \<Rightarrow> ('w ctl, controller_event list) action" where
  "probe_readiness c l recipe endpoint creds ready now =
     bind (outside (ensure_rental_endpoint_token creds (rental_id (rental l)))) (\<lambda>cred.
     case cred of
       Inl e \<Rightarrow>
         if credential_retryable e
         then record_retry c l (provider_error_new Retryable
                ''The per-rental endpoint credential store is temporarily unavailable.'') now
         else record_terminal_failure c l ''endpoint-token-unavailable''
                ''The per-rental endpoint token is unavailable.'' now
     | Inr token \<Rightarrow>
         bind (outside (probe ready endpoint (served_model_id recipe) token)) (\<lambda>res.
         case res of
           Inl _ \<Rightarrow> record_retry c l (provider_error_new Retryable
               ''The authenticated endpoint readiness probe could not complete.'') now
         | Inr report \<Rightarrow>
             if \<not> report_ready report
             then record_retry c l (provider_error_new Retryable
                    ''The authenticated endpoint is not ready yet.'') now
             else
               bind (run_step c l ''02-readiness'' (rc_probe_contract recipe)
                       (readiness_postcondition report) now) (\<lambda>began.
               if \<not> began
               then record_terminal_failure c l ''readiness-contract-conflict''
                      ''The persisted readiness step does not match the pinned probe contract.'' now
               else publish_ready c l recipe endpoint now)))"

definition resolve_endpoint ::
    "'w controller \<Rightarrow> gpu_rental_lease \<Rightarrow> gpu_recipe \<Rightarrow> gpu_instance \<Rightarrow> int \<Rightarrow> ('w ctl, controller_event list) action" where
  "resolve_endpoint c l recipe inst now =
     bind (outside (secure_endpoint_base_url (c_provider c) inst (rc_inference_port recipe))) (\<lambda>res.
     case res of
       Inl e \<Rightarrow>
         if error_retryable e then record_retry c l e now
         else record_terminal_failure c l ''secure-endpoint-unavailable'' (pe_safe_message e) now
     | Inr endpoint \<Rightarrow>
         (case c_credentials c of
            None \<Rightarrow> record_terminal_failure c l ''readiness-runtime-unavailable''
              ''The authenticated readiness runtime is unavailable.'' now
          | Some creds \<Rightarrow>
            (case c_readiness c of
               None \<Rightarrow> record_terminal_failure c l ''readiness-runtime-unavailable''
                 ''The authenticated readiness runtime is unavailable.'' now
             | Some ready \<Rightarrow> probe_readiness c l recipe endpoint creds ready now)))"

definition enter_probing ::
    "'w controller \<Rightarrow> gpu_rental_lease \<Rightarrow> gpu_recipe \<Rightarrow> gpu_instance \<Rightarrow> int \<Rightarrow> ('w ctl, controller_event list) action" where
  "enter_probing c l recipe inst now =
    (if observed_state (rental l) \<noteq> Probing
     then bind (apply_update c l (no_update\<lparr>
              up_observed_state := Some Probing,
              up_provision_step := Some ''02-readiness'',
              up_next_retry_at_ms := Some now,
              up_clear_last_error := True\<rparr>) now)
            (\<lambda>_. ret [StateChanged (rental_id (rental l)) Probing])
     else resolve_endpoint c l recipe inst now)"

definition observe_phase ::
    "'w controller \<Rightarrow> gpu_rental_lease \<Rightarrow> gpu_recipe \<Rightarrow> gpu_instance \<Rightarrow> int \<Rightarrow> ('w ctl, controller_event list) action" where
  "observe_phase c l recipe inst now =
     bind (outside (provision_phase (c_provider c) inst)) (\<lambda>res.
     case (case res of Inl _ \<Rightarrow> None | Inr phase \<Rightarrow> phase) of
       None \<Rightarrow> enter_probing c l recipe inst now
     | Some phase \<Rightarrow>
         (let state = provision_phase_state phase;
              phase_changed = (observed_state (rental l) \<noteq> state
                 \<or> provision_step (rental l) \<noteq> Some (phase_as_str phase))
          in if phase \<noteq> EndpointProbing \<or> phase_changed
             then bind (apply_update c l (no_update\<lparr>
                      up_observed_state := Some state,
                      up_provision_step := Some (phase_as_str phase),
                      up_next_retry_at_ms := Some (saturating_add now (normal_poll_ms (c_config c))),
                      up_clear_last_error := True\<rparr>) now)
                    (\<lambda>_. ret (if phase_changed then [StateChanged (rental_id (rental l)) state] else []))
             else enter_probing c l recipe inst now))"

definition provision_instance ::
    "'w controller \<Rightarrow> gpu_rental_lease \<Rightarrow> string \<Rightarrow> gpu_recipe \<Rightarrow> gpu_instance \<Rightarrow> int
       \<Rightarrow> ('w ctl, controller_event list) action" where
  "provision_instance c l resource recipe inst now =
    (if in_state inst \<noteq> InstRunning
     then (if in_state inst = InstFailed \<or> in_state inst = InstStopped
           then record_terminal_failure c l ''provider-instance-failed''
                  ''The provider resource stopped before readiness completed.'' now
           else bind (release_later c l now) (\<lambda>_. ret []))
     else if hardware_mismatch inst (rc_hardware recipe)
     then record_terminal_failure c l ''allocated-hardware-mismatch''
            ''The allocated GPU model, count, or topology does not match the pinned recipe.'' now
     else
       bind (if provision_step (rental l) = None
             then run_step c l ''01-provider-bootstrap'' (rc_revision recipe)
                    (bootstrap_postcondition resource inst (rc_hardware recipe)) now
             else ret True) (\<lambda>began.
       if \<not> began
       then record_terminal_failure c l ''provision-manifest-conflict''
              ''The persisted provision step does not match the pinned recipe revision.'' now
       else observe_phase c l recipe inst now))"

definition request_provisioning ::
    "'w controller \<Rightarrow> gpu_rental_lease \<Rightarrow> int \<Rightarrow> ('w ctl, controller_event list) action" where
  "request_provisioning c l now =
    (case provider_resource_id (rental l) of
       None \<Rightarrow> record_terminal_failure c l ''resource-id-missing''
         ''Provisioning cannot continue without a provider resource id.'' now
     | Some resource \<Rightarrow>
       (case catalog_get (c_recipes c) (recipe_id (rental l)) of
          None \<Rightarrow> record_terminal_failure c l ''recipe-missing'' ''Pinned GPU recipe is missing.'' now
        | Some recipe \<Rightarrow>
            if now > provision_deadline (rental l) recipe
            then record_terminal_failure c l ''provision-deadline-exceeded''
                   ''The pinned recipe did not become ready before its authorized provisioning deadline.'' now
            else
              bind (get_instance_of c resource) (\<lambda>res.
              case res of
                Inr (Some inst) \<Rightarrow> provision_instance c l resource recipe inst now
              | Inr None \<Rightarrow> record_terminal_failure c l ''provider-resource-missing''
                  ''The provider resource disappeared during provisioning.'' now
              | Inl e \<Rightarrow> record_retry c l e now)))"

section \<open>Serving\<close>

definition endpoint_of ::
    "'w controller \<Rightarrow> gpu_recipe option \<Rightarrow> gpu_instance \<Rightarrow> ('w ctl, string option) action" where
  "endpoint_of c recipe inst =
    (case recipe of
       None \<Rightarrow> ret None
     | Some rcp \<Rightarrow>
         bind (outside (secure_endpoint_base_url (c_provider c) inst (rc_inference_port rcp)))
           (\<lambda>res. ret (case res of Inl _ \<Rightarrow> None | Inr endpoint \<Rightarrow> Some endpoint)))"

definition check_health ::
    "'w controller \<Rightarrow> gpu_rental_lease \<Rightarrow> gpu_recipe option \<Rightarrow> string option \<Rightarrow> ('w ctl, bool) action" where
  "check_health c l recipe endpoint =
    (case (recipe, endpoint, c_credentials c, c_readiness c) of
       (Some rcp, Some url, Some creds, Some ready) \<Rightarrow>
         bind (outside (resolve creds (RentalEndpointToken (rental_id (rental l))))) (\<lambda>cred.
         case cred of
           Inl _ \<Rightarrow> ret False
         | Inr token \<Rightarrow>
             if observed_state (rental l) = Ready
             then bind (outside (probe_health ready url (served_model_id rcp) token))
                    (\<lambda>res. ret (case res of Inl _ \<Rightarrow> False | Inr ok \<Rightarrow> ok))
             else bind (outside (probe ready url (served_model_id rcp) token))
                    (\<lambda>res. ret (case res of Inl _ \<Rightarrow> False | Inr report \<Rightarrow> report_ready report)))
     | _ \<Rightarrow> ret False)"

definition health_word :: "bool \<Rightarrow> string" where
  "health_word health = (if health then ''ready'' else ''degraded'')"

text \<open>The catalogue update after a health check; False when the handler returns early.\<close>

definition refresh_catalogue ::
    "'w controller \<Rightarrow> gpu_rental_lease \<Rightarrow> gpu_recipe option \<Rightarrow> string option \<Rightarrow> bool \<Rightarrow> bool \<Rightarrow> int
       \<Rightarrow> ('w ctl, bool) action" where
  "refresh_catalogue c l recipe endpoint endpoint_changed health now =
    (let tokens = Option.bind recipe (\<lambda>rcp. i64_try_from (rc_maximum_context_tokens rcp)) in
     if endpoint_changed
     then (case (recipe, endpoint, tokens) of
             (Some rcp, Some url, Some context_tokens) \<Rightarrow>
               bind (try_db (refresh_gpu_runtime_provider (url_parse (c_codec c))
                 \<lparr>rp_rental_id = rental_id (rental l),
                   rp_provider_id = (case endpoint_provider_id (rental l) of
                       Some i \<Rightarrow> i | None \<Rightarrow> ''gpu-'' @ rental_id (rental l)),
                   rp_base_url = url, rp_model_id = served_model_id rcp, rp_wire_api = rc_wire_api rcp,
                   rp_health = health_word health,
                   rp_display_hourly_microusd = quoted_hourly_microusd (c_codec c) (rental l),
                   rp_maximum_context_tokens = context_tokens,
                   rp_catalog_sequence = saturating_add (state_sequence (rental l)) 1\<rparr> now))
                 (\<lambda>_. ret True)
           | _ \<Rightarrow> ret False)
     else (case tokens of
             Some context_tokens \<Rightarrow>
               bind (try_db (set_gpu_runtime_provider_health_and_price (rental_id (rental l)) (health_word health)
                       (quoted_hourly_microusd (c_codec c) (rental l)) context_tokens now))
                 (\<lambda>_. ret True)
           | None \<Rightarrow>
               bind (try_db (set_gpu_runtime_provider_health (rental_id (rental l)) ''degraded'' now))
                 (\<lambda>_. ret True)))"

definition check_serving ::
    "'w controller \<Rightarrow> gpu_rental_lease \<Rightarrow> gpu_instance \<Rightarrow> int \<Rightarrow> ('w ctl, controller_event list) action" where
  "check_serving c l inst now =
    (let recipe = catalog_get (c_recipes c) (recipe_id (rental l)) in
     bind (endpoint_of c recipe inst) (\<lambda>endpoint.
     bind (check_health c l recipe endpoint) (\<lambda>health.
     let state = (if health then Ready else Degraded);
         state_changed = (state \<noteq> observed_state (rental l));
         endpoint_changed = (endpoint \<noteq> None \<and> endpoint_base_url (rental l) \<noteq> endpoint)
     in
     bind (apply_update c l (no_update\<lparr>
         up_observed_state := (if state_changed then Some state else None),
         up_endpoint_base_url := (if endpoint_changed then endpoint else None),
         up_last_error_code := (if health then None else Some ''endpoint-degraded''),
         up_last_error_message := (if health then None
            else Some ''The authenticated endpoint failed its readiness contract.''),
         up_next_retry_at_ms := Some (saturating_add now (health_poll_ms (c_config c))),
         up_clear_last_error := health\<rparr>) now) (\<lambda>_.
     bind (refresh_catalogue c l recipe endpoint endpoint_changed health now) (\<lambda>completed.
     ret (if completed \<and> state_changed then [StateChanged (rental_id (rental l)) state] else []))))))"

definition reconcile_ready ::
    "'w controller \<Rightarrow> gpu_rental_lease \<Rightarrow> int \<Rightarrow> ('w ctl, controller_event list) action" where
  "reconcile_ready c l now =
    (case provider_resource_id (rental l) of
       None \<Rightarrow> record_terminal_failure c l ''resource-id-missing''
         ''Ready rental is missing its provider resource id.'' now
     | Some resource \<Rightarrow>
       bind (get_instance_of c resource) (\<lambda>res.
       case res of
         Inr None \<Rightarrow> confirm_terminated c l now
       | Inr (Some inst) \<Rightarrow>
           if in_state inst = InstStopped \<or> in_state inst = InstFailed
           then bind (apply_update c l (no_update\<lparr>
                    up_desired_state := Some TerminateRequested,
                    up_observed_state := Some TerminateRequested,
                    up_last_error_code := Some ''provider-side-stop'',
                    up_last_error_message := Some
                      ''The provider resource stopped outside Corbanu Terminal; cleanup was requested.'',
                    up_next_retry_at_ms := Some now\<rparr>) now)
                  (\<lambda>_. ret [Warning (rental_id (rental l)) ''provider-side-stop''
                     ''Provider-side stop detected; Corbanu Terminal is confirming cleanup.''])
           else check_serving c l inst now
       | Inl e \<Rightarrow> record_retry c l e now))"

section \<open>Reconciling leases\<close>

definition must_terminate :: "gpu_rental \<Rightarrow> bool" where
  "must_terminate r \<longleftrightarrow>
     desired_state r = TerminateRequested
   \<or> observed_state r \<in> {TerminateRequested, Terminating, TerminationUnconfirmed}"

definition limit_reached :: "gpu_rental \<Rightarrow> int \<Rightarrow> bool" where
  "limit_reached r now \<longleftrightarrow>
     may_be_billable r
   \<and> (now \<ge> terminate_at_ms r \<or> estimated_accrued_microusd r \<ge> max_total_microusd r)
   \<and> desired_state r \<noteq> TerminateRequested"

definition route_state ::
    "'w controller \<Rightarrow> gpu_rental_lease \<Rightarrow> int \<Rightarrow> ('w ctl, controller_event list) action" where
  "route_state c l now =
    (let st = observed_state (rental l) in
     if st = Quoted \<and> desired_state (rental l) = CreatePending then reconcile_create c l now
     else if st = Allocating \<or> st = Reconciling then reconcile_allocating c l now
     else if st = Bootstrapping \<or> st = Downloading \<or> st = Starting \<or> st = Probing
     then request_provisioning c l now
     else if st = Ready \<or> st = Degraded then reconcile_ready c l now
     else bind (release_later c l now) (\<lambda>_. ret []))"

definition enforce_limits ::
    "'w controller \<Rightarrow> gpu_rental_lease \<Rightarrow> int \<Rightarrow> ('w ctl, controller_event list) action" where
  "enforce_limits c l now =
    (if limit_reached (rental l) now
     then bind (apply_update c l (no_update\<lparr>
              up_desired_state := Some TerminateRequested,
              up_observed_state := Some TerminateRequested,
              up_next_retry_at_ms := Some now\<rparr>) now)
            (\<lambda>_. ret [Warning (rental_id (rental l)) ''spend-limit''
               ''Rental reached its authorized spend or time limit; termination requested.''])
     else route_state c l now)"

definition with_billing :: "billing_state \<Rightarrow> gpu_rental_lease \<Rightarrow> gpu_rental_lease" where
  "with_billing b l = l\<lparr>rental := (rental l)\<lparr>
     estimated_accrued_microusd := bl_estimated_accrued_microusd b,
     provider_reported_cost_microusd := bl_provider_reported_cost_microusd b\<rparr>\<rparr>"

definition refresh_billing ::
    "'w controller \<Rightarrow> gpu_rental_lease \<Rightarrow> int \<Rightarrow> ('w ctl, controller_event list) action" where
  "refresh_billing c l now =
    (if may_be_billable (rental l)
     then (case provider_resource_id (rental l) of
             None \<Rightarrow> enforce_limits c l now
           | Some resource \<Rightarrow>
               bind (outside (billing_state_of (c_provider c) resource)) (\<lambda>res.
               case res of
                 Inl e \<Rightarrow> record_retry c l e now
               | Inr billing \<Rightarrow> enforce_limits c (with_billing billing l) now))
     else enforce_limits c l now)"

definition reconcile_lease ::
    "'w controller \<Rightarrow> gpu_rental_lease \<Rightarrow> int \<Rightarrow> ('w ctl, controller_event list) action" where
  "reconcile_lease c l now =
    (let caps = capabilities (c_provider c) in
     if provider (rental l) \<noteq> pc_provider caps then bind (release_later c l now) (\<lambda>_. ret [])
     else if \<not> pc_supports_inventory caps \<or> \<not> pc_supports_ownership_tags caps
     then record_terminal_failure c l ''provider-recovery-unsupported''
            ''Provider cannot safely reconcile Corbanu Terminal-owned resources.'' now
     else if must_terminate (rental l) then reconcile_termination c l now
     else refresh_billing c l now)"

primrec reconcile_leases ::
    "'w controller \<Rightarrow> gpu_rental_lease list \<Rightarrow> int \<Rightarrow> ('w ctl, controller_event list) action" where
  "reconcile_leases c [] now = ret []"
| "reconcile_leases c (l # ls) now =
     bind (reconcile_lease c l now) (\<lambda>events.
     bind (reconcile_leases c ls now) (\<lambda>more. ret (events @ more)))"

definition stale_token :: "gpu_db \<Rightarrow> string \<Rightarrow> bool" where
  "stale_token db i =
    (case get_gpu_rental i db of None \<Rightarrow> True | Some r \<Rightarrow> \<not> rental_requires_endpoint_token r)"

definition prune_stale_rental_endpoint_tokens ::
    "'w credential_resolver \<Rightarrow> ('w ctl, nat) action" where
  "prune_stale_rental_endpoint_tokens creds =
     bind (bind (outside (rental_endpoint_token_ids creds)) or_credential_error) (\<lambda>ids.
     bind (on_db (\<lambda>db. (filter (stale_token db) ids, db))) (\<lambda>stale.
     bind (outside (delete_rental_endpoint_tokens creds stale)) or_credential_error))"

definition reconcile_due :: "'w controller \<Rightarrow> int \<Rightarrow> ('w ctl, controller_event list) action" where
  "reconcile_due c now =
     bind (case c_credentials c of
             None \<Rightarrow> ret 0
           | Some creds \<Rightarrow> prune_stale_rental_endpoint_tokens creds) (\<lambda>_.
     bind (on_db prune_terminal_gpu_runtime_providers) (\<lambda>_.
     bind (try_db (claim_due_gpu_rentals_for_provider (controller_id (c_config c))
             (pc_provider (capabilities (c_provider c))) now (lease_ttl_ms (c_config c))
             (batch_size (c_config c)))) (\<lambda>leases.
     reconcile_leases c leases now)))"

end
