(* ===== verification/Gpu_Invariants.thy ===== *)
theory Gpu_Invariants
  imports Gpu_Ledger
begin

text \<open>The invariant of the ledger's tables and what every operation keeps of it: the uniqueness and
  foreign-key constraints hold, confirmed terminations are final, and each rental advances as
  its terms allow.  The interleaving of operations of several processes is a step relation, and
  its properties are proved by induction over its rules.\<close>


section \<open>Invariants of the tables\<close>

lemma map_update_rows:
  "(\<And>r. p r \<Longrightarrow> key (f r) = key r) \<Longrightarrow> map key (update_rows p f rows) = map key rows"
  by (simp add: update_rows_def)

lemma in_update_rows:
  "x \<in> set (update_rows p f rows) \<longleftrightarrow> (\<exists>r \<in> set rows. x = (if p r then f r else r))"
  by (auto simp: update_rows_def)

lemma update_rowsI: "r \<in> set rows \<Longrightarrow> (if p r then f r else r) \<in> set (update_rows p f rows)"
  by (simp add: update_rows_def)

lemma count_rows_unique:
  "distinct (map key rows) \<Longrightarrow> (\<And>r. p r \<Longrightarrow> key r = k) \<Longrightarrow>
     count_rows p rows = (if list_ex p rows then 1 else 0)"
proof (induction rows)
  case (Cons r rows)
  then have IH: "count_rows p rows = (if list_ex p rows then 1 else 0)" by simp
  show ?case
  proof (cases "p r")
    case True
    then have "\<not> list_ex p rows" using Cons.prems by (auto simp: list_ex_iff image_iff)
    then show ?thesis using IH True by (simp add: count_rows_def)
  next
    case False
    then show ?thesis using IH by (simp add: count_rows_def)
  qed
qed (simp add: count_rows_def)

abbreviation terms :: "gpu_rental \<Rightarrow> gpu_rental_create_params" where
  "terms r \<equiv> gpu_rental_create_params.truncate r"

lemma terms_eq_iff:
  "terms r = terms r' \<longleftrightarrow>
     rental_id r = rental_id r' \<and> installation_id r = installation_id r'
   \<and> client_operation_id r = client_operation_id r' \<and> provider r = provider r'
   \<and> recipe_id r = recipe_id r' \<and> recipe_revision r = recipe_revision r'
   \<and> offer_snapshot_json r = offer_snapshot_json r' \<and> quote_expires_at_ms r = quote_expires_at_ms r'
   \<and> max_hourly_microusd r = max_hourly_microusd r' \<and> max_total_microusd r = max_total_microusd r'
   \<and> terminate_at_ms r = terminate_at_ms r' \<and> enforcement_class r = enforcement_class r'
   \<and> ownership_tag r = ownership_tag r'"
  by (simp add: gpu_rental_create_params.truncate_def)

definition row_ok :: "gpu_rental \<Rightarrow> bool" where
  "row_ok r \<longleftrightarrow>
     (observed_state r = TerminatedConfirmed \<longrightarrow> controller_lease_owner r = None)
   \<and> (observed_state r = TerminatedConfirmed \<longleftrightarrow> terminated_confirmed_at_ms r \<noteq> None)"

definition rentals_ok :: "gpu_rental list \<Rightarrow> bool" where
  "rentals_ok rs \<longleftrightarrow>
     distinct (map rental_id rs) \<and> distinct (map client_operation_id rs)
   \<and> distinct (map ownership_tag rs) \<and> (\<forall>r \<in> set rs. row_ok r)"

definition operation_key :: "gpu_rental_operation \<Rightarrow> string \<times> gpu_operation_kind \<times> int" where
  "operation_key op = (op_rental_id op, op_kind op, op_sequence op)"

definition operations_ok :: "string set \<Rightarrow> gpu_rental_operation list \<Rightarrow> bool" where
  "operations_ok ids ops \<longleftrightarrow>
     distinct (map operation_key ops) \<and> distinct (map op_operation_id ops) \<and> op_rental_id ` set ops \<subseteq> ids"

definition notifications_ok :: "string set \<Rightarrow> gpu_rental_notification list \<Rightarrow> bool" where
  "notifications_ok ids ns \<longleftrightarrow>
     distinct (map (\<lambda>t. (nt_rental_id t, nt_state_sequence t, nt_kind t)) ns) \<and> nt_rental_id ` set ns \<subseteq> ids"

definition steps_ok :: "string set \<Rightarrow> gpu_provision_step list \<Rightarrow> bool" where
  "steps_ok ids ss \<longleftrightarrow>
     distinct (map (\<lambda>st. (st_rental_id st, st_step_id st)) ss) \<and> st_rental_id ` set ss \<subseteq> ids"

definition runtime_providers_ok :: "gpu_rental list \<Rightarrow> gpu_runtime_provider list \<Rightarrow> bool" where
  "runtime_providers_ok rs ps \<longleftrightarrow>
     distinct (map rp_rental_id ps) \<and> distinct (map rp_provider_id ps)
   \<and> (\<forall>q \<in> set ps. \<exists>r \<in> set rs. rental_id r = rp_rental_id q \<and> observed_state r \<noteq> TerminatedConfirmed)"

definition rental_ids :: "gpu_db \<Rightarrow> string set" where
  "rental_ids db = rental_id ` set (db_rentals db)"

definition ledger_ok :: "gpu_db \<Rightarrow> bool" where
  "ledger_ok db \<longleftrightarrow>
     rentals_ok (db_rentals db) \<and> operations_ok (rental_ids db) (db_operations db)
   \<and> notifications_ok (rental_ids db) (db_notifications db)
   \<and> steps_ok (rental_ids db) (db_provision_steps db)
   \<and> runtime_providers_ok (db_rentals db) (db_runtime_providers db)"

text \<open>How one row may change.\<close>

definition advances :: "gpu_rental \<Rightarrow> gpu_rental \<Rightarrow> bool" where
  "advances r r' \<longleftrightarrow>
     terms r' = terms r \<and> created_at_ms r' = created_at_ms r
   \<and> state_sequence r \<le> state_sequence r'
   \<and> (state_sequence r' = state_sequence r \<longrightarrow>
        desired_state r' = desired_state r \<and> observed_state r' = observed_state r)
   \<and> (provider_resource_id r \<noteq> None \<longrightarrow> provider_resource_id r' \<noteq> None)
   \<and> (observed_state r = TerminatedConfirmed \<longrightarrow>
        observed_state r' = TerminatedConfirmed
      \<and> terminated_confirmed_at_ms r' = terminated_confirmed_at_ms r)"

definition ledger_advances :: "gpu_db \<Rightarrow> gpu_db \<Rightarrow> bool" where
  "ledger_advances db db' \<longleftrightarrow>
     (\<forall>r \<in> set (db_rentals db). \<exists>r' \<in> set (db_rentals db'). advances r r')
   \<and> operation_key ` set (db_operations db) \<subseteq> operation_key ` set (db_operations db')"

lemma advances_refl [simp]: "advances r r"
  by (simp add: advances_def)

lemma advances_trans: "advances a b \<Longrightarrow> advances b c \<Longrightarrow> advances a c"
  unfolding advances_def by auto

lemma ledger_advances_refl [simp]: "ledger_advances db db"
  unfolding ledger_advances_def by (meson advances_refl order_refl)

lemma ledger_advances_trans:
  "ledger_advances a b \<Longrightarrow> ledger_advances b c \<Longrightarrow> ledger_advances a c"
  unfolding ledger_advances_def by (meson advances_trans order_trans)

text \<open>The SET clauses of the rental table, one lemma for all of them.\<close>

definition sound_set :: "gpu_rental list \<Rightarrow> (gpu_rental \<Rightarrow> bool) \<Rightarrow> (gpu_rental \<Rightarrow> gpu_rental) \<Rightarrow> bool" where
  "sound_set rs p f \<longleftrightarrow> (\<forall>r \<in> set rs. row_ok r \<longrightarrow> p r \<longrightarrow> row_ok (f r) \<and> advances r (f r))"

lemma advances_terms: "advances r r' \<Longrightarrow> terms r' = terms r"
  by (simp add: advances_def)

lemma rentals_ok_update:
  assumes ok: "rentals_ok rs" and f: "sound_set rs p f"
  shows "rentals_ok (update_rows p f rs)"
    and "map rental_id (update_rows p f rs) = map rental_id rs"
proof -
  let ?g = "\<lambda>r. if p r then f r else r"
  have adv: "advances r (?g r) \<and> row_ok (?g r)" if "r \<in> set rs" for r
    using ok f that by (auto simp: rentals_ok_def sound_set_def)
  then have keys: "rental_id (?g r) = rental_id r" "client_operation_id (?g r) = client_operation_id r"
      "ownership_tag (?g r) = ownership_tag r" if "r \<in> set rs" for r
    using that advances_terms [of r "?g r"] by (auto simp: terms_eq_iff)
  have ids: "map k (update_rows p f rs) = map k rs" if "\<And>r. r \<in> set rs \<Longrightarrow> k (?g r) = k r" for k :: "gpu_rental \<Rightarrow> string"
    using that by (simp add: update_rows_def)
  show "map rental_id (update_rows p f rs) = map rental_id rs" using keys by (intro ids)
  moreover have "map client_operation_id (update_rows p f rs) = map client_operation_id rs"
    "map ownership_tag (update_rows p f rs) = map ownership_tag rs" using keys by (auto intro: ids)
  ultimately show "rentals_ok (update_rows p f rs)"
    using ok adv by (auto simp: rentals_ok_def in_update_rows)
qed

lemma update_rentals_ok:
  assumes ok: "ledger_ok db" and f: "sound_set (db_rentals db) p f"
    and rp: "runtime_providers_ok (update_rows p f (db_rentals db)) ps"
  shows "ledger_ok (db\<lparr>db_rentals := update_rows p f (db_rentals db), db_runtime_providers := ps\<rparr>)"
proof -
  have "rental_id ` set (update_rows p f (db_rentals db)) = rental_id ` set (db_rentals db)"
    using rentals_ok_update(2) [OF _ f] ok by (metis ledger_ok_def image_set)
  then show ?thesis
    using ok rentals_ok_update(1) [OF _ f] rp by (auto simp: ledger_ok_def rental_ids_def)
qed

lemma runtime_providers_ok_update:
  assumes "runtime_providers_ok rs ps" "rentals_ok rs" "sound_set rs p f"
    and "\<And>r q. r \<in> set rs \<Longrightarrow> p r \<Longrightarrow> observed_state (f r) = TerminatedConfirmed \<Longrightarrow>
           observed_state r \<noteq> TerminatedConfirmed \<Longrightarrow> q \<in> set ps' \<Longrightarrow> rp_rental_id q \<noteq> rental_id r"
    and "ps' = filter h ps"
  shows "runtime_providers_ok (update_rows p f rs) ps'"
proof -
  have "\<exists>r' \<in> set (update_rows p f rs). rental_id r' = rp_rental_id q \<and> observed_state r' \<noteq> TerminatedConfirmed"
    if q: "q \<in> set ps'" for q
  proof -
    from q assms(1,5) obtain r where r: "r \<in> set rs" "rental_id r = rp_rental_id q" "observed_state r \<noteq> TerminatedConfirmed"
      by (auto simp: runtime_providers_ok_def)
    let ?r = "if p r then f r else r"
    have "rental_id ?r = rental_id r"
      using r assms(2,3) by (auto simp: rentals_ok_def sound_set_def dest!: advances_terms simp: terms_eq_iff)
    moreover have "observed_state ?r \<noteq> TerminatedConfirmed"
      using assms(4) [OF r(1) _ _ r(3) q] r by auto
    ultimately show ?thesis using update_rowsI [OF r(1), of p f] r(2) by metis
  qed
  then show ?thesis using assms(1,5) by (auto simp: runtime_providers_ok_def distinct_map_filter)
qed

lemma update_rentals_advances:
  assumes "ledger_ok db" "sound_set (db_rentals db) p f"
  shows "ledger_advances db (db\<lparr>db_rentals := update_rows p f (db_rentals db), db_runtime_providers := ps\<rparr>)"
proof -
  have "advances r (if p r then f r else r)" if "r \<in> set (db_rentals db)" for r
    using assms that by (simp add: ledger_ok_def rentals_ok_def sound_set_def)
  then show ?thesis unfolding ledger_advances_def using update_rowsI by fastforce
qed

lemma sound_creation:
  "sound_set rs (\<lambda>r. rental_id r = i \<and> desired_state r = Quoted \<and> observed_state r = Quoted \<and> P r)
     (\<lambda>r. r\<lparr>desired_state := CreatePending, state_sequence := state_sequence r + 1,
            next_retry_at_ms := now, updated_at_ms := now\<rparr>)"
  by (auto simp: sound_set_def row_ok_def advances_def terms_eq_iff)

lemma sound_termination:
  "sound_set rs (\<lambda>r. rental_id r = i \<and> observed_state r \<noteq> TerminatedConfirmed)
     (\<lambda>r. r\<lparr>desired_state := TerminateRequested,
            state_sequence := state_sequence r + (if desired_state r = TerminateRequested then 0 else 1),
            next_retry_at_ms := now, updated_at_ms := now\<rparr>)"
  by (auto simp: sound_set_def row_ok_def advances_def terms_eq_iff)

lemma sound_update: "sound_set rs (holds_lease l) (update_columns u now)"
proof -
  have "row_ok (update_columns u now r) \<and> advances r (update_columns u now r)"
    if "row_ok r" "holds_lease l r" for r
  proof -
    have "observed_state r \<noteq> TerminatedConfirmed" "terminated_confirmed_at_ms r = None"
      using that by (auto simp: row_ok_def holds_lease_def)
    then show ?thesis
      by (auto simp: row_ok_def advances_def terms_eq_iff update_columns_def coalesce_to_def coalesce_def
            split: option.splits)
  qed
  then show ?thesis by (simp add: sound_set_def)
qed

lemma sound_release:
  "sound_set rs p (\<lambda>r. r\<lparr>controller_lease_owner := None, controller_lease_until_ms := t,
     next_retry_at_ms := n, updated_at_ms := now\<rparr>)"
  by (auto simp: sound_set_def row_ok_def advances_def terms_eq_iff)


text \<open>A step that keeps the invariant and advances every row.\<close>

definition sound_step :: "gpu_db \<Rightarrow> gpu_db \<Rightarrow> bool" where
  "sound_step db db' \<longleftrightarrow> (ledger_ok db \<longrightarrow> ledger_ok db' \<and> ledger_advances db db')"

lemma sound_step_refl [simp]: "sound_step db db"
  by (simp add: sound_step_def)

lemma sound_step_trans: "sound_step a b \<Longrightarrow> sound_step b c \<Longrightarrow> sound_step a c"
  by (auto simp: sound_step_def intro: ledger_advances_trans)

lemma update_rentals_sound:
  assumes "ledger_ok db \<Longrightarrow> sound_set (db_rentals db) p f"
    and "\<And>r. p r \<Longrightarrow> observed_state (f r) = observed_state r"
  shows "sound_step db (db\<lparr>db_rentals := update_rows p f (db_rentals db)\<rparr>)"
proof -
  let ?ps = "db_runtime_providers db"
  have eq: "db\<lparr>db_rentals := R\<rparr> = db\<lparr>db_rentals := R, db_runtime_providers := ?ps\<rparr>" for R by simp
  have "ledger_ok db \<Longrightarrow> runtime_providers_ok (update_rows p f (db_rentals db)) ?ps"
    using assms by (intro runtime_providers_ok_update [where h = "\<lambda>_. True" and ps = ?ps])
      (auto simp: ledger_ok_def)
  then show ?thesis
    unfolding sound_step_def
    using assms(1) update_rentals_ok [of db p f ?ps] update_rentals_advances [of db p f ?ps] eq by metis
qed

lemma request_creation_sound: "sound_step db (snd (request_gpu_rental_creation i now db))"
  unfolding request_gpu_rental_creation_def Let_def snd_conv
  by (rule update_rentals_sound) (use sound_creation in auto)

lemma request_termination_sound: "sound_step db (snd (request_gpu_rental_termination i now db))"
  unfolding request_gpu_rental_termination_def Let_def snd_conv
  by (rule update_rentals_sound) (use sound_termination in auto)

lemma release_sound: "sound_step db (snd (release_gpu_rental_lease l n now db))"
  unfolding release_gpu_rental_lease_def snd_conv
  by (rule update_rentals_sound) (use sound_release in auto)

lemma distinct_key: "distinct (map key xs) \<Longrightarrow> x \<in> set xs \<Longrightarrow> y \<in> set xs \<Longrightarrow> key x = key y \<Longrightarrow> x = y"
  by (metis distinct_map inj_on_def)

text \<open>A claim selects exactly due rentals.\<close>

lemma claim_rows:
  assumes "claim_due_gpu_rentals_inner own prov now ttl limit db = Inr (ls, db')" "ledger_ok db"
  obtains p where
    "\<And>r. r \<in> set (db_rentals db) \<Longrightarrow> p r \<Longrightarrow> due_rental own prov now r"
    "db' = db\<lparr>db_rentals := update_rows p (leased own (saturating_add now (max ttl 1)) now) (db_rentals db)\<rparr>"
    "ls = map (\<lambda>r. \<lparr>rental = leased own (saturating_add now (max ttl 1)) now r,
       lease_owner = own, lease_until_ms = saturating_add now (max ttl 1)\<rparr>) (filter p (db_rentals db))"
proof -
  define ids where "ids = map rental_id (take (max limit 1)
    (sort_key (\<lambda>r. (next_retry_at_ms r, created_at_ms r)) (filter (due_rental own prov now) (db_rentals db))))"
  let ?p = "\<lambda>r. rental_id r \<in> set ids \<and> lease_free own now r"
  have "due_rental own prov now r" if r: "r \<in> set (db_rentals db)" "?p r" for r
  proof -
    from r obtain r' where r': "rental_id r = rental_id r'"
      and mem: "r' \<in> set (take (max limit 1) (sort_key (\<lambda>r. (next_retry_at_ms r, created_at_ms r))
             (filter (due_rental own prov now) (db_rentals db))))"
      by (auto simp: ids_def)
    from in_set_takeD [OF mem] have "r' \<in> set (db_rentals db)" "due_rental own prov now r'" by auto
    with r' r distinct_key [of rental_id "db_rentals db" r r'] assms(2)
    show ?thesis by (simp add: ledger_ok_def rentals_ok_def)
  qed
  moreover note assms(1) [unfolded claim_due_gpu_rentals_inner_def Let_def, folded ids_def]
  ultimately show ?thesis by (intro that [of ?p]) (auto split: if_splits)
qed

lemma sound_leased:
  "(\<And>r. r \<in> set rs \<Longrightarrow> p r \<Longrightarrow> observed_state r \<noteq> TerminatedConfirmed) \<Longrightarrow> sound_set rs p (leased own t now)"
  by (auto simp: sound_set_def row_ok_def advances_def terms_eq_iff leased_def)

lemma claim_sound:
  assumes "claim_due_gpu_rentals_inner own prov now ttl limit db = Inr (ls, db')"
  shows "sound_step db db'"
proof (cases "ledger_ok db")
  case True
  obtain p where p: "\<And>r. r \<in> set (db_rentals db) \<Longrightarrow> p r \<Longrightarrow> due_rental own prov now r"
    and db': "db' = db\<lparr>db_rentals := update_rows p (leased own (saturating_add now (max ttl 1)) now) (db_rentals db)\<rparr>"
    by (rule claim_rows [OF assms True]) blast
  show ?thesis unfolding db'
    by (rule update_rentals_sound) (auto intro!: sound_leased dest!: p simp: due_rental_def, simp add: leased_def)
qed (simp add: sound_step_def)

lemma runtime_removed_ok:
  assumes ok: "ledger_ok db"
  shows "runtime_providers_ok (update_rows (holds_lease l) (update_columns u now) (db_rentals db))
     (filter (\<lambda>q. rp_rental_id q \<noteq> rental_id (rental l)) (db_runtime_providers db))"
  by (rule runtime_providers_ok_update [where h = "\<lambda>q. rp_rental_id q \<noteq> rental_id (rental l)"
        and ps = "db_runtime_providers db"])
     (use ok sound_update in \<open>auto simp: ledger_ok_def holds_lease_def\<close>)

lemma holds_lease_count:
  "ledger_ok db \<Longrightarrow> count_rows (holds_lease l) (db_rentals db)
     = (if list_ex (holds_lease l) (db_rentals db) then 1 else 0)"
  by (rule count_rows_unique [of rental_id]) (auto simp: ledger_ok_def rentals_ok_def holds_lease_def)

lemma update_sound: "sound_step db (snd (update_gpu_rental l u now db))"
proof (cases "ledger_ok db")
  case ok: True
  let ?R = "update_rows (holds_lease l) (update_columns u now) (db_rentals db)"
  have same: "db\<lparr>db_rentals := ?R\<rparr> = db\<lparr>db_rentals := ?R, db_runtime_providers := db_runtime_providers db\<rparr>"
    by simp
  show ?thesis
  proof (cases "list_ex (holds_lease l) (db_rentals db) \<and> up_observed_state u = Some TerminatedConfirmed")
    case True
    then have "snd (update_gpu_rental l u now db) = db\<lparr>db_rentals := ?R, db_runtime_providers :=
        filter (\<lambda>q. rp_rental_id q \<noteq> rental_id (rental l)) (db_runtime_providers db)\<rparr>"
      by (simp add: update_gpu_rental_def Let_def holds_lease_count ok)
    then show ?thesis
      unfolding sound_step_def
      using update_rentals_ok [OF ok sound_update runtime_removed_ok [OF ok]]
        update_rentals_advances [OF ok sound_update] by metis
  next
    case False
    have "runtime_providers_ok ?R (db_runtime_providers db)"
    proof (rule runtime_providers_ok_update [where h = "\<lambda>_. True" and ps = "db_runtime_providers db"])
      fix r assume "r \<in> set (db_rentals db)" "holds_lease l r"
      then have "list_ex (holds_lease l) (db_rentals db)" by (auto simp: list_ex_iff)
      with False have u: "up_observed_state u \<noteq> Some TerminatedConfirmed" by simp
      assume "observed_state (update_columns u now r) = TerminatedConfirmed"
        "observed_state r \<noteq> TerminatedConfirmed"
      with u show "rp_rental_id q \<noteq> rental_id r" for q
        by (auto simp: update_columns_def coalesce_to_def split: option.splits)
    qed (use ok sound_update in \<open>auto simp: ledger_ok_def\<close>)
    moreover have "snd (update_gpu_rental l u now db) = db\<lparr>db_rentals := ?R\<rparr>"
      using False by (auto simp: update_gpu_rental_def Let_def holds_lease_count ok)
    ultimately show ?thesis
      unfolding sound_step_def
      using update_rentals_ok [OF ok sound_update] update_rentals_advances [OF ok sound_update] same by metis
  qed
qed (simp add: sound_step_def)


lemma create_sound:
  assumes "create_gpu_rental from_str p now db = Inr (r, db')"
  shows "sound_step db db'"
proof -
  have "db' = db \<or> (db' = db\<lparr>db_rentals := db_rentals db @ [new_rental_row p now]\<rparr>
     \<and> (\<forall>r \<in> set (db_rentals db). client_operation_id r \<noteq> client_operation_id p
          \<and> rental_id r \<noteq> rental_id p \<and> ownership_tag r \<noteq> ownership_tag p))"
    using assms
    by (auto simp: create_gpu_rental_def insert_rental_def list_ex_iff split: if_splits)
  then show ?thesis
  proof
    assume *: "db' = db\<lparr>db_rentals := db_rentals db @ [new_rental_row p now]\<rparr>
     \<and> (\<forall>r \<in> set (db_rentals db). client_operation_id r \<noteq> client_operation_id p
          \<and> rental_id r \<noteq> rental_id p \<and> ownership_tag r \<noteq> ownership_tag p)"
    have "row_ok (new_rental_row p now)" by (simp add: row_ok_def new_rental_row_def)
    moreover have "rental_id (new_rental_row p now) = rental_id p"
      "client_operation_id (new_rental_row p now) = client_operation_id p"
      "ownership_tag (new_rental_row p now) = ownership_tag p" by (simp_all add: new_rental_row_def)
    moreover have "ledger_advances db db'"
      using * by (force simp: ledger_advances_def)
    ultimately show ?thesis using *
      by (auto simp: sound_step_def ledger_ok_def rentals_ok_def operations_ok_def notifications_ok_def
          steps_ok_def runtime_providers_ok_def rental_ids_def)
  qed simp
qed

text \<open>Operations on the other tables leave the rentals alone.\<close>

lemma same_rentals_sound:
  assumes "db_rentals db' = db_rentals db"
    and "operation_key ` set (db_operations db) \<subseteq> operation_key ` set (db_operations db')"
    and "ledger_ok db \<Longrightarrow> operations_ok (rental_ids db) (db_operations db')
      \<and> notifications_ok (rental_ids db) (db_notifications db')
      \<and> steps_ok (rental_ids db) (db_provision_steps db')
      \<and> runtime_providers_ok (db_rentals db) (db_runtime_providers db')"
  shows "sound_step db db'"
  unfolding sound_step_def
proof
  assume ok: "ledger_ok db"
  have "rental_ids db' = rental_ids db" using assms(1) by (simp add: rental_ids_def)
  then have "ledger_ok db'" using ok assms(1,3) by (simp add: ledger_ok_def)
  moreover have "ledger_advances db db'" using assms(1,2) advances_refl unfolding ledger_advances_def by metis
  ultimately show "ledger_ok db' \<and> ledger_advances db db'" ..
qed

lemma rental_exists_ids: "rental_exists db i \<longleftrightarrow> i \<in> rental_ids db"
  by (auto simp: rental_exists_def rental_ids_def list_ex_iff)

lemma begin_operation_sound:
  assumes "begin_gpu_rental_operation oid i k n now db = Inr (b, db')"
  shows "sound_step db db'"
proof (cases b)
  case False
  with assms show ?thesis by (auto simp: begin_gpu_rental_operation_def split: if_splits)
next
  case True
  with assms have *: "\<forall>op \<in> set (db_operations db). \<not> same_operation i k n op \<and> op_operation_id op \<noteq> oid"
    "i \<in> rental_ids db"
    and db': "db' = db\<lparr>db_operations := db_operations db @
       [\<lparr>op_operation_id = oid, op_rental_id = i, op_kind = k, op_sequence = n,
         op_status = ''started'', op_provider_request_id = None, op_provider_resource_id = None,
         op_sanitized_error = None, op_started_at_ms = now, op_completed_at_ms = None\<rparr>]\<rparr>"
    by (auto simp: begin_gpu_rental_operation_def list_ex_iff rental_exists_ids split: if_splits)
  show ?thesis
    by (rule same_rentals_sound)
       (use * in \<open>auto simp: db' ledger_ok_def operations_ok_def operation_key_def same_operation_def image_iff\<close>)
qed

lemma update_operations_sound:
  assumes "\<And>op. p op \<Longrightarrow> operation_key (f op) = operation_key op \<and> op_operation_id (f op) = op_operation_id op"
  shows "sound_step db (db\<lparr>db_operations := update_rows p f (db_operations db)\<rparr>)"
proof -
  have keys: "map operation_key (update_rows p f ops) = map operation_key ops"
    "map op_operation_id (update_rows p f ops) = map op_operation_id ops" for ops
    using assms by (auto intro!: map_update_rows)
  have "map op_rental_id (update_rows p f ops) = map op_rental_id ops" for ops
    using assms by (intro map_update_rows) (auto simp: operation_key_def)
  then have "op_rental_id ` set (update_rows p f ops) = op_rental_id ` set ops" for ops by (metis image_set)
  moreover have "operation_key ` set (update_rows p f ops) = operation_key ` set ops" for ops
    using keys(1) by (metis image_set)
  ultimately show ?thesis
    by (intro same_rentals_sound) (auto simp: ledger_ok_def operations_ok_def keys)
qed

lemma finish_operation_sound:
  "finish_gpu_rental_operation oid st rq rs e now db = Inr (b, db') \<Longrightarrow> sound_step db db'"
  by (auto simp: finish_gpu_rental_operation_def Let_def operation_key_def split: if_splits intro!: update_operations_sound)

lemma notification_sound:
  "record_gpu_notification_once i n kind now db = Inr (b, db') \<Longrightarrow> sound_step db db'"
  by (rule same_rentals_sound)
     (auto simp: record_gpu_notification_once_def ledger_ok_def notifications_ok_def list_ex_iff
        rental_exists_ids image_iff image_subset_iff split: if_splits)

lemma update_steps_sound:
  assumes "\<And>st. p st \<Longrightarrow> st_rental_id (f st) = st_rental_id st \<and> st_step_id (f st) = st_step_id st"
  shows "sound_step db (db\<lparr>db_provision_steps := update_rows p f (db_provision_steps db)\<rparr>)"
proof -
  have keys: "map (\<lambda>st. (st_rental_id st, st_step_id st)) (update_rows p f ss) = map (\<lambda>st. (st_rental_id st, st_step_id st)) ss" for ss
    using assms by (intro map_update_rows) auto
  have "map st_rental_id (update_rows p f ss) = map st_rental_id ss" for ss
    using assms by (intro map_update_rows) auto
  then have "st_rental_id ` set (update_rows p f ss) = st_rental_id ` set ss" for ss by (metis image_set)
  then show ?thesis by (intro same_rentals_sound) (auto simp: ledger_ok_def steps_ok_def keys)
qed

lemma begin_step_sound:
  assumes "begin_gpu_provision_step i s digest now db = Inr (b, db')"
  shows "sound_step db db'"
proof (cases "list_ex (same_step i s) (db_provision_steps db)")
  case True
  then show ?thesis
    using assms by (auto simp: begin_gpu_provision_step_def Let_def intro!: update_steps_sound)
next
  case False
  then have *: "\<forall>st \<in> set (db_provision_steps db). \<not> same_step i s st" by (auto simp: list_ex_iff)
  from False assms have "i \<in> rental_ids db" and
    db': "db' = db\<lparr>db_provision_steps := db_provision_steps db @
         [\<lparr>st_rental_id = i, st_step_id = s, st_command_digest = digest, st_status = ''running'',
           st_attempt_count = 1, st_postcondition_json = None, st_sanitized_error = None,
           st_started_at_ms = Some now, st_completed_at_ms = None, st_updated_at_ms = now\<rparr>]\<rparr>"
    by (auto simp: begin_gpu_provision_step_def rental_exists_ids split: if_splits)
  with * show ?thesis
    by (intro same_rentals_sound) (auto simp: ledger_ok_def steps_ok_def same_step_def image_iff)
qed

lemma finish_step_sound:
  "finish_gpu_provision_step from_str i s ok pc e now db = Inr (b, db') \<Longrightarrow> sound_step db db'"
  by (auto simp: finish_gpu_provision_step_def Let_def split: option.splits if_splits intro!: update_steps_sound)


lemma same_except_runtime:
  assumes "ledger_ok db \<Longrightarrow> runtime_providers_ok (db_rentals db) ps"
  shows "sound_step db (db\<lparr>db_runtime_providers := ps\<rparr>)"
  by (rule same_rentals_sound) (use assms in \<open>auto simp: ledger_ok_def\<close>)

lemma filter_runtime_sound: "sound_step db (db\<lparr>db_runtime_providers := filter h (db_runtime_providers db)\<rparr>)"
  by (rule same_except_runtime) (auto simp: ledger_ok_def runtime_providers_ok_def distinct_map_filter)

lemma update_runtime_ok:
  assumes ok: "runtime_providers_ok rs ps"
    and f: "\<And>q. w q \<Longrightarrow> rp_rental_id (f q) = rp_rental_id q"
    and d: "distinct (map rp_provider_id (update_rows w f ps))"
  shows "runtime_providers_ok rs (update_rows w f ps)"
proof -
  have "map rp_rental_id (update_rows w f ps) = map rp_rental_id ps" using f by (rule map_update_rows)
  then show ?thesis using ok d f by (auto simp: runtime_providers_ok_def in_update_rows)
qed

lemma distinct_provider_update:
  assumes "distinct (map rp_rental_id ps)" "distinct (map rp_provider_id ps)"
    and "\<And>q. q \<in> set ps \<Longrightarrow> w q \<Longrightarrow> rp_rental_id q = i \<and> rp_provider_id (f q) = k"
    and "\<And>q. q \<in> set ps \<Longrightarrow> rp_rental_id q \<noteq> i \<Longrightarrow> rp_provider_id q \<noteq> k"
  shows "distinct (map rp_provider_id (update_rows w f ps))"
  using assms
proof (induction ps)
  case (Cons q ps)
  have nw: "\<not> w x" if "x \<in> set ps" "w q" for x
    using Cons.prems(1) Cons.prems(3) [of q] Cons.prems(3) [of x] that by (auto simp: image_iff)
  have IH: "distinct (map rp_provider_id (update_rows w f ps))"
    using Cons by simp
  show ?case
  proof (cases "w q")
    case True
    then have "update_rows w f ps = ps" using nw by (simp add: update_rows_def map_idI)
    moreover have "rp_provider_id x \<noteq> k" if "x \<in> set ps" for x
      using Cons.prems(1,3,4) that True by fastforce
    then have "k \<notin> rp_provider_id ` set ps" by auto
    ultimately show ?thesis using IH True Cons.prems(3) [of q] by (auto simp: update_rows_def)
  next
    case False
    have "rp_provider_id q \<noteq> rp_provider_id (if w x then f x else x)" if x: "x \<in> set ps" for x
    proof (cases "w x")
      case True
      then have "rp_rental_id x = i" "rp_provider_id (f x) = k" using Cons.prems(3) [of x] x by auto
      moreover have "rp_rental_id q \<noteq> rp_rental_id x" using Cons.prems(1) x by auto
      ultimately show ?thesis using Cons.prems(4) [of q] True by simp
    next
      case False
      then show ?thesis using Cons.prems(2) x by auto
    qed
    then show ?thesis using IH False by (auto simp: update_rows_def)
  qed
qed (simp add: update_rows_def)

lemma serving_not_terminated:
  "rental_serving db i \<Longrightarrow> \<exists>r \<in> set (db_rentals db). rental_id r = i \<and> observed_state r \<noteq> TerminatedConfirmed"
  by (auto simp: rental_serving_def serving_def list_ex_iff)

lemma publish_sound:
  assumes "publish guard seq p now db = Inr (b, db')"
  shows "sound_step db db'"
proof -
  let ?ps = "db_runtime_providers db"
  consider "db' = db"
    | (update) w f where "db' = db\<lparr>db_runtime_providers := update_rows w f ?ps\<rparr>"
        "\<And>q. w q \<Longrightarrow> rp_rental_id q = rp_rental_id p"
        "\<And>q. rp_rental_id (f q) = rp_rental_id q" "\<And>q. rp_provider_id (f q) = rp_provider_id p"
        "\<not> list_ex w ?ps \<or> (\<forall>q \<in> set ?ps. rp_rental_id q \<noteq> rp_rental_id p \<longrightarrow> rp_provider_id q \<noteq> rp_provider_id p)"
    | (insert) q where "db' = db\<lparr>db_runtime_providers := ?ps @ [q]\<rparr>" "rp_rental_id q = rp_rental_id p"
        "rp_provider_id q = rp_provider_id p" "rental_serving db (rp_rental_id p)"
        "\<forall>q \<in> set ?ps. rp_rental_id q \<noteq> rp_rental_id p \<and> rp_provider_id q \<noteq> rp_provider_id p"
  proof (cases "rental_serving db (rp_rental_id p)")
    case False
    then have "db' = db" using assms by (simp add: publish_def)
    then show ?thesis by (rule that(1))
  next
    case serving: True
    show ?thesis
    proof (cases "list_ex (\<lambda>q. rp_rental_id q = rp_rental_id p) ?ps")
      case True
      show ?thesis
        by (rule that(2)) (use assms serving True in
          \<open>force simp: publish_def Let_def list_ex_iff split: if_splits\<close>)+
    next
      case False
      show ?thesis
        by (rule that(3)) (use assms serving False in
          \<open>auto simp: publish_def Let_def list_ex_iff split: if_splits\<close>)
    qed
  qed
  then show ?thesis
  proof cases
    case update
    show ?thesis unfolding update(1)
    proof (rule same_except_runtime)
      assume ok: "ledger_ok db"
      then have d: "distinct (map rp_rental_id ?ps)" "distinct (map rp_provider_id ?ps)"
        by (auto simp: ledger_ok_def runtime_providers_ok_def)
      have "distinct (map rp_provider_id (update_rows w f ?ps))"
      proof (cases "list_ex w ?ps")
        case True
        with update d show ?thesis
          by (intro distinct_provider_update [where i = "rp_rental_id p" and k = "rp_provider_id p"]) auto
      next
        case False
        then have "update_rows w f ?ps = ?ps" by (auto simp: update_rows_def list_ex_iff intro: map_idI)
        then show ?thesis using d by simp
      qed
      then show "runtime_providers_ok (db_rentals db) (update_rows w f ?ps)"
        using ok update by (intro update_runtime_ok) (auto simp: ledger_ok_def)
    qed
  next
    case insert
    show ?thesis unfolding insert(1)
      by (rule same_except_runtime)
         (use insert serving_not_terminated [OF insert(4)] in \<open>auto simp: ledger_ok_def runtime_providers_ok_def\<close>)
  qed simp
qed

lemma upsert_sound: "upsert_gpu_runtime_provider url p now db = Inr (b, db') \<Longrightarrow> sound_step db db'"
  by (auto simp: upsert_gpu_runtime_provider_def dest: publish_sound)

lemma refresh_sound: "refresh_gpu_runtime_provider url p now db = Inr (b, db') \<Longrightarrow> sound_step db db'"
  by (auto simp: refresh_gpu_runtime_provider_def dest: publish_sound)

lemma remove_sound: "sound_step db (snd (remove_gpu_runtime_provider i db))"
  by (simp add: remove_gpu_runtime_provider_def Let_def filter_runtime_sound)

lemma prune_sound: "sound_step db (snd (prune_terminal_gpu_runtime_providers db))"
  by (simp add: prune_terminal_gpu_runtime_providers_def Let_def filter_runtime_sound)

lemma update_runtime_sound:
  assumes "\<And>q. rp_rental_id (f q) = rp_rental_id q" "\<And>q. rp_provider_id (f q) = rp_provider_id q"
  shows "sound_step db (db\<lparr>db_runtime_providers := update_rows w f (db_runtime_providers db)\<rparr>)"
proof (rule same_except_runtime)
  assume "ledger_ok db"
  moreover have "map rp_provider_id (update_rows w f ps) = map rp_provider_id ps" for ps
    using assms(2) by (rule map_update_rows)
  ultimately show "runtime_providers_ok (db_rentals db) (update_rows w f (db_runtime_providers db))"
    using assms(1) by (intro update_runtime_ok) (auto simp: ledger_ok_def runtime_providers_ok_def)
qed

lemma set_health_sound: "set_gpu_runtime_provider_health i h now db = Inr (b, db') \<Longrightarrow> sound_step db db'"
  by (auto simp: set_gpu_runtime_provider_health_def Let_def split: if_splits intro!: update_runtime_sound)

lemma set_health_and_price_sound:
  "set_gpu_runtime_provider_health_and_price i h pr ctx now db = Inr (b, db') \<Longrightarrow> sound_step db db'"
  by (auto simp: set_gpu_runtime_provider_health_and_price_def Let_def split: if_splits intro!: update_runtime_sound)


section \<open>Interleaved operations\<close>

text \<open>One operation of one process on the ledger: the process and the time it acts at are
  indices of the relation.  The reads of the ledger change nothing and have no rule.\<close>

inductive ledger_op :: "string \<Rightarrow> int \<Rightarrow> gpu_db \<Rightarrow> gpu_db \<Rightarrow> bool" where
  op_create: "create_gpu_rental from_str p now db = Inr (r, db') \<Longrightarrow> ledger_op own now db db'"
| op_creation: "ledger_op own now db (snd (request_gpu_rental_creation i now db))"
| op_termination: "ledger_op own now db (snd (request_gpu_rental_termination i now db))"
| op_claim: "claim_due_gpu_rentals_inner own prov now ttl limit db = Inr (ls, db') \<Longrightarrow> ledger_op own now db db'"
| op_update: "lease_owner l = own \<Longrightarrow> ledger_op own now db (snd (update_gpu_rental l u now db))"
| op_release: "lease_owner l = own \<Longrightarrow> ledger_op own now db (snd (release_gpu_rental_lease l n now db))"
| op_begin: "begin_gpu_rental_operation oid i k n now db = Inr (b, db') \<Longrightarrow> ledger_op own now db db'"
| op_finish: "finish_gpu_rental_operation oid st rq rs e now db = Inr (b, db') \<Longrightarrow> ledger_op own now db db'"
| op_notify: "record_gpu_notification_once i n kind now db = Inr (b, db') \<Longrightarrow> ledger_op own now db db'"
| op_begin_step: "begin_gpu_provision_step i s digest now db = Inr (b, db') \<Longrightarrow> ledger_op own now db db'"
| op_finish_step: "finish_gpu_provision_step from_str i s ok pc e now db = Inr (b, db') \<Longrightarrow> ledger_op own now db db'"
| op_upsert: "upsert_gpu_runtime_provider url q now db = Inr (b, db') \<Longrightarrow> ledger_op own now db db'"
| op_refresh: "refresh_gpu_runtime_provider url q now db = Inr (b, db') \<Longrightarrow> ledger_op own now db db'"
| op_remove: "ledger_op own now db (snd (remove_gpu_runtime_provider i db))"
| op_prune: "ledger_op own now db (snd (prune_terminal_gpu_runtime_providers db))"
| op_health: "set_gpu_runtime_provider_health i h now db = Inr (b, db') \<Longrightarrow> ledger_op own now db db'"
| op_health_price:
    "set_gpu_runtime_provider_health_and_price i h pr ctx now db = Inr (b, db') \<Longrightarrow> ledger_op own now db db'"

lemmas op_sound = create_sound request_creation_sound request_termination_sound claim_sound update_sound
  release_sound begin_operation_sound finish_operation_sound notification_sound begin_step_sound
  finish_step_sound upsert_sound refresh_sound remove_sound prune_sound set_health_sound
  set_health_and_price_sound

lemma ledger_op_sound: "ledger_op own now db db' \<Longrightarrow> sound_step db db'"
  by (induction rule: ledger_op.induct) (auto intro: op_sound)

inductive ledger_run :: "gpu_db \<Rightarrow> gpu_db \<Rightarrow> bool" where
  run_refl: "ledger_run db db"
| run_step: "ledger_run a b \<Longrightarrow> ledger_op own now b c \<Longrightarrow> ledger_run a c"

lemma ledger_run_sound: "ledger_run a b \<Longrightarrow> sound_step a b"
  by (induction rule: ledger_run.induct) (auto intro: sound_step_trans ledger_op_sound)

lemma ledger_ok_empty [simp]: "ledger_ok empty_db"
  by (simp add: ledger_ok_def empty_db_def rentals_ok_def operations_ok_def notifications_ok_def
      steps_ok_def runtime_providers_ok_def rental_ids_def)

section \<open>A concrete ledger\<close>

definition sample_params :: gpu_rental_create_params where
  "sample_params = \<lparr> rental_id = ''gpu-1'', installation_id = ''inst'', client_operation_id = ''1'',
     provider = ''vast'', recipe_id = ''r1'', recipe_revision = ''r1-a'', offer_snapshot_json = ''{}'',
     quote_expires_at_ms = None, max_hourly_microusd = 3000000, max_total_microusd = 9000000,
     terminate_at_ms = 1000000, enforcement_class = LocalControllerDependent,
     ownership_tag = ''pft-inst-gpu-1'' \<rparr>"

definition sample_db :: gpu_db where
  "sample_db = empty_db\<lparr>db_rentals := [new_rental_row sample_params 0]\<rparr>"

definition sample_lease :: gpu_rental_lease where
  "sample_lease = \<lparr> rental = leased ''a'' 110 10 (new_rental_row sample_params 0),
     lease_owner = ''a'', lease_until_ms = 110 \<rparr>"

definition sample_leased_db :: gpu_db where
  "sample_leased_db = empty_db\<lparr>db_rentals := [leased ''a'' 110 10 (new_rental_row sample_params 0)]\<rparr>"

lemma sample_db_ok: "ledger_ok sample_db"
  by (simp add: ledger_ok_def sample_db_def empty_db_def rentals_ok_def operations_ok_def
      notifications_ok_def steps_ok_def runtime_providers_ok_def rental_ids_def row_ok_def new_rental_row_def)

lemma sample_claim:
  "claim_due_gpu_rentals_inner ''a'' None 10 100 8 sample_db = Inr ([sample_lease], sample_leased_db)"
  by code_simp


text \<open>C27: Whatever processes do to the ledger in whatever order, no uniqueness or foreign-key
  constraint is ever broken, no rental disappears, and every rental keeps the terms it was
  authorised with.  Its state sequence never decreases and moves whenever one of its states does;
  a resource id, once known, is never forgotten; and a rental whose termination is confirmed
  stays so, holds no lease and is in no runtime catalogue.\<close>

theorem ledger_history_sound:
  assumes "ledger_ok db" and "ledger_run db db'" and "r \<in> set (db_rentals db)"
  shows "ledger_ok db' \<and> (\<exists>r' \<in> set (db_rentals db'). advances r r')"
  using ledger_run_sound [OF assms(2)] assms by (auto simp: sound_step_def ledger_advances_def)


theorem ledger_history_sound_witness:
  "ledger_ok sample_db
   \<and> ledger_run sample_db (snd (request_gpu_rental_termination ''gpu-1'' 20 sample_db))
   \<and> ledger_ok (snd (request_gpu_rental_termination ''gpu-1'' 20 sample_db))
   \<and> (\<exists>r' \<in> set (db_rentals (snd (request_gpu_rental_termination ''gpu-1'' 20 sample_db))).
        advances (new_rental_row sample_params 0) r')"
proof -
  have run: "ledger_run sample_db (snd (request_gpu_rental_termination ''gpu-1'' 20 sample_db))"
    by (rule run_step [OF run_refl op_termination])
  have "new_rental_row sample_params 0 \<in> set (db_rentals sample_db)" by (simp add: sample_db_def)
  from ledger_history_sound [OF sample_db_ok run this] sample_db_ok run show ?thesis by simp
qed


end
