(* ===== verification/Gpu_Leases.thy ===== *)
theory Gpu_Leases
  imports Gpu_Invariants
begin

text \<open>What the controller processes get from the ledger: a lease that other processes cannot take
  away before it expires, operations that begin once, and creation that is idempotent.\<close>

section \<open>Leases\<close>

text \<open>The row a lease was given for still carries it.\<close>

definition lease_intact :: "gpu_rental_lease \<Rightarrow> gpu_db \<Rightarrow> bool" where
  "lease_intact l db \<longleftrightarrow>
     (\<exists>r \<in> set (db_rentals db). holds_lease l r \<and> controller_lease_until_ms r = lease_until_ms l)"

lemma lease_intact_update:
  assumes "lease_intact l db"
    and "\<And>r. r \<in> set (db_rentals db) \<Longrightarrow> holds_lease l r \<Longrightarrow> controller_lease_until_ms r = lease_until_ms l \<Longrightarrow> p r \<Longrightarrow>
      holds_lease l (f r) \<and> controller_lease_until_ms (f r) = lease_until_ms l"
    and "db_rentals db' = update_rows p f (db_rentals db)"
  shows "lease_intact l db'"
proof -
  from assms(1) obtain r where r: "r \<in> set (db_rentals db)" "holds_lease l r"
    "controller_lease_until_ms r = lease_until_ms l" by (auto simp: lease_intact_def)
  then have "(if p r then f r else r) \<in> set (db_rentals db')" using update_rowsI assms(3) by metis
  then show ?thesis using assms(2) [OF r] r unfolding lease_intact_def by metis
qed

lemma lease_intact_set:
  "lease_intact l db \<Longrightarrow> (\<And>r. p r \<Longrightarrow> holds_lease l r \<Longrightarrow>
     holds_lease l (f r) \<and> controller_lease_until_ms (f r) = controller_lease_until_ms r) \<Longrightarrow>
   lease_intact l (db\<lparr>db_rentals := update_rows p f (db_rentals db)\<rparr>)"
  by (erule lease_intact_update) auto

lemma lease_intact_same: "lease_intact l db \<Longrightarrow> db_rentals db' = db_rentals db \<Longrightarrow> lease_intact l db'"
  by (simp add: lease_intact_def)

lemma publish_rentals: "publish g s p now db = Inr (b, db') \<Longrightarrow> db_rentals db' = db_rentals db"
  by (auto simp: publish_def Let_def split: if_splits)

lemma other_op_keeps_lease:
  assumes "ledger_op own now db db'" "ledger_ok db" "own \<noteq> lease_owner l" "now < lease_until_ms l"
    and "lease_intact l db"
  shows "lease_intact l db'"
  using assms
proof (induction rule: ledger_op.induct)
  case (op_create from_str p now db r db' own)
  then show ?case
    by (auto simp: create_gpu_rental_def insert_rental_def lease_intact_def split: if_splits)
next
  case (op_creation own now db i)
  then show ?case
    by (auto intro!: lease_intact_set simp: request_gpu_rental_creation_def Let_def holds_lease_def)
next
  case (op_termination own now db i)
  then show ?case
    by (auto intro!: lease_intact_set simp: request_gpu_rental_termination_def Let_def holds_lease_def)
next
  case (op_claim own prov now ttl limit db ls db')
  obtain p where p: "\<And>r. r \<in> set (db_rentals db) \<Longrightarrow> p r \<Longrightarrow> due_rental own prov now r"
    and db': "db' = db\<lparr>db_rentals := update_rows p (leased own (saturating_add now (max ttl 1)) now) (db_rentals db)\<rparr>"
    by (rule claim_rows [OF op_claim(1,2)]) blast
  have not_p: "\<not> p r" if "r \<in> set (db_rentals db)" "holds_lease l r" "controller_lease_until_ms r = lease_until_ms l" for r
    using p [of r] that op_claim(3,4) by (auto simp: due_rental_def lease_free_def holds_lease_def)
  show ?case
    by (rule lease_intact_update [OF op_claim(5), where p = p and f = "leased own (saturating_add now (max ttl 1)) now"])
       (use not_p in \<open>auto simp: db'\<close>)
next
  case (op_update k own now db u)
  show ?case
    by (rule lease_intact_update [OF op_update(5), where p = "holds_lease k" and f = "update_columns u now"])
       (use op_update in \<open>auto simp: update_gpu_rental_def Let_def holds_lease_def\<close>)
next
  case (op_release k own now db n)
  then show ?case
    by (auto intro!: lease_intact_set simp: release_gpu_rental_lease_def holds_lease_def)
next
  case (op_upsert url q now db b db' own)
  then show ?case by (auto simp: upsert_gpu_runtime_provider_def intro: lease_intact_same dest!: publish_rentals)
next
  case (op_refresh url q now db b db' own)
  then show ?case by (auto simp: refresh_gpu_runtime_provider_def intro: lease_intact_same dest!: publish_rentals)
qed (auto simp: begin_gpu_rental_operation_def finish_gpu_rental_operation_def Let_def
    record_gpu_notification_once_def begin_gpu_provision_step_def finish_gpu_provision_step_def
    remove_gpu_runtime_provider_def prune_terminal_gpu_runtime_providers_def
    set_gpu_runtime_provider_health_def set_gpu_runtime_provider_health_and_price_def
    split: if_splits option.splits elim!: lease_intact_same)

text \<open>Operations of other processes before a given time.\<close>

inductive others_run :: "string \<Rightarrow> int \<Rightarrow> gpu_db \<Rightarrow> gpu_db \<Rightarrow> bool" where
  others_refl: "others_run own t db db"
| others_step: "others_run own t a b \<Longrightarrow> ledger_op other now b c \<Longrightarrow> other \<noteq> own \<Longrightarrow> now < t \<Longrightarrow>
    others_run own t a c"

lemma others_run_keeps_lease:
  assumes "others_run own t db db'" "ledger_ok db" "lease_intact l db" "lease_owner l = own" "lease_until_ms l = t"
  shows "ledger_ok db' \<and> lease_intact l db'"
  using assms
proof (induction rule: others_run.induct)
  case (others_step own t a b other now c)
  then have "ledger_ok b" "lease_intact l b" by auto
  moreover have "ledger_ok c"
    using ledger_op_sound [OF others_step(2)] \<open>ledger_ok b\<close> by (simp add: sound_step_def)
  ultimately show ?case using other_op_keeps_lease [OF others_step(2)] others_step by simp
qed simp

lemma update_result:
  "ledger_ok db \<Longrightarrow> fst (update_gpu_rental l u now db) \<longleftrightarrow> list_ex (holds_lease l) (db_rentals db)"
  by (simp add: update_gpu_rental_def Let_def holds_lease_count)

lemma claim_gives_lease:
  assumes "claim_due_gpu_rentals_inner own prov now ttl limit db = Inr (ls, db')" "ledger_ok db" "l \<in> set ls"
  shows "lease_intact l db' \<and> lease_owner l = own \<and> rental l \<in> set (db_rentals db')"
proof -
  obtain p where db': "db' = db\<lparr>db_rentals := update_rows p (leased own (saturating_add now (max ttl 1)) now) (db_rentals db)\<rparr>"
    and ls: "ls = map (\<lambda>r. \<lparr>rental = leased own (saturating_add now (max ttl 1)) now r,
       lease_owner = own, lease_until_ms = saturating_add now (max ttl 1)\<rparr>) (filter p (db_rentals db))"
    by (rule claim_rows [OF assms(1,2)]) blast
  from assms(3) obtain r where r: "r \<in> set (db_rentals db)" "p r"
    and l: "l = \<lparr>rental = leased own (saturating_add now (max ttl 1)) now r,
       lease_owner = own, lease_until_ms = saturating_add now (max ttl 1)\<rparr>" by (auto simp: ls)
  have "leased own (saturating_add now (max ttl 1)) now r \<in> set (db_rentals db')"
    using r by (auto simp: db' in_update_rows)
  moreover from this have "lease_intact l db'"
    unfolding lease_intact_def by (rule rev_bexI) (simp add: holds_lease_def leased_def l)
  ultimately show ?thesis by (simp add: l)
qed

lemma updated_lease_gone:
  assumes "ledger_ok db"
  shows "\<not> list_ex (holds_lease l) (db_rentals (snd (update_gpu_rental l u now db)))"
proof -
  have "db_rentals (snd (update_gpu_rental l u now db)) = update_rows (holds_lease l) (update_columns u now) (db_rentals db)"
    by (simp add: update_gpu_rental_def Let_def)
  moreover have "\<not> holds_lease l (update_columns u now r)" for r
    by (simp add: update_columns_def holds_lease_def)
  ultimately show ?thesis by (auto simp: list_ex_iff update_rows_def)
qed

text \<open>C9: A lease is exclusive and good for one update.  Until it expires, nothing that other
  processes do to the ledger takes it away: the holder's update still finds its row, is applied,
  and a second update under the same lease is refused.\<close>

theorem lease_is_exclusive:
  assumes "ledger_ok db"
    and "claim_due_gpu_rentals_inner own prov now ttl limit db = Inr (ls, db1)" and "l \<in> set ls"
    and "others_run own (lease_until_ms l) db1 db2"
  shows "fst (update_gpu_rental l u t db2)
       \<and> \<not> fst (update_gpu_rental l u' t' (snd (update_gpu_rental l u t db2)))"
proof -
  have "ledger_ok db1" using claim_sound [OF assms(2)] assms(1) by (simp add: sound_step_def)
  with claim_gives_lease [OF assms(2,1,3)] others_run_keeps_lease [OF assms(4)]
  have ok: "ledger_ok db2" and intact: "lease_intact l db2" by auto
  have "list_ex (holds_lease l) (db_rentals db2)"
    using intact by (auto simp: lease_intact_def list_ex_iff)
  moreover have "ledger_ok (snd (update_gpu_rental l u t db2))"
    using update_sound ok by (simp add: sound_step_def)
  ultimately show ?thesis using ok updated_lease_gone update_result by blast
qed


theorem lease_is_exclusive_witness:
  "ledger_ok sample_db
   \<and> claim_due_gpu_rentals_inner ''a'' None 10 100 8 sample_db = Inr ([sample_lease], sample_leased_db)
   \<and> others_run ''a'' 110 sample_leased_db (snd (request_gpu_rental_termination ''gpu-1'' 20 sample_leased_db))
   \<and> fst (update_gpu_rental sample_lease no_update 30
       (snd (request_gpu_rental_termination ''gpu-1'' 20 sample_leased_db)))"
proof -
  have run: "others_run ''a'' 110 sample_leased_db (snd (request_gpu_rental_termination ''gpu-1'' 20 sample_leased_db))"
    by (rule others_step [OF others_refl op_termination [where own = "''b''"]]) simp_all
  have "lease_until_ms sample_lease = 110" by (simp add: sample_lease_def)
  then show ?thesis
    using lease_is_exclusive [OF sample_db_ok sample_claim, of sample_lease _ no_update 30] run sample_db_ok sample_claim
    by simp
qed

section \<open>Operations that happen once\<close>

lemma begin_true_recorded:
  assumes "begin_gpu_rental_operation oid i k n now db = Inr (True, db1)"
  shows "(i, k, n) \<in> operation_key ` set (db_operations db1)"
  using assms by (auto simp: begin_gpu_rental_operation_def operation_key_def split: if_splits)

lemma begin_recorded:
  assumes "(i, k, n) \<in> operation_key ` set (db_operations db)"
  shows "begin_gpu_rental_operation oid i k n now db = Inr (False, db)"
proof -
  have "list_ex (same_operation i k n) (db_operations db)"
    using assms by (auto simp: list_ex_iff operation_key_def same_operation_def)
  then show ?thesis by (simp add: begin_gpu_rental_operation_def)
qed

text \<open>An operation of a kind begins at most once per rental and state sequence.  After one
  process has begun it, no matter what happens to the ledger in between, every later attempt is
  told that it has begun already and changes nothing.\<close>

lemma operation_begins_once:
  assumes "ledger_ok db" and "begin_gpu_rental_operation oid i k n now db = Inr (True, db1)"
    and "ledger_run db1 db2"
  shows "begin_gpu_rental_operation oid' i k n now' db2 = Inr (False, db2)"
proof (rule begin_recorded)
  have "ledger_ok db1" using begin_operation_sound [OF assms(2)] assms(1) by (simp add: sound_step_def)
  then have "ledger_advances db1 db2" using ledger_run_sound [OF assms(3)] by (simp add: sound_step_def)
  then show "(i, k, n) \<in> operation_key ` set (db_operations db2)"
    using begin_true_recorded [OF assms(2)] by (auto simp: ledger_advances_def)
qed

lemma operation_begins_once_witness:
  "ledger_ok sample_db
   \<and> map_prod id (\<lambda>db. db_operations db \<noteq> []) (projr (begin_gpu_rental_operation ''o'' ''gpu-1'' OpCreate 1 5 sample_db))
       = (True, True)
   \<and> begin_gpu_rental_operation ''p'' ''gpu-1'' OpCreate 1 6
       (snd (projr (begin_gpu_rental_operation ''o'' ''gpu-1'' OpCreate 1 5 sample_db)))
     = Inr (False, snd (projr (begin_gpu_rental_operation ''o'' ''gpu-1'' OpCreate 1 5 sample_db)))"
proof -
  obtain db1 where b: "begin_gpu_rental_operation ''o'' ''gpu-1'' OpCreate 1 5 sample_db = Inr (True, db1)"
    and ne: "db_operations db1 \<noteq> []"
    by (simp add: begin_gpu_rental_operation_def sample_db_def empty_db_def rental_exists_def
        new_rental_row_def sample_params_def)
  from operation_begins_once [OF sample_db_ok b run_refl] show ?thesis using sample_db_ok ne by (simp add: b)
qed

lemma find_unique:
  assumes "distinct (map key xs)" "x \<in> set xs"
  shows "find (\<lambda>y. key y = key x) xs = Some x"
proof -
  obtain y where y: "find (\<lambda>y. key y = key x) xs = Some y"
    using assms(2) by (cases "find (\<lambda>y. key y = key x) xs") (auto simp: find_None_iff)
  then have "y \<in> set xs" "key y = key x" by (auto simp: find_Some_iff)
  with distinct_key [OF assms(1) _ assms(2)] y show ?thesis by simp
qed

lemma created_rental:
  assumes "create_gpu_rental from_str p now db = Inr (r, db1)"
  shows "r \<in> set (db_rentals db1) \<and> client_operation_id r = client_operation_id p"
proof -
  have "get_gpu_rental_by_client_operation (client_operation_id p) db1 = Some r"
    using assms by (auto simp: create_gpu_rental_def ok_or_def split: option.splits if_splits)
  then show ?thesis
    by (auto simp: get_gpu_rental_by_client_operation_def find_Some_iff)
qed

lemma matches_create_terms:
  "terms r = terms r' \<Longrightarrow> gpu_rental_matches_create r p = gpu_rental_matches_create r' p"
  by (simp add: terms_eq_iff gpu_rental_matches_create_def)


lemma sample_create:
  "create_gpu_rental (\<lambda>_. Some (JObject [])) sample_params 0 empty_db = Inr (new_rental_row sample_params 0, sample_db)"
  by code_simp


end
