(* ===== verification/Gpu_Reconcile.thy ===== *)
theory Gpu_Reconcile
  imports Gpu_Controller Gpu_Leases
begin

text \<open>What a reconciliation guarantees, whatever the provider, the credential store and the probe
  answer, and also when a handler fails half-way.  A guarantee is a reflexive and transitive relation
  between the states before and after.  The locale below lists what such a relation has to allow,
  one law per kind of step the controller makes, and derives from the laws that every handler and
  the whole reconciliation keep it.  Each property of this theory interprets the locale with its
  own relation.\<close>

section \<open>Kinds of steps\<close>

text \<open>Ledger operations that touch neither a rental nor the set of operations begun.\<close>

inductive side_op :: "int \<Rightarrow> gpu_db \<Rightarrow> gpu_db \<Rightarrow> bool" where
  side_finish: "finish_gpu_rental_operation oid st rq rs e now db = Inr (b, db') \<Longrightarrow> side_op now db db'"
| side_begin_step: "begin_gpu_provision_step i s digest now db = Inr (b, db') \<Longrightarrow> side_op now db db'"
| side_finish_step: "finish_gpu_provision_step from_str i s ok pc e now db = Inr (b, db') \<Longrightarrow> side_op now db db'"
| side_upsert: "upsert_gpu_runtime_provider url q now db = Inr (b, db') \<Longrightarrow> side_op now db db'"
| side_refresh: "refresh_gpu_runtime_provider url q now db = Inr (b, db') \<Longrightarrow> side_op now db db'"
| side_prune: "side_op now db (snd (prune_terminal_gpu_runtime_providers db))"
| side_health: "set_gpu_runtime_provider_health i h now db = Inr (b, db') \<Longrightarrow> side_op now db db'"
| side_health_price:
    "set_gpu_runtime_provider_health_and_price i h pr ctx now db = Inr (b, db') \<Longrightarrow> side_op now db db'"

text \<open>The operation a call to the provider belongs to; queries belong to none.\<close>

fun call_key :: "provider_call \<Rightarrow> (string \<times> gpu_operation_kind \<times> int) option" where
  "call_key (CreateCall i n _) = Some (i, OpCreate, n)"
| "call_key (TerminateCall i n _) = Some (i, OpTerminate, n)"
| "call_key (GetCall _ _) = None"
| "call_key (ListCall _ _) = None"

text \<open>What a request sent for a lease may ask for: the termination of the rental's instance, or the
  creation of one from an offer that satisfies the rental's verified recipe and hourly limit, under
  the rental's own tag and operation id.\<close>

fun sendable :: "gpu_rental_lease \<Rightarrow> int \<Rightarrow> provider_call \<Rightarrow> bool" where
  "sendable l now (CreateCall i n rq) \<longleftrightarrow>
     cr_ownership_tag rq = ownership_tag (rental l) \<and> cr_client_operation_id rq = client_operation_id (rental l)
   \<and> (\<exists>recipe. rc_manifest_verified recipe \<and> rc_image recipe = cr_image rq
        \<and> validate_for (cr_offer rq) (recipe_request recipe (max_hourly_microusd (rental l))) now = Inr ())"
| "sendable l now _ \<longleftrightarrow> True"

section \<open>Guarantees of the handlers\<close>

lemma on_db_guarantees: "(\<And>s. R s (s\<lparr>ctl_db := snd (f (ctl_db s))\<rparr>)) \<Longrightarrow> guarantees R (on_db f)"
  by (rule guaranteesI) (simp add: on_db_def case_prod_beta)

locale reconciliation = guarantee R for R :: "'w ctl \<Rightarrow> 'w ctl \<Rightarrow> bool" +
  fixes mine :: "gpu_rental_lease \<Rightarrow> bool" and now :: int
  assumes world: "R s (s\<lparr>ctl_world := w\<rparr>)"
    and query: "call_key e = None \<Longrightarrow> R s (s\<lparr>ctl_world := w, ctl_log := ctl_log s @ [e]\<rparr>)"
    and side: "side_op now (ctl_db s) db' \<Longrightarrow> R s (s\<lparr>ctl_db := db'\<rparr>)"
    and begun: "mine l \<Longrightarrow> rental_id (rental l) = i \<Longrightarrow> sendable l now e \<Longrightarrow>
      begin_gpu_rental_operation oid i k n now (ctl_db s) = Inr (True, db') \<Longrightarrow> call_key e = Some (i, k, n) \<Longrightarrow>
      R s (s\<lparr>ctl_db := db', ctl_world := w, ctl_log := ctl_log s @ [e]\<rparr>)"
    and updated: "mine l \<Longrightarrow> up_observed_state u \<notin> {Some TerminatedConfirmed, Some Failed} \<Longrightarrow>
      R s (s\<lparr>ctl_db := snd (update_gpu_rental l u now (ctl_db s))\<rparr>)"
    and failed: "mine l \<Longrightarrow> \<not> may_be_billable (rental l) \<Longrightarrow> up_observed_state u = Some Failed \<Longrightarrow>
      R s (s\<lparr>ctl_db := snd (update_gpu_rental l u now (ctl_db s))\<rparr>)"
    and released: "mine l \<Longrightarrow> R s (s\<lparr>ctl_db := snd (release_gpu_rental_lease l n now (ctl_db s))\<rparr>)"
begin

lemma outside_keeps: "guarantees R (outside f)"
  by (rule guaranteesI) (auto simp: outside_def world split: prod.splits)

lemma query_keeps: "(\<And>x. call_key (e x) = None) \<Longrightarrow> guarantees R (logged e f)"
  by (rule guaranteesI) (auto simp: logged_def query split: prod.splits)

lemma side_keeps: "(\<And>db x db'. f db = Inr (x, db') \<Longrightarrow> side_op now db db') \<Longrightarrow> guarantees R (try_db f)"
  by (rule guaranteesI) (auto simp: try_db_def side refl split: sum.splits prod.splits)

lemma begun_keeps:
  assumes "mine l" and "rental_id (rental l) = i" and "sendable l now e" and "call_key e = Some (i, k, n)" and "guarantees R m" and "\<And>x. guarantees R (f x)"
  shows "guarantees R (bind (try_db (begin_gpu_rental_operation oid i k n now))
    (\<lambda>began. if \<not> began then m else bind (logged (\<lambda>_. e) g) f))"
proof (rule guaranteesI)
  fix s
  show "R s (snd (bind (try_db (begin_gpu_rental_operation oid i k n now))
    (\<lambda>began. if \<not> began then m else bind (logged (\<lambda>_. e) g) f) s))"
  proof (cases "begin_gpu_rental_operation oid i k n now (ctl_db s)")
    case (Inl err)
    then show ?thesis by (simp add: run_simps try_db_def refl)
  next
    case (Inr p)
    obtain b db' where p: "p = (b, db')" by fastforce
    show ?thesis
    proof (cases b)
      case True
      obtain x w where g: "g (ctl_world s) = (x, w)" by fastforce
      from begun [OF assms(1-3) _ assms(4)] Inr p True
      have "R s (s\<lparr>ctl_db := db', ctl_world := w, ctl_log := ctl_log s @ [e]\<rparr>)" by simp
      from trans [OF this guaranteesD [OF assms(6) [of x]]]
      show ?thesis by (simp add: run_simps try_db_def logged_def Inr p True g)
    next
      case False
      then have "db' = ctl_db s" using Inr p by (auto simp: begin_gpu_rental_operation_def split: if_splits)
      then show ?thesis using guaranteesD [OF assms(5)] by (simp add: run_simps try_db_def Inr p False)
    qed
  qed
qed

lemma with_costs_observed [simp]: "up_observed_state (with_costs r u) = up_observed_state u"
  by (simp add: with_costs_def)

lemma update_keeps:
  "mine l \<Longrightarrow> up_observed_state u \<notin> {Some TerminatedConfirmed, Some Failed} \<Longrightarrow> guarantees R (apply_update c l u now)"
  unfolding apply_update_def
  by (intro keeps on_db_guarantees updated) simp_all

lemma failure_keeps: "mine l \<Longrightarrow> guarantees R (record_terminal_failure c l code msg now)"
proof (cases "may_be_billable (rental l)")
  case True
  assume "mine l"
  with True show ?thesis
    unfolding record_terminal_failure_def Let_def by (intro keeps update_keeps) (auto simp: no_update_def)
next
  case False
  assume "mine l"
  have "guarantees R (on_db (update_gpu_rental l u now) :: ('w ctl, bool) action)" if "up_observed_state u = Some Failed" for u
    by (intro on_db_guarantees failed [OF \<open>mine l\<close> False that])
  with False show ?thesis
    unfolding record_terminal_failure_def Let_def apply_update_def by (intro keeps) auto
qed

lemma release_keeps: "mine l \<Longrightarrow> guarantees R (release_later c l now)"
  unfolding release_later_def
  by (intro keeps on_db_guarantees released)

lemma find_owned_keeps: "guarantees R (find_owned c r)"
  unfolding find_owned_def by (intro keeps query_keeps) simp

lemma get_instance_keeps: "guarantees R (get_instance_of c res)"
  unfolding get_instance_of_def by (intro query_keeps) simp

lemma credential_keeps: "guarantees R (or_credential_error r)"
  unfolding or_credential_error_def by (rule keeps)

lemma finish_keeps: "guarantees R (try_db (finish_gpu_rental_operation oid st rq rs e now))"
  by (rule side_keeps) (rule side_finish)

lemmas call_keeps = outside_keeps find_owned_keeps get_instance_keeps credential_keeps finish_keeps
  release_keeps failure_keeps

lemma record_retry_keeps: "mine l \<Longrightarrow> guarantees R (record_retry c l e now)"
  unfolding record_retry_def by (intro keeps update_keeps) (auto simp: no_update_def)

lemma termination_retry_keeps: "mine l \<Longrightarrow> guarantees R (record_termination_retry c l e now)"
  unfolding record_termination_retry_def by (intro keeps update_keeps) (auto simp: no_update_def)

lemmas record_keeps = call_keeps record_retry_keeps termination_retry_keeps

lemma send_termination_keeps: "mine l \<Longrightarrow> guarantees R (send_termination c l res now)"
  unfolding send_termination_def record_termination_def Let_def
  by (intro bind_keeps outside_keeps begun_keeps [of l]) (auto intro!: keeps record_keeps update_keeps simp: no_update_def)

lemma adopt_keeps: "mine l \<Longrightarrow> guarantees R (adopt_instance c l inst now)"
  unfolding adopt_instance_def by (intro keeps update_keeps) (auto simp: no_update_def)

lemma send_creation_keeps:
  "mine l \<Longrightarrow> sendable l now (CreateCall (rental_id (rental l)) (state_sequence (rental l)) rq) \<Longrightarrow>
   guarantees R (send_creation c l rq now)"
  unfolding send_creation_def record_creation_def Let_def
  by (intro bind_keeps outside_keeps begun_keeps [of l]) (auto intro!: keeps record_keeps adopt_keeps)

lemma create_with_credentials_keeps:
  assumes "mine l" and "rc_manifest_verified rcp"
    and "validate_for off (recipe_request rcp (max_hourly_microusd (rental l))) now = Inr u"
  shows "guarantees R (create_with_credentials c l rcp off creds now)"
proof -
  have "guarantees R (send_creation c l (creation_request (rental l) rcp off token hf) now)" for token hf
    using assms by (intro send_creation_keeps) (auto simp: creation_request_def)
  then show ?thesis
    unfolding create_with_credentials_def using assms(1) by (intro keeps record_keeps)
qed

lemma create_keeps: "mine l \<Longrightarrow> guarantees R (reconcile_create c l now)"
  unfolding reconcile_create_def by (intro keeps record_keeps adopt_keeps create_with_credentials_keeps) simp_all

lemma allocating_keeps: "mine l \<Longrightarrow> guarantees R (reconcile_allocating c l now)"
  unfolding reconcile_allocating_def by (intro keeps record_keeps update_keeps) (auto simp: no_update_def)

lemma run_step_keeps: "guarantees R (run_step c l step contract pc now)"
  unfolding run_step_def by (intro keeps side_keeps) (auto intro: side_begin_step side_finish_step)

lemma publish_ready_keeps: "mine l \<Longrightarrow> guarantees R (publish_ready c l rcp url now)"
  unfolding publish_ready_def by (intro keeps update_keeps side_keeps) (auto simp: no_update_def intro: side_upsert)

lemma probe_readiness_keeps: "mine l \<Longrightarrow> guarantees R (probe_readiness c l rcp url creds ready now)"
  unfolding probe_readiness_def by (intro keeps record_keeps run_step_keeps publish_ready_keeps)

lemma resolve_endpoint_keeps: "mine l \<Longrightarrow> guarantees R (resolve_endpoint c l rcp inst now)"
  unfolding resolve_endpoint_def by (intro keeps record_keeps probe_readiness_keeps)

lemma enter_probing_keeps: "mine l \<Longrightarrow> guarantees R (enter_probing c l rcp inst now)"
  unfolding enter_probing_def by (intro keeps update_keeps resolve_endpoint_keeps) (auto simp: no_update_def)

lemma phase_state_provisioning: "provision_phase_state ph \<notin> {TerminatedConfirmed, Failed}"
  by (cases ph) simp_all

lemma observe_phase_keeps: "mine l \<Longrightarrow> guarantees R (observe_phase c l rcp inst now)"
  unfolding observe_phase_def
  by (intro keeps update_keeps outside_keeps enter_probing_keeps)
     (use phase_state_provisioning in \<open>auto simp: no_update_def\<close>)

lemma provision_instance_keeps: "mine l \<Longrightarrow> guarantees R (provision_instance c l res rcp inst now)"
  unfolding provision_instance_def by (intro keeps record_keeps run_step_keeps observe_phase_keeps)

lemma provisioning_keeps: "mine l \<Longrightarrow> guarantees R (request_provisioning c l now)"
  unfolding request_provisioning_def by (intro keeps record_keeps provision_instance_keeps)

lemma endpoint_of_keeps: "guarantees R (endpoint_of c rcp inst)"
  unfolding endpoint_of_def by (intro keeps outside_keeps)

lemma check_health_keeps: "guarantees R (check_health c l rcp url)"
  unfolding check_health_def
  by (cases rcp; cases url; cases "c_credentials c"; cases "c_readiness c")
     (auto intro!: keeps outside_keeps)

lemma refresh_catalogue_keeps: "guarantees R (refresh_catalogue c l rcp url changed health now)"
proof -
  have refresh: "guarantees R (try_db (refresh_gpu_runtime_provider u p now))" for u p
    by (rule side_keeps) (rule side_refresh)
  have health: "guarantees R (try_db (set_gpu_runtime_provider_health i h now))"
    "guarantees R (try_db (set_gpu_runtime_provider_health_and_price i h pr t now))" for i h pr t
    by (rule side_keeps, erule side_health side_health_price)+
  show ?thesis unfolding refresh_catalogue_def Let_def
    by (cases rcp; cases url) (auto intro!: keeps refresh health split: option.splits)
qed

lemma check_serving_keeps: "mine l \<Longrightarrow> guarantees R (check_serving c l inst now)"
  unfolding check_serving_def Let_def
  by (intro keeps endpoint_of_keeps check_health_keeps refresh_catalogue_keeps update_keeps) (auto simp: no_update_def)

end

text \<open>Handlers that may also confirm a termination, up to the handling of one lease.\<close>

locale confirming = reconciliation R mine now for R :: "'w ctl \<Rightarrow> 'w ctl \<Rightarrow> bool" and mine and now +
  assumes confirmed: "mine l \<Longrightarrow> up_observed_state u = Some TerminatedConfirmed \<Longrightarrow>
      R s (s\<lparr>ctl_db := snd (update_gpu_rental l u now (ctl_db s))\<rparr>)"
    and mine_billing: "mine l \<Longrightarrow> mine (with_billing b l)"
begin

lemma confirm_keeps: "mine l \<Longrightarrow> guarantees R (confirm_terminated c l now)"
proof -
  assume l: "mine l"
  have "guarantees R (on_db (update_gpu_rental l u now) :: ('w ctl, bool) action)" if "up_observed_state u = Some TerminatedConfirmed" for u
    by (intro on_db_guarantees confirmed [OF l that])
  then show ?thesis
    unfolding confirm_terminated_def apply_update_def by (intro keeps call_keeps) auto
qed

lemma terminate_known_keeps: "mine l \<Longrightarrow> guarantees R (terminate_known c l res now)"
  unfolding terminate_known_def terminate_by_lookup_def terminate_by_inventory_def
  by (intro keeps record_keeps send_termination_keeps confirm_keeps update_keeps) (auto simp: no_update_def)

lemma termination_keeps: "mine l \<Longrightarrow> guarantees R (reconcile_termination c l now)"
  unfolding reconcile_termination_def by (intro keeps record_keeps confirm_keeps terminate_known_keeps)

lemma ready_keeps: "mine l \<Longrightarrow> guarantees R (reconcile_ready c l now)"
  unfolding reconcile_ready_def
  by (intro keeps record_keeps confirm_keeps update_keeps check_serving_keeps) (auto simp: no_update_def)

lemma route_keeps: "mine l \<Longrightarrow> guarantees R (route_state c l now)"
  unfolding route_state_def
  by (intro keeps create_keeps allocating_keeps provisioning_keeps ready_keeps release_keeps)

lemma limits_keeps: "mine l \<Longrightarrow> guarantees R (enforce_limits c l now)"
  unfolding enforce_limits_def by (intro keeps update_keeps route_keeps) (auto simp: no_update_def)

lemma billing_keeps: "mine l \<Longrightarrow> guarantees R (refresh_billing c l now)"
  unfolding refresh_billing_def by (intro keeps record_keeps limits_keeps mine_billing)

lemma lease_keeps: "mine l \<Longrightarrow> guarantees R (reconcile_lease c l now)"
  unfolding reconcile_lease_def by (intro keeps record_keeps termination_keeps billing_keeps)

lemma leases_keeps: "\<forall>l \<in> set ls. mine l \<Longrightarrow> guarantees R (reconcile_leases c ls now)"
  by (induction ls) (auto intro!: keeps lease_keeps)

end

text \<open>The whole reconciliation of one controller: it claims a batch of leases and handles them.  The
  handling may be known to guarantee something only for the leases of the batch, and only for some
  controllers.\<close>

locale batches = guarantee R for R :: "'w ctl \<Rightarrow> 'w ctl \<Rightarrow> bool" +
  fixes handling :: "gpu_rental_lease set \<Rightarrow> 'w ctl \<Rightarrow> 'w ctl \<Rightarrow> bool"
    and admitted :: "'w controller \<Rightarrow> bool" and now :: int
  assumes batch_world: "R s (s\<lparr>ctl_world := w\<rparr>)"
    and batch_side: "side_op now (ctl_db s) db' \<Longrightarrow> R s (s\<lparr>ctl_db := db'\<rparr>)"
    and batch_claimed: "admitted c \<Longrightarrow>
      claim_due_gpu_rentals_for_provider (controller_id (c_config c)) prov now ttl limit (ctl_db s) = Inr (ls, db') \<Longrightarrow>
      handling (set ls) (s\<lparr>ctl_db := db'\<rparr>) t \<Longrightarrow> R s t"
    and batch_handled: "admitted c \<Longrightarrow> guarantees (handling (set ls)) (reconcile_leases c ls now)"
begin

lemma claim_keeps:
  assumes "admitted c"
  shows "guarantees R (bind (try_db (claim_due_gpu_rentals_for_provider (controller_id (c_config c)) prov now ttl limit))
     (\<lambda>ls. reconcile_leases c ls now))"
proof (rule guaranteesI)
  fix s
  let ?claim = "claim_due_gpu_rentals_for_provider (controller_id (c_config c)) prov now ttl limit"
  show "R s (snd (bind (try_db ?claim) (\<lambda>ls. reconcile_leases c ls now) s))"
  proof (cases "?claim (ctl_db s)")
    case (Inl e)
    then show ?thesis by (simp add: run_simps refl)
  next
    case (Inr p)
    obtain ls db' where p: "p = (ls, db')" by fastforce
    have "handling (set ls) (s\<lparr>ctl_db := db'\<rparr>) (snd (reconcile_leases c ls now (s\<lparr>ctl_db := db'\<rparr>)))"
      by (rule guaranteesD) (rule batch_handled [OF assms])
    from batch_claimed [OF assms Inr [unfolded p] this] show ?thesis by (simp add: run_simps Inr p)
  qed
qed

lemma due_keeps: "admitted c \<Longrightarrow> guarantees R (reconcile_due c now)"
proof -
  have prune: "guarantees R (on_db prune_terminal_gpu_runtime_providers)"
    by (intro on_db_guarantees batch_side side_prune)
  have call: "guarantees R (outside f)" for f
    by (rule guaranteesI) (simp add: run_simps batch_world)
  have "guarantees R (on_db (\<lambda>db. (f db, db)))" for f :: "gpu_db \<Rightarrow> string list"
    by (rule guaranteesI) (simp add: run_simps refl)
  then have tokens: "guarantees R (prune_stale_rental_endpoint_tokens creds)" for creds
    unfolding prune_stale_rental_endpoint_tokens_def or_credential_error_def by (intro keeps call)
  assume "admitted c"
  then show ?thesis unfolding reconcile_due_def by (intro claim_keeps keeps prune tokens)
qed

end

text \<open>A relation that every handler keeps for the leases that a controller of the given name can
  claim, and that its claims keep.\<close>

locale claiming = confirming R mine now for R :: "'w ctl \<Rightarrow> 'w ctl \<Rightarrow> bool" and mine and now +
  fixes own :: string
  assumes claimed: "claim_due_gpu_rentals_for_provider own prov now ttl limit (ctl_db s) = Inr (ls, db') \<Longrightarrow>
      R s (s\<lparr>ctl_db := db'\<rparr>) \<and> (\<forall>l \<in> set ls. mine l)"

sublocale claiming \<subseteq> batches R "\<lambda>L s t. (\<forall>l \<in> L. mine l) \<longrightarrow> R s t" "\<lambda>c. controller_id (c_config c) = own" now
proof unfold_locales
  fix c :: "'w controller" and ls
  have "guarantees R (reconcile_leases c ls now)" if "\<forall>l \<in> set ls. mine l" using that by (rule leases_keeps)
  then show "guarantees (\<lambda>s t. (\<forall>l \<in> set ls. mine l) \<longrightarrow> R s t) (reconcile_leases c ls now)"
    by (auto simp: guarantees_def)
next
  fix c :: "'w controller" and prov ttl limit s ls db' t
  assume "controller_id (c_config c) = own" "(\<forall>l \<in> set ls. mine l) \<longrightarrow> R (s\<lparr>ctl_db := db'\<rparr>) t"
    and "claim_due_gpu_rentals_for_provider (controller_id (c_config c)) prov now ttl limit (ctl_db s) = Inr (ls, db')"
  then show "R s t" using claimed [of prov ttl limit s ls db'] trans [of s "s\<lparr>ctl_db := db'\<rparr>" t] by simp
qed (auto intro: world side)

section \<open>Controllers only make ledger operations under their own name\<close>

definition acts_as :: "string \<Rightarrow> int \<Rightarrow> 'w ctl \<Rightarrow> 'w ctl \<Rightarrow> bool" where
  "acts_as own now s s' \<longleftrightarrow> (ledger_op own now)\<^sup>*\<^sup>* (ctl_db s) (ctl_db s')"

lemma side_op_ledger_op: "side_op now db db' \<Longrightarrow> ledger_op own now db db'"
  by (induction rule: side_op.induct) (auto intro: ledger_op.intros)

lemma claim_for_provider:
  "claim_due_gpu_rentals_for_provider own prov now ttl limit db = Inr (ls, db') \<Longrightarrow>
   claim_due_gpu_rentals_inner own (Some prov) now ttl limit db = Inr (ls, db')"
  by (simp add: claim_due_gpu_rentals_for_provider_def split: if_splits)

lemma claim_owner:
  "claim_due_gpu_rentals_inner own prov now ttl limit db = Inr (ls, db') \<Longrightarrow> l \<in> set ls \<Longrightarrow> lease_owner l = own"
  by (auto simp: claim_due_gpu_rentals_inner_def Let_def split: if_splits)

interpretation acting: claiming "acts_as own now" "\<lambda>l. lease_owner l = own" now own
proof unfold_locales
  fix s :: "'w ctl" and oid i k n db' e w
  assume "begin_gpu_rental_operation oid i k n now (ctl_db s) = Inr (True, db')"
  then show "acts_as own now s (s\<lparr>ctl_db := db', ctl_world := w, ctl_log := ctl_log s @ [e]\<rparr>)"
    by (auto simp: acts_as_def intro: op_begin)
qed (auto simp: acts_as_def with_billing_def claim_owner dest: claim_for_provider
      intro: op_update op_release op_claim side_op_ledger_op)

end
