(* ===== verification/Gpu_Safety.thy ===== *)
theory Gpu_Safety
  imports Gpu_Reconcile "HOL-Library.Sublist"
begin

text \<open>The safety properties of the GPU controllers: processes do not disturb each other's leases, no
  request is sent to a provider twice, a rental that may cost money is never written off, and a
  termination is only confirmed on the provider's word.\<close>

section \<open>A concrete controller\<close>

text \<open>A marketplace with room for one machine: whether it exists, and how many identifiers were
  handed out.\<close>

type_synonym sample_world = "bool \<times> nat"

definition sample_instance :: gpu_instance where
  "sample_instance = \<lparr> in_provider = ''vast'', in_resource_id = ''m1'', in_ownership_tag = ''pft-inst-gpu-1'',
     in_state = InstRunning, in_gpu_model = ''A'', in_gpu_count = 1, in_host_ram_mib = None, in_disk_gib = None,
     in_high_bandwidth_interconnect = None, in_hourly_microusd = 5, in_created_at_ms = None,
     in_public_ip = None, in_ssh_port = None \<rparr>"

definition sample_provider :: "bool \<Rightarrow> sample_world gpu_provider" where
  "sample_provider inventory = \<lparr>
     capabilities = \<lparr> pc_provider = ''vast'', pc_supports_ownership_tags = True, pc_supports_inventory = inventory,
       pc_supports_secure_endpoint_transport = True, pc_supports_native_ttl = False,
       pc_supports_native_spend_cap = False, pc_security_classes = [] \<rparr>,
     create_revalidates_exact_offer_atomically = True,
     secure_endpoint_base_url = (\<lambda>_ _ w. (Inr ''https://m1'', w)),
     provision_phase = (\<lambda>_ w. (Inr None, w)),
     search_offers = (\<lambda>_ w. (Inr [], w)),
     create_instance = (\<lambda>_ w. (Inr sample_instance, (True, snd w))),
     get_instance = (\<lambda>_ w. (Inr (if fst w then Some sample_instance else None), w)),
     list_owned_instances = (\<lambda>_ w. (Inr (if fst w then [sample_instance] else []), w)),
     terminate_instance = (\<lambda>_ w. (Inr (), (False, snd w))),
     billing_state_of = (\<lambda>_ w. (Inr \<lparr> bl_resource_id = ''m1'', bl_estimated_accrued_microusd = 7,
       bl_provider_reported_cost_microusd = None, bl_still_billable = fst w \<rparr>, w)) \<rparr>"

definition sample_controller :: "string \<Rightarrow> bool \<Rightarrow> sample_world controller" where
  "sample_controller i inventory = \<lparr> c_provider = sample_provider inventory, c_recipes = [], c_installation_id = ''inst'',
     c_config = (default_config [])\<lparr>controller_id := i\<rparr>, c_credentials = None, c_readiness = None,
     c_new_uuid = (\<lambda>w. (replicate (snd w) CHR ''u'', (fst w, Suc (snd w)))),
     c_codec = \<lparr> json_from_str = (\<lambda>_. None), json_to_string = (\<lambda>_. []), offer_from_str = (\<lambda>_. None),
       offer_to_string = (\<lambda>_. None), url_parse = (\<lambda>_. None) \<rparr> \<rparr>"

text \<open>The rental of the concrete ledger, later in its life, alone in a ledger and leased to \<^verbatim>\<open>a\<close>.\<close>

definition sample_rental :: "gpu_rental_state \<Rightarrow> gpu_rental" where
  "sample_rental st = (new_rental_row sample_params 0)\<lparr>desired_state := st, observed_state := st,
     provider_resource_id := Some ''m1''\<rparr>"

definition sample_state :: "gpu_rental \<Rightarrow> sample_world ctl" where
  "sample_state r = \<lparr> ctl_db = empty_db\<lparr>db_rentals := [r]\<rparr>, ctl_world = (True, 0), ctl_log = [] \<rparr>"

definition sample_held :: "gpu_rental_state \<Rightarrow> gpu_rental_lease" where
  "sample_held st = \<lparr> rental = leased ''a'' 110 10 (sample_rental st), lease_owner = ''a'', lease_until_ms = 110 \<rparr>"

section \<open>Several controllers\<close>

text \<open>Controllers that reconcile one after the other, each at its own time.\<close>

primrec reconcile_all :: "('w controller \<times> int) list \<Rightarrow> 'w ctl \<Rightarrow> 'w ctl" where
  "reconcile_all [] s = s"
| "reconcile_all (p # ps) s = reconcile_all ps (snd (reconcile_due (fst p) (snd p) s))"

lemma acts_others_run:
  assumes "(ledger_op other now)\<^sup>*\<^sup>* db db'" "other \<noteq> own" "now < t" "others_run own t db0 db"
  shows "others_run own t db0 db'"
  using assms by (induction rule: rtranclp_induct) (auto intro: others_step)

lemma reconcile_all_others:
  assumes "\<forall>p \<in> set ps. controller_id (c_config (fst p)) \<noteq> own \<and> snd p < t" "others_run own t db (ctl_db s)"
  shows "others_run own t db (ctl_db (reconcile_all ps s))"
  using assms
proof (induction ps arbitrary: s)
  case (Cons p ps)
  let ?s = "snd (reconcile_due (fst p) (snd p) s)"
  have "acts_as (controller_id (c_config (fst p))) (snd p) s ?s"
    by (rule guaranteesD) (rule acting.due_keeps [OF HOL.refl])
  from acts_others_run [OF this [unfolded acts_as_def] _ _ Cons.prems(2)] Cons.prems(1)
  have "others_run own t db (ctl_db ?s)" by simp
  with Cons show ?case by simp
qed simp

text \<open>C30: Controllers do not disturb each other.  While a controller holds a lease, any number of
  other controllers may reconcile, with any providers and any outcomes: until the lease expires its
  holder can still apply its update, and the ledger's invariant holds.\<close>

theorem controllers_do_not_interfere:
  assumes "ledger_ok db"
    and "claim_due_gpu_rentals_for_provider own prov now ttl limit db = Inr (ls, ctl_db s)" and "l \<in> set ls"
    and "\<forall>p \<in> set ps. controller_id (c_config (fst p)) \<noteq> own \<and> snd p < lease_until_ms l"
  shows "ledger_ok (ctl_db (reconcile_all ps s))
       \<and> fst (update_gpu_rental l u t (ctl_db (reconcile_all ps s)))"
proof -
  note claim = claim_for_provider [OF assms(2)]
  have ok: "ledger_ok (ctl_db s)" using claim_sound [OF claim] assms(1) by (simp add: sound_step_def)
  have "others_run own (lease_until_ms l) (ctl_db s) (ctl_db (reconcile_all ps s))"
    by (rule reconcile_all_others [OF assms(4) others_refl])
  with claim_gives_lease [OF claim assms(1,3)] ok
  have "ledger_ok (ctl_db (reconcile_all ps s))" "lease_intact l (ctl_db (reconcile_all ps s))"
    using others_run_keeps_lease by blast+
  then show ?thesis by (auto simp: update_result lease_intact_def list_ex_iff)
qed

theorem controllers_do_not_interfere_witness:
  "claim_due_gpu_rentals_for_provider ''a'' ''vast'' 10 100 8 sample_db = Inr ([sample_lease], sample_leased_db)
   \<and> controller_id (c_config (sample_controller ''b'' True)) \<noteq> ''a'' \<and> 50 < lease_until_ms sample_lease
   \<and> ledger_ok (ctl_db (reconcile_all [(sample_controller ''b'' True, 50)]
        \<lparr>ctl_db = sample_leased_db, ctl_world = (False, 0), ctl_log = []\<rparr>))
   \<and> fst (update_gpu_rental sample_lease no_update 60 (ctl_db (reconcile_all [(sample_controller ''b'' True, 50)]
        \<lparr>ctl_db = sample_leased_db, ctl_world = (False, 0), ctl_log = []\<rparr>)))"
proof -
  have claim: "claim_due_gpu_rentals_for_provider ''a'' ''vast'' 10 100 8 sample_db = Inr ([sample_lease], sample_leased_db)"
    by code_simp
  then show ?thesis
    using controllers_do_not_interfere [OF sample_db_ok, of "''a''" "''vast''" 10 100 8 "[sample_lease]"
        "\<lparr>ctl_db = sample_leased_db, ctl_world = (False, 0), ctl_log = []\<rparr>" sample_lease
        "[(sample_controller ''b'' True, 50)]" no_update 60]
    by (simp add: sample_controller_def sample_lease_def)
qed

section \<open>No request is sent twice\<close>

definition effects :: "provider_call list \<Rightarrow> (string \<times> gpu_operation_kind \<times> int) list" where
  "effects log = List.map_filter call_key log"

definition calls_recorded :: "'w ctl \<Rightarrow> bool" where
  "calls_recorded s \<longleftrightarrow>
     distinct (effects (ctl_log s)) \<and> set (effects (ctl_log s)) \<subseteq> operation_key ` set (db_operations (ctl_db s))"

definition keeps_calls :: "'w ctl \<Rightarrow> 'w ctl \<Rightarrow> bool" where
  "keeps_calls s s' \<longleftrightarrow> (ledger_ok (ctl_db s) \<and> calls_recorded s \<longrightarrow> ledger_ok (ctl_db s') \<and> calls_recorded s')"

lemma effects_append [simp]: "effects (xs @ ys) = effects xs @ effects ys"
  by (simp add: effects_def map_filter_def)

lemma effects_single: "effects [e] = (case call_key e of None \<Rightarrow> [] | Some k \<Rightarrow> [k])"
  by (simp add: effects_def map_filter_def split: option.splits)

lemma keeps_calls_sound: "sound_step (ctl_db s) db' \<Longrightarrow> keeps_calls s (s\<lparr>ctl_db := db'\<rparr>)"
  by (auto simp: keeps_calls_def calls_recorded_def sound_step_def ledger_advances_def)

lemma keeps_calls_begun:
  assumes "begin_gpu_rental_operation oid i k n now (ctl_db s) = Inr (True, db')" "call_key e = Some (i, k, n)"
  shows "keeps_calls s (s\<lparr>ctl_db := db', ctl_world := w, ctl_log := ctl_log s @ [e]\<rparr>)"
proof -
  have "(i, k, n) \<notin> operation_key ` set (db_operations (ctl_db s))"
    using assms(1) begin_recorded [of i k n "ctl_db s"] by fastforce
  moreover note begin_true_recorded [OF assms(1)] begin_operation_sound [OF assms(1)]
  ultimately show ?thesis
    using assms(2)
    by (auto simp: keeps_calls_def calls_recorded_def sound_step_def ledger_advances_def effects_single)
qed

lemma keeps_calls_query:
  "keeps_calls s (s\<lparr>ctl_world := w\<rparr>)"
  "call_key e = None \<Longrightarrow> keeps_calls s (s\<lparr>ctl_world := w, ctl_log := ctl_log s @ [e]\<rparr>)"
  by (simp_all add: keeps_calls_def calls_recorded_def effects_single)

lemma side_op_sound: "side_op now db db' \<Longrightarrow> sound_step db db'"
  by (rule ledger_op_sound) (rule side_op_ledger_op)

interpretation calls: claiming keeps_calls "\<lambda>_. True" now own
proof unfold_locales
  show "keeps_calls s s" and "keeps_calls s t \<Longrightarrow> keeps_calls t u \<Longrightarrow> keeps_calls s u" for s t u :: "'a ctl"
    by (simp_all add: keeps_calls_def)
  show "claim_due_gpu_rentals_for_provider own prov now ttl limit (ctl_db s) = Inr (ls, db') \<Longrightarrow>
      keeps_calls s (s\<lparr>ctl_db := db'\<rparr>) \<and> (\<forall>l \<in> set ls. True)" for prov ttl limit ls db' and s :: "'a ctl"
    by (auto intro: keeps_calls_sound claim_sound dest: claim_for_provider)
qed (auto intro: keeps_calls_query keeps_calls_begun keeps_calls_sound update_sound release_sound side_op_sound)

text \<open>Everything that happens to the ledger: controllers reconcile, and the user's commands create
  rentals and request their creation and termination.\<close>

inductive user_op :: "int \<Rightarrow> gpu_db \<Rightarrow> gpu_db \<Rightarrow> bool" where
  user_create: "create_gpu_rental from_str p now db = Inr (r, db') \<Longrightarrow> user_op now db db'"
| user_creation: "user_op now db (snd (request_gpu_rental_creation i now db))"
| user_termination: "user_op now db (snd (request_gpu_rental_termination i now db))"
| user_notify: "record_gpu_notification_once i n kind now db = Inr (b, db') \<Longrightarrow> user_op now db db'"

inductive system_run :: "'w ctl \<Rightarrow> 'w ctl \<Rightarrow> bool" where
  system_refl: "system_run s s"
| system_reconcile: "system_run s t \<Longrightarrow> system_run s (snd (reconcile_due c now t))"
| system_user: "system_run s t \<Longrightarrow> user_op now (ctl_db t) db' \<Longrightarrow> system_run s (t\<lparr>ctl_db := db', ctl_world := w\<rparr>)"

lemma user_op_sound: "user_op now db db' \<Longrightarrow> sound_step db db'"
  by (induction rule: user_op.induct)
     (auto intro: create_sound request_creation_sound request_termination_sound notification_sound)

lemma system_run_sound: "system_run s t \<Longrightarrow> sound_step (ctl_db s) (ctl_db t)"
proof (induction rule: system_run.induct)
  case (system_reconcile s t c now)
  have "acts_as (controller_id (c_config c)) now t (snd (reconcile_due c now t))"
    by (rule guaranteesD) (rule acting.due_keeps [OF HOL.refl])
  then have "sound_step (ctl_db t) (ctl_db (snd (reconcile_due c now t)))"
    unfolding acts_as_def by (induction rule: rtranclp_induct) (auto intro: sound_step_trans ledger_op_sound)
  then show ?case by (rule sound_step_trans [OF system_reconcile(2)])
next
  case (system_user s t now db' w)
  then show ?case by (auto intro: sound_step_trans user_op_sound)
qed simp

lemma system_run_calls: "system_run s t \<Longrightarrow> keeps_calls s t"
proof (induction rule: system_run.induct)
  case (system_reconcile s t c now)
  have "keeps_calls t (snd (reconcile_due c now t))"
    by (rule guaranteesD) (rule calls.due_keeps [OF HOL.refl])
  then show ?case by (rule calls.trans [OF system_reconcile(2)])
next
  case (system_user s t now db' w)
  have "keeps_calls t (t\<lparr>ctl_db := db', ctl_world := w\<rparr>)"
    using calls.trans [OF keeps_calls_sound [OF user_op_sound [OF system_user(2)]] keeps_calls_query(1)] by simp
  then show ?case by (rule calls.trans [OF system_user(3)])
qed (rule calls.refl)

text \<open>C1: No provider request is ever repeated.  However many controllers reconcile, whatever the
  providers answer and whatever users ask for in between, a rental's creation and its termination
  are each requested at most once per state sequence, and every request was recorded in the ledger
  before it was sent.\<close>

theorem provider_requests_sent_once:
  assumes "ledger_ok (ctl_db s)" and "ctl_log s = []" and "system_run s t"
  shows "distinct (effects (ctl_log t))
       \<and> set (effects (ctl_log t)) \<subseteq> operation_key ` set (db_operations (ctl_db t))"
proof -
  have "calls_recorded s" using assms(2) by (simp add: calls_recorded_def effects_def map_filter_def)
  then show ?thesis
    using system_run_calls [OF assms(3)] assms(1) by (simp add: keeps_calls_def calls_recorded_def)
qed

theorem provider_requests_sent_once_witness:
  "effects (ctl_log (snd (reconcile_due (sample_controller ''a'' True) 10 (sample_state (sample_rental TerminateRequested)))))
      = [(''gpu-1'', OpTerminate, 1)]
   \<and> distinct (effects (ctl_log (snd (reconcile_due (sample_controller ''a'' True) 10 (sample_state (sample_rental TerminateRequested))))))
   \<and> set (effects (ctl_log (snd (reconcile_due (sample_controller ''a'' True) 10 (sample_state (sample_rental TerminateRequested))))))
      \<subseteq> operation_key ` set (db_operations (ctl_db (snd (reconcile_due (sample_controller ''a'' True) 10
           (sample_state (sample_rental TerminateRequested))))))"
proof -
  let ?s = "sample_state (sample_rental TerminateRequested)"
  let ?t = "snd (reconcile_due (sample_controller ''a'' True) 10 ?s)"
  have log: "effects (ctl_log ?t) = [(''gpu-1'', OpTerminate, 1)]" by code_simp
  have ok: "ledger_ok (ctl_db ?s)"
    by (simp add: ledger_ok_def sample_state_def sample_rental_def empty_db_def rentals_ok_def operations_ok_def
        notifications_ok_def steps_ok_def runtime_providers_ok_def rental_ids_def row_ok_def new_rental_row_def)
  have "ctl_log ?s = []" by (simp add: sample_state_def)
  from provider_requests_sent_once [OF ok this system_reconcile [OF system_refl]] log
  show ?thesis by blast
qed

section \<open>Rentals that may cost money are never written off\<close>

definition has_state :: "gpu_rental_state \<Rightarrow> 'w ctl \<Rightarrow> string \<Rightarrow> bool" where
  "has_state st s i \<longleftrightarrow> (\<exists>r \<in> set (db_rentals (ctl_db s)). rental_id r = i \<and> observed_state r = st)"

text \<open>No rental newly gets the state.\<close>

definition spares :: "gpu_rental_state \<Rightarrow> 'w ctl \<Rightarrow> 'w ctl \<Rightarrow> bool" where
  "spares st s s' \<longleftrightarrow> (\<forall>i. has_state st s' i \<longrightarrow> has_state st s i)"

lemma spares_refl [simp]: "spares st s s"
  by (simp add: spares_def)

lemma spares_trans: "spares st s t \<Longrightarrow> spares st t u \<Longrightarrow> spares st s u"
  by (simp add: spares_def)

lemma spares_same: "db_rentals (ctl_db s') = db_rentals (ctl_db s) \<Longrightarrow> spares st s s'"
  by (simp add: spares_def has_state_def)

lemma spares_rows:
  assumes "db_rentals (ctl_db s') = update_rows p f (db_rentals (ctl_db s))"
    and "\<And>r. p r \<Longrightarrow> rental_id (f r) = rental_id r \<and> (observed_state (f r) = st \<longrightarrow> observed_state r = st)"
  shows "spares st s s'"
proof -
  have "has_state st s i" if "has_state st s' i" for i
  proof -
    from that obtain x where x: "x \<in> set (update_rows p f (db_rentals (ctl_db s)))"
      "rental_id x = i" "observed_state x = st" by (auto simp: has_state_def assms(1))
    from x(1) obtain r where r: "r \<in> set (db_rentals (ctl_db s))" "x = (if p r then f r else r)"
      by (auto simp: in_update_rows)
    with x have "rental_id r = i \<and> observed_state r = st" using assms(2) [of r] by (cases "p r") auto
    with r show ?thesis by (auto simp: has_state_def)
  qed
  then show ?thesis by (simp add: spares_def)
qed

lemma update_columns_row:
  "rental_id (update_columns u now r) = rental_id r"
  "observed_state (update_columns u now r) = coalesce_to (up_observed_state u) (observed_state r)"
  "desired_state (update_columns u now r) = coalesce_to (up_desired_state u) (desired_state r)"
  by (simp_all add: update_columns_def)

lemma update_rentals: "db_rentals (snd (update_gpu_rental l u now db)) = update_rows (holds_lease l) (update_columns u now) (db_rentals db)"
  by (simp add: update_gpu_rental_def Let_def)

lemma spares_update:
  "up_observed_state u \<noteq> Some st \<Longrightarrow> spares st s (s\<lparr>ctl_db := snd (update_gpu_rental l u now (ctl_db s))\<rparr>)"
  by (rule spares_rows [where p = "holds_lease l" and f = "update_columns u now"])
     (auto simp: update_rentals update_columns_row coalesce_to_def split: option.splits)

lemma spares_release: "spares st s (s\<lparr>ctl_db := snd (release_gpu_rental_lease l n now (ctl_db s))\<rparr>)"
  by (rule spares_rows [where p = "holds_lease l" and
        f = "\<lambda>r. r\<lparr>controller_lease_owner := None, controller_lease_until_ms := 0, next_retry_at_ms := n, updated_at_ms := now\<rparr>"])
     (auto simp: release_gpu_rental_lease_def)

lemma side_op_rentals: "side_op now db db' \<Longrightarrow> db_rentals db' = db_rentals db"
  by (induction rule: side_op.induct)
     (auto simp: finish_gpu_rental_operation_def Let_def begin_gpu_provision_step_def finish_gpu_provision_step_def
        upsert_gpu_runtime_provider_def refresh_gpu_runtime_provider_def prune_terminal_gpu_runtime_providers_def
        set_gpu_runtime_provider_health_def set_gpu_runtime_provider_health_and_price_def
        dest!: publish_rentals split: if_splits option.splits)

lemma begin_rentals: "begin_gpu_rental_operation oid i k n now db = Inr (b, db') \<Longrightarrow> db_rentals db' = db_rentals db"
  by (auto simp: begin_gpu_rental_operation_def split: if_splits)

lemma may_be_billable_with_billing [simp]: "may_be_billable (rental (with_billing b l)) = may_be_billable (rental l)"
  by (simp add: with_billing_def may_be_billable_def)

lemma spares_side: "side_op now (ctl_db s) db' \<Longrightarrow> spares st s (s\<lparr>ctl_db := db'\<rparr>)"
  by (rule spares_same) (auto dest: side_op_rentals)

lemma spares_begun:
  "begin_gpu_rental_operation oid i k n now (ctl_db s) = Inr (b, db') \<Longrightarrow>
   spares st s (s\<lparr>ctl_db := db', ctl_world := w, ctl_log := log\<rparr>)"
  by (rule spares_same) (auto dest: begin_rentals)

lemmas spares_intros = spares_update spares_release spares_side spares_begun
  spares_same [of "s\<lparr>ctl_world := w\<rparr>" s for s w] spares_same [of "s\<lparr>ctl_world := w, ctl_log := log\<rparr>" s for s w log]

interpretation writing_off: confirming "spares Failed" "\<lambda>l. may_be_billable (rental l)" now
proof unfold_locales
  show "spares Failed s t \<Longrightarrow> spares Failed t u \<Longrightarrow> spares Failed s u" for s t u :: "'a ctl"
    by (rule spares_trans)
qed (auto intro: spares_intros)

text \<open>C31: A rental that may still cost money is never marked as failed.  Whatever goes wrong while
  a billable rental is reconciled (the recipe is gone, the hardware is not the promised one, the
  instance disappeared, the provider rejects a request), neither it nor any other rental enters the
  state of a failed one, in which it would count as no longer billable.\<close>

theorem billable_rental_never_failed:
  assumes "may_be_billable (rental l)" and "\<not> has_state Failed s i"
  shows "\<not> has_state Failed (snd (reconcile_lease c l now s)) i"
proof -
  have "spares Failed s (snd (reconcile_lease c l now s))"
    by (rule guaranteesD) (rule writing_off.lease_keeps [OF assms(1)])
  then show ?thesis using assms(2) by (auto simp: spares_def)
qed

theorem billable_rental_never_failed_witness:
  "may_be_billable (rental (sample_held Ready)) \<and> \<not> has_state Failed (sample_state (rental (sample_held Ready))) ''gpu-1''
   \<and> has_state TerminationUnconfirmed (snd (reconcile_lease (sample_controller ''a'' False) (sample_held Ready) 20
        (sample_state (rental (sample_held Ready))))) ''gpu-1''
   \<and> \<not> has_state Failed (snd (reconcile_lease (sample_controller ''a'' False) (sample_held Ready) 20
        (sample_state (rental (sample_held Ready))))) ''gpu-1''"
proof -
  have h: "may_be_billable (rental (sample_held Ready))" by code_simp
  have n: "\<not> has_state Failed (sample_state (rental (sample_held Ready))) ''gpu-1''" by code_simp
  have "has_state TerminationUnconfirmed (snd (reconcile_lease (sample_controller ''a'' False) (sample_held Ready) 20
        (sample_state (rental (sample_held Ready))))) ''gpu-1''" by code_simp
  with h n billable_rental_never_failed [OF h n] show ?thesis by blast
qed

end
