(* ===== verification/Gpu_Confirmation.thy ===== *)
theory Gpu_Confirmation
  imports Gpu_Safety
begin

text \<open>When a controller may say that a rental is over: the argument that a termination is confirmed
  only after the provider itself reported that nothing of the rental is left.\<close>

section \<open>Steps that confirm nothing\<close>

definition unconfirming :: "'w ctl \<Rightarrow> 'w ctl \<Rightarrow> bool" where
  "unconfirming s s' \<longleftrightarrow> spares TerminatedConfirmed s s' \<and> prefix (ctl_log s) (ctl_log s')"

lemma unconfirming_trans: "unconfirming s t \<Longrightarrow> unconfirming t u \<Longrightarrow> unconfirming s u"
  by (auto simp: unconfirming_def intro: spares_trans prefix_order.trans)

interpretation quiet: reconciliation unconfirming "\<lambda>_. True" now
proof unfold_locales
  show "unconfirming s t \<Longrightarrow> unconfirming t u \<Longrightarrow> unconfirming s u" for s t u :: "'a ctl"
    by (rule unconfirming_trans)
qed (auto simp: unconfirming_def intro: spares_intros)

section \<open>Steps that confirm on evidence\<close>

text \<open>If a termination is confirmed at all, then it is the one of the lease, and what the
  provider answered since the step began satisfies the predicate.\<close>

definition confirms_on :: "(provider_call list \<Rightarrow> bool) \<Rightarrow> gpu_rental_lease \<Rightarrow> 'w ctl \<Rightarrow> 'w ctl \<Rightarrow> bool" where
  "confirms_on P l s s' \<longleftrightarrow>
     (\<exists>new. ctl_log s' = ctl_log s @ new
        \<and> (\<forall>i. has_state TerminatedConfirmed s' i \<longrightarrow>
              has_state TerminatedConfirmed s i \<or> (i = rental_id (rental l) \<and> P new)))"

lemma confirms_quiet: "unconfirming s s' \<Longrightarrow> confirms_on P l s s'"
  by (auto simp: unconfirming_def confirms_on_def spares_def prefix_def)

lemma quiet_guarantees: "guarantees unconfirming m \<Longrightarrow> guarantees (confirms_on P l) m"
  by (auto simp: guarantees_def intro: confirms_quiet)

lemma confirms_compose:
  assumes "unconfirming s t" "confirms_on P l t u"
    and "\<And>old new. ctl_log t = ctl_log s @ old \<Longrightarrow> P new \<Longrightarrow> Q (old @ new)"
  shows "confirms_on Q l s u"
proof -
  from assms(1) obtain old where old: "ctl_log t = ctl_log s @ old" by (auto simp: unconfirming_def prefix_def)
  from assms(2) obtain new where new: "ctl_log u = ctl_log t @ new"
    "\<And>i. has_state TerminatedConfirmed u i \<Longrightarrow> has_state TerminatedConfirmed t i \<or> (i = rental_id (rental l) \<and> P new)"
    by (auto simp: confirms_on_def)
  have "has_state TerminatedConfirmed s i \<or> (i = rental_id (rental l) \<and> Q (old @ new))"
    if "has_state TerminatedConfirmed u i" for i
    using new(2) [OF that] assms(1) assms(3) [OF old] by (auto simp: unconfirming_def spares_def)
  then show ?thesis unfolding confirms_on_def using new(1) old by (metis append.assoc)
qed

text \<open>A predicate that more answers cannot falsify passes through quiet steps.\<close>

lemma confirms_bind:
  assumes "guarantees unconfirming m" and "\<And>x. guarantees (confirms_on P l) (f x)"
    and "\<And>old new. P new \<Longrightarrow> P (old @ new)"
  shows "guarantees (confirms_on P l) (bind m f)"
proof (rule guaranteesI)
  fix s
  obtain r t where m: "m s = (r, t)" by fastforce
  then have t: "unconfirming s t" using guaranteesD [OF assms(1), of s] by simp
  show "confirms_on P l s (snd (bind m f s))"
  proof (cases r)
    case (Inl e)
    then show ?thesis using confirms_quiet [OF t] by (simp add: bind_def m)
  next
    case (Inr x)
    from confirms_compose [OF t guaranteesD [OF assms(2) [of x]], of P] assms(3)
    show ?thesis by (simp add: bind_def m Inr)
  qed
qed

lemma confirm_terminated_log: "ctl_log (snd (confirm_terminated c l now s)) = ctl_log s"
  by (auto simp: confirm_terminated_def apply_update_def bind_def on_db_def outside_def ret_def fail_def
      or_credential_error_def returning_def split: option.splits sum.splits prod.splits)

text \<open>Handling a lease leaves every other rental as it is.\<close>

definition leaves_others :: "string \<Rightarrow> 'w ctl \<Rightarrow> 'w ctl \<Rightarrow> bool" where
  "leaves_others i s s' \<longleftrightarrow>
     filter (\<lambda>r. rental_id r \<noteq> i) (db_rentals (ctl_db s')) = filter (\<lambda>r. rental_id r \<noteq> i) (db_rentals (ctl_db s))"

lemma filter_update_rows:
  assumes "\<And>r. p r \<Longrightarrow> \<not> q r \<and> \<not> q (f r)"
  shows "filter q (update_rows p f rows) = filter q rows"
  using assms by (induction rows) (auto simp: update_rows_def)

lemma leaves_others_rows:
  "rental_id (rental l) = i \<Longrightarrow> leaves_others i s (s\<lparr>ctl_db := snd (update_gpu_rental l u now (ctl_db s))\<rparr>)"
  "rental_id (rental l) = i \<Longrightarrow> leaves_others i s (s\<lparr>ctl_db := snd (release_gpu_rental_lease l n now (ctl_db s))\<rparr>)"
  by (auto simp: leaves_others_def update_rentals release_gpu_rental_lease_def holds_lease_def update_columns_row
      intro!: filter_update_rows)

interpretation local_handling: confirming "leaves_others i" "\<lambda>l. rental_id (rental l) = i" now
  by unfold_locales
     (auto intro: leaves_others_rows, auto simp: leaves_others_def with_billing_def dest: side_op_rentals begin_rentals)

lemma confirm_terminated_own:
  assumes "has_state TerminatedConfirmed (snd (confirm_terminated c l now s)) i"
  shows "has_state TerminatedConfirmed s i \<or> i = rental_id (rental l)"
proof -
  have "leaves_others (rental_id (rental l)) s (snd (confirm_terminated c l now s))"
    by (rule guaranteesD) (rule local_handling.confirm_keeps [OF HOL.refl])
  from arg_cong [OF this [unfolded leaves_others_def], of set] assms show ?thesis
    unfolding has_state_def by (auto 4 4 simp: set_eq_iff)
qed

lemma confirm_terminated_confirms: "guarantees (confirms_on (\<lambda>_. True) l) (confirm_terminated c l now)"
  by (rule guaranteesI) (auto simp: confirms_on_def confirm_terminated_log dest: confirm_terminated_own)

text \<open>A query and what is done with its answer.\<close>

lemma confirms_query:
  fixes f :: "'x \<Rightarrow> ('w ctl, 'y) action"
  assumes "\<And>x. \<exists>P. guarantees (confirms_on P l) (f x) \<and> (\<forall>new. P new \<longrightarrow> Q (e x # new))"
    and "\<And>x. call_key (e x) = None"
  shows "guarantees (confirms_on Q l) (bind (logged e g) f)"
proof (rule guaranteesI)
  fix s :: "'w ctl"
  obtain x w where g: "g (ctl_world s) = (x, w)" by fastforce
  let ?t = "s\<lparr>ctl_world := w, ctl_log := ctl_log s @ [e x]\<rparr>"
  obtain P where P: "guarantees (confirms_on P l) (f x)" "\<And>new. P new \<Longrightarrow> Q (e x # new)" using assms(1) by metis
  have "unconfirming s ?t" using quiet.query [OF assms(2)] .
  from this guaranteesD [OF P(1)] have "confirms_on Q l s (snd (f x ?t))"
    by (rule confirms_compose) (use P(2) in auto)
  then show "confirms_on Q l s (snd (bind (logged e g) f s))" by (simp add: bind_def logged_def g)
qed

definition owned_query :: "'w controller \<Rightarrow> gpu_rental \<Rightarrow> owned_instance_query" where
  "owned_query c r = \<lparr>oq_installation_id = c_installation_id c, oq_ownership_tag = Some (ownership_tag r)\<rparr>"

lemma find_owned_bind:
  "bind (find_owned c r) f =
     bind (logged (ListCall (owned_query c r)) (list_owned_instances (c_provider c) (owned_query c r)))
       (\<lambda>res. f (case res of
            Inl e \<Rightarrow> Inl e
          | Inr [] \<Rightarrow> Inr None
          | Inr [inst] \<Rightarrow> Inr (Some inst)
          | Inr _ \<Rightarrow> Inl (provider_error_new Permanent
               ''Multiple provider resources have the same Corbanu Terminal ownership tag.'')))"
  by (simp add: find_owned_def owned_query_def Let_def bind_assoc)

text \<open>What the provider answered shows that nothing of the rental is left: its inventory has no
  instance under the rental's tag, or the rental's instance, known from the ledger or from the
  inventory, no longer exists.\<close>

definition absent :: "'w controller \<Rightarrow> gpu_rental \<Rightarrow> provider_call list \<Rightarrow> bool" where
  "absent c r answers \<longleftrightarrow>
     ListCall (owned_query c r) (Inr []) \<in> set answers
   \<or> (\<exists>res. GetCall res (Inr None) \<in> set answers
        \<and> (provider_resource_id r = Some res
           \<or> (\<exists>inst. in_resource_id inst = res \<and> ListCall (owned_query c r) (Inr [inst]) \<in> set answers)))"

definition absent_or_gone :: "'w controller \<Rightarrow> gpu_rental \<Rightarrow> string \<Rightarrow> provider_call list \<Rightarrow> bool" where
  "absent_or_gone c r res answers \<longleftrightarrow>
     ListCall (owned_query c r) (Inr []) \<in> set answers \<or> GetCall res (Inr None) \<in> set answers"

lemma quiet_exI: "guarantees unconfirming m \<Longrightarrow> \<exists>P. guarantees (confirms_on P l) m \<and> (\<forall>new. P new \<longrightarrow> Q new)"
  using quiet_guarantees [of m "\<lambda>_. False" l] by blast

lemma confirming_exI:
  "guarantees (confirms_on P l) m \<Longrightarrow> (\<And>new. P new \<Longrightarrow> Q new) \<Longrightarrow> \<exists>P. guarantees (confirms_on P l) m \<and> (\<forall>new. P new \<longrightarrow> Q new)"
  by blast

text \<open>The inventory query, by the three answers it can have.\<close>

lemma confirms_inventory:
  fixes f :: "gpu_instance option provider_result \<Rightarrow> ('w ctl, 'y) action"
  assumes "\<exists>P. guarantees (confirms_on P l) (f (Inr None)) \<and> (\<forall>new. P new \<longrightarrow> Q (ListCall (owned_query c (rental l)) (Inr []) # new))"
    and "\<And>inst. \<exists>P. guarantees (confirms_on P l) (f (Inr (Some inst)))
           \<and> (\<forall>new. P new \<longrightarrow> Q (ListCall (owned_query c (rental l)) (Inr [inst]) # new))"
    and "\<And>e. guarantees unconfirming (f (Inl e))"
  shows "guarantees (confirms_on Q l) (bind (find_owned c (rental l)) f)"
  unfolding find_owned_bind
proof (rule confirms_query)
  fix x :: "gpu_instance list provider_result"
  show "\<exists>P. guarantees (confirms_on P l) (f (case x of
            Inl e \<Rightarrow> Inl e
          | Inr [] \<Rightarrow> Inr None
          | Inr [inst] \<Rightarrow> Inr (Some inst)
          | Inr _ \<Rightarrow> Inl (provider_error_new Permanent
               ''Multiple provider resources have the same Corbanu Terminal ownership tag.'')))
        \<and> (\<forall>new. P new \<longrightarrow> Q (ListCall (owned_query c (rental l)) x # new))"
    using assms(1,2) quiet_exI [OF assms(3)] by (cases x) (auto split: list.splits)
qed simp

lemma inventory_confirms:
  "guarantees (confirms_on (\<lambda>new. ListCall (owned_query c (rental l)) (Inr []) \<in> set new) l)
     (bind (find_owned c (rental l)) (terminate_by_inventory c l resource now))"
proof (rule confirms_inventory)
  have "guarantees (confirms_on (\<lambda>_. True) l) (terminate_by_inventory c l resource now (Inr None))"
    unfolding terminate_by_inventory_def
    using confirm_terminated_confirms quiet_guarantees [OF quiet.send_termination_keeps] by auto
  then show "\<exists>P. guarantees (confirms_on P l) (terminate_by_inventory c l resource now (Inr None))
      \<and> (\<forall>new. P new \<longrightarrow> ListCall (owned_query c (rental l)) (Inr []) \<in> set (ListCall (owned_query c (rental l)) (Inr []) # new))"
    by (rule confirming_exI) simp
qed (auto simp: terminate_by_inventory_def intro!: quiet_exI quiet.keeps quiet.release_keeps
      quiet.send_termination_keeps quiet.termination_retry_keeps)

lemma lookup_confirms:
  "\<exists>P. guarantees (confirms_on P l) (terminate_by_lookup c l resource now x)
     \<and> (\<forall>new. P new \<longrightarrow> absent_or_gone c (rental l) resource (GetCall resource x # new))"
proof -
  consider "x = Inr None" | e where "x = Inl e" "pe_kind e = Ambiguous"
    | e where "x = Inl e" "pe_kind e \<noteq> Ambiguous" | inst where "x = Inr (Some inst)"
    by (metis not_None_eq obj_sumE)
  then show ?thesis
  proof cases
    case 1
    then show ?thesis
      using confirming_exI [OF confirm_terminated_confirms, of "\<lambda>new. absent_or_gone c (rental l) resource (GetCall resource x # new)" l c now]
      by (simp add: terminate_by_lookup_def absent_or_gone_def)
  next
    case 2
    then show ?thesis
      using confirming_exI [OF inventory_confirms, of c l "\<lambda>new. absent_or_gone c (rental l) resource (GetCall resource x # new)"]
      by (simp add: terminate_by_lookup_def absent_or_gone_def)
  qed (auto simp: terminate_by_lookup_def no_update_def intro!: quiet_exI quiet.keeps quiet.update_keeps
      quiet.send_termination_keeps quiet.termination_retry_keeps)
qed

lemma terminate_known_confirms:
  "guarantees (confirms_on (absent_or_gone c (rental l) resource) l) (terminate_known c l resource now)"
proof -
  have "guarantees (confirms_on (absent_or_gone c (rental l) resource) l)
      (bind (get_instance_of c resource) (terminate_by_lookup c l resource now))"
    unfolding get_instance_of_def by (rule confirms_query [OF lookup_confirms]) simp
  then show ?thesis
    by (simp add: terminate_known_def quiet_guarantees [OF quiet.send_termination_keeps])
qed

lemma absent_mono: "absent c r new \<Longrightarrow> absent c r (old @ new)"
  unfolding absent_def by auto

lemma termination_confirms: "guarantees (confirms_on (absent c (rental l)) l) (reconcile_termination c l now)"
proof (cases "provider_resource_id (rental l)")
  case None
  have "\<exists>P. guarantees (confirms_on P l) (confirm_terminated c l now)
      \<and> (\<forall>new. P new \<longrightarrow> absent c (rental l) (ListCall (owned_query c (rental l)) (Inr []) # new))"
    by (rule confirming_exI [OF confirm_terminated_confirms]) (simp add: absent_def)
  moreover have "\<exists>P. guarantees (confirms_on P l) (terminate_known c l (in_resource_id inst) now)
      \<and> (\<forall>new. P new \<longrightarrow> absent c (rental l) (ListCall (owned_query c (rental l)) (Inr [inst]) # new))" for inst
    by (rule confirming_exI [OF terminate_known_confirms]) (auto simp: absent_def absent_or_gone_def)
  ultimately show ?thesis
    unfolding reconcile_termination_def None option.case
    by (intro confirms_inventory) (simp_all add: quiet.record_retry_keeps)
next
  case (Some res)
  have "confirms_on (absent c (rental l)) l s s'" if "confirms_on (absent_or_gone c (rental l) res) l s s'" for s s' :: "'a ctl"
    using that Some unfolding confirms_on_def absent_def absent_or_gone_def by blast
  then show ?thesis
    using terminate_known_confirms [of c l res now] by (simp add: reconcile_termination_def Some guarantees_def)
qed

lemma ready_confirms: "guarantees (confirms_on (absent c (rental l)) l) (reconcile_ready c l now)"
proof (cases "provider_resource_id (rental l)")
  case None
  then show ?thesis by (simp add: reconcile_ready_def quiet_guarantees [OF quiet.failure_keeps])
next
  case (Some res)
  have "\<exists>P. guarantees (confirms_on P l) (confirm_terminated c l now)
      \<and> (\<forall>new. P new \<longrightarrow> absent c (rental l) (GetCall res (Inr None) # new))"
    by (rule confirming_exI [OF confirm_terminated_confirms]) (auto simp: absent_def Some)
  then show ?thesis
    unfolding reconcile_ready_def Some option.case get_instance_of_def
    by (intro confirms_query)
       (auto simp: no_update_def split: sum.splits option.splits
         intro!: quiet_exI quiet.keeps quiet.update_keeps quiet.check_serving_keeps quiet.record_retry_keeps)
qed

lemma limits_confirms: "guarantees (confirms_on (absent c (rental l)) l) (enforce_limits c l now)"
proof -
  have "guarantees (confirms_on (absent c (rental l)) l) (route_state c l now)"
    by (auto simp: route_state_def Let_def intro: ready_confirms
        quiet_guarantees [OF quiet.create_keeps] quiet_guarantees [OF quiet.allocating_keeps]
        quiet_guarantees [OF quiet.provisioning_keeps] quiet_guarantees [OF quiet.bind_keeps] quiet.release_keeps quiet.ret_keeps)
  then show ?thesis
    by (auto simp: enforce_limits_def no_update_def intro!: quiet_guarantees quiet.keeps quiet.update_keeps)
qed

lemma billing_confirms:
  fixes c :: "'w controller"
  shows "guarantees (confirms_on (absent c (rental l)) l) (refresh_billing c l now)"
proof -
  have "confirms_on (absent c (rental (with_billing b l))) (with_billing b l)
      = (confirms_on (absent c (rental l)) l :: 'w ctl \<Rightarrow> 'w ctl \<Rightarrow> bool)" for b
    by (intro ext) (simp add: confirms_on_def absent_def owned_query_def with_billing_def)
  then have billed: "guarantees (confirms_on (absent c (rental l)) l) (enforce_limits c (with_billing b l) now)" for b
    using limits_confirms [of c "with_billing b l" now] by simp
  show ?thesis
    unfolding refresh_billing_def
    by (auto intro: limits_confirms intro!: confirms_bind [OF quiet.outside_keeps] absent_mono billed
        quiet_guarantees [OF quiet.record_retry_keeps] split: option.splits sum.splits)
qed

lemma lease_confirms: "guarantees (confirms_on (absent c (rental l)) l) (reconcile_lease c l now)"
  unfolding reconcile_lease_def Let_def
  by (auto intro: termination_confirms billing_confirms quiet_guarantees [OF quiet.bind_keeps]
      quiet_guarantees [OF quiet.failure_keeps] quiet.release_keeps quiet.ret_keeps)

section \<open>Termination is confirmed only when the provider has nothing left\<close>

text \<open>C8: Reconciling a lease confirms no termination but the one of the lease's own rental, and
  that only if, while the lease was being reconciled, the provider's inventory was empty under the
  rental's ownership tag, or the provider answered that the rental's instance does not exist; the
  instance is the one the ledger recorded, or the one that the inventory listed under the tag.
  This holds for every provider, credential store and probe.\<close>

theorem termination_confirmed_only_when_absent:
  assumes "reconcile_lease c l now s = (result, s')"
    and "has_state TerminatedConfirmed s' i" and "\<not> has_state TerminatedConfirmed s i"
  shows "i = rental_id (rental l)
    \<and> (\<exists>answers. ctl_log s' = ctl_log s @ answers \<and> absent c (rental l) answers)"
proof -
  have "confirms_on (absent c (rental l)) l s s'" using guaranteesD [OF lease_confirms [of c l now], of s] assms(1) by simp
  then show ?thesis using assms(2,3) by (auto simp: confirms_on_def)
qed

theorem termination_confirmed_only_when_absent_witness:
  "has_state TerminatedConfirmed (snd (reconcile_lease (sample_controller ''a'' True) (sample_held Terminating) 20
       ((sample_state (rental (sample_held Terminating)))\<lparr>ctl_world := (False, 0)\<rparr>))) ''gpu-1''
   \<and> \<not> has_state TerminatedConfirmed ((sample_state (rental (sample_held Terminating)))\<lparr>ctl_world := (False, 0)\<rparr>) ''gpu-1''
   \<and> (\<exists>answers. absent (sample_controller ''a'' True) (rental (sample_held Terminating)) answers
        \<and> ctl_log (snd (reconcile_lease (sample_controller ''a'' True) (sample_held Terminating) 20
             ((sample_state (rental (sample_held Terminating)))\<lparr>ctl_world := (False, 0)\<rparr>))) = answers)"
proof -
  let ?s = "(sample_state (rental (sample_held Terminating)))\<lparr>ctl_world := (False, 0)\<rparr>"
  let ?r = "reconcile_lease (sample_controller ''a'' True) (sample_held Terminating) 20 ?s"
  have confirmed: "has_state TerminatedConfirmed (snd ?r) ''gpu-1''" by code_simp
  have before: "\<not> has_state TerminatedConfirmed ?s ''gpu-1''" by code_simp
  have "?r = (fst ?r, snd ?r)" by simp
  from termination_confirmed_only_when_absent [OF this confirmed before] confirmed before
  show ?thesis by (auto simp: sample_state_def)
qed

end
