(* ===== verification/Gpu_Cleanup.thy ===== *)
theory Gpu_Cleanup
  imports Gpu_Confirmation
begin

text \<open>Rentals whose termination is no longer requested.  An operation begins at most once per state
  sequence, and the sequence only moves when a state changes.  A rental that is already in the state
  for unconfirmed terminations and whose last request failed stays in that state with the same
  sequence, so that the next attempt finds its operation begun and sends nothing.\<close>

section \<open>Stuck rentals\<close>

definition stuck :: "string \<Rightarrow> gpu_db \<Rightarrow> gpu_rental \<Rightarrow> bool" where
  "stuck res db r \<longleftrightarrow>
     desired_state r = TerminateRequested \<and> observed_state r = TerminationUnconfirmed
   \<and> provider_resource_id r = Some res
   \<and> (rental_id r, OpTerminate, state_sequence r) \<in> operation_key ` set (db_operations db)"

definition wedged :: "string \<Rightarrow> string \<Rightarrow> gpu_db \<Rightarrow> bool" where
  "wedged i res db \<longleftrightarrow>
     (\<exists>r \<in> set (db_rentals db). rental_id r = i) \<and> (\<forall>r \<in> set (db_rentals db). rental_id r = i \<longrightarrow> stuck res db r)"

fun terminates :: "string \<Rightarrow> provider_call \<Rightarrow> bool" where
  "terminates i (TerminateCall j _ _) = (j = i)"
| "terminates i _ = False"

definition terminations :: "string \<Rightarrow> provider_call list \<Rightarrow> provider_call list" where
  "terminations i log = filter (terminates i) log"

text \<open>The rental stays stuck, as do the leases on it, and no termination of it is requested.\<close>

definition stays :: "gpu_rental_lease set \<Rightarrow> string \<Rightarrow> string \<Rightarrow> 'w ctl \<Rightarrow> 'w ctl \<Rightarrow> bool" where
  "stays L i res s s' \<longleftrightarrow>
    (wedged i res (ctl_db s) \<and> (\<forall>l \<in> L. rental_id (rental l) = i \<longrightarrow> stuck res (ctl_db s) (rental l)) \<longrightarrow>
     wedged i res (ctl_db s') \<and> (\<forall>l \<in> L. rental_id (rental l) = i \<longrightarrow> stuck res (ctl_db s') (rental l))
     \<and> terminations i (ctl_log s') = terminations i (ctl_log s))"

definition same_stuck :: "gpu_rental \<Rightarrow> gpu_rental \<Rightarrow> bool" where
  "same_stuck r r' \<longleftrightarrow> desired_state r' = desired_state r \<and> observed_state r' = observed_state r
     \<and> provider_resource_id r' = provider_resource_id r \<and> state_sequence r' = state_sequence r"

lemma stuck_mono:
  "stuck res db r \<Longrightarrow> operation_key ` set (db_operations db) \<subseteq> operation_key ` set (db_operations db') \<Longrightarrow>
   rental_id r' = rental_id r \<Longrightarrow> same_stuck r r' \<Longrightarrow> stuck res db' r'"
  unfolding stuck_def same_stuck_def by auto

lemma staysI:
  assumes "db_rentals (ctl_db s') = update_rows p f (db_rentals (ctl_db s))"
    and keys: "operation_key ` set (db_operations (ctl_db s)) \<subseteq> operation_key ` set (db_operations (ctl_db s'))"
    and "terminations i (ctl_log s') = terminations i (ctl_log s)"
    and f: "\<And>r. p r \<Longrightarrow> rental_id (f r) = rental_id r"
      "\<And>r. p r \<Longrightarrow> rental_id r = i \<Longrightarrow> desired_state r = TerminateRequested \<Longrightarrow> observed_state r = TerminationUnconfirmed \<Longrightarrow>
         provider_resource_id r = Some res \<Longrightarrow> same_stuck r (f r)"
  shows "stays L i res s s'"
proof -
  have step: "stuck res (ctl_db s') (if p r then f r else r)"
    if "stuck res (ctl_db s) r" "rental_id r = i" for r
    using that stuck_mono [OF that(1) keys, of "if p r then f r else r"] f [of r]
    by (auto simp: same_stuck_def stuck_def)
  have "wedged i res (ctl_db s')" if w: "wedged i res (ctl_db s)"
  proof -
    have "\<exists>r \<in> set (db_rentals (ctl_db s')). rental_id r = i"
    proof -
      obtain r where r: "r \<in> set (db_rentals (ctl_db s))" "rental_id r = i" using w by (auto simp: wedged_def)
      have "(if p r then f r else r) \<in> set (db_rentals (ctl_db s'))" unfolding assms(1) by (rule update_rowsI [OF r(1)])
      moreover have "rental_id (if p r then f r else r) = i" using r(2) f(1) by simp
      ultimately show ?thesis by blast
    qed
    moreover have "stuck res (ctl_db s') x" if x: "x \<in> set (db_rentals (ctl_db s'))" "rental_id x = i" for x
    proof -
      obtain r where r: "r \<in> set (db_rentals (ctl_db s))" "x = (if p r then f r else r)"
        using x(1) unfolding assms(1) in_update_rows by blast
      then have "rental_id r = i" using x(2) f(1) [of r] by (auto split: if_splits)
      with step [of r] r w show ?thesis by (simp add: wedged_def)
    qed
    ultimately show ?thesis by (simp add: wedged_def)
  qed
  moreover have "stuck res (ctl_db s') (rental l)" if "stuck res (ctl_db s) (rental l)" for l
    using stuck_mono [OF that keys HOL.refl] by (simp add: same_stuck_def)
  ultimately show ?thesis using assms(3) by (auto simp: stays_def)
qed

lemmas stays_same = staysI [where p = "\<lambda>_. False" and f = id, simplified update_rows_def, simplified]

lemma update_rows_keys:
  assumes "\<And>op. p op \<Longrightarrow> operation_key (f op) = operation_key op"
  shows "operation_key ` set (update_rows p f ops) = operation_key ` set ops"
  using assms unfolding update_rows_def by (induction ops) auto

lemma finish_operations:
  "finish_gpu_rental_operation oid st rq rs e now db = Inr (b, db') \<Longrightarrow>
   db_operations db' = update_rows (\<lambda>op. op_operation_id op = oid \<and> op_status op = ''started'')
     (\<lambda>op. op\<lparr>op_status := st, op_provider_request_id := rq, op_provider_resource_id := rs,
        op_sanitized_error := e, op_completed_at_ms := Some now\<rparr>) (db_operations db)"
  by (auto simp: finish_gpu_rental_operation_def Let_def split: if_splits)

lemma side_op_keys: "side_op now db db' \<Longrightarrow> operation_key ` set (db_operations db') = operation_key ` set (db_operations db)"
proof (induction rule: side_op.induct)
  case (side_finish oid st rq rs e now db b db')
  have "operation_key ` set (update_rows p (\<lambda>op. op\<lparr>op_status := st, op_provider_request_id := rq,
      op_provider_resource_id := rs, op_sanitized_error := e, op_completed_at_ms := Some now\<rparr>) ops)
      = operation_key ` set ops" for p ops
    by (rule update_rows_keys) (simp add: operation_key_def)
  with finish_operations [OF side_finish] show ?case by (simp only:)
qed (auto simp: begin_gpu_provision_step_def finish_gpu_provision_step_def
      upsert_gpu_runtime_provider_def refresh_gpu_runtime_provider_def prune_terminal_gpu_runtime_providers_def
      set_gpu_runtime_provider_health_def set_gpu_runtime_provider_health_and_price_def publish_def Let_def
      split: if_splits option.splits)

lemma stays_update:
  assumes "rental_id (rental l) \<noteq> i
    \<or> (up_desired_state u \<in> {None, Some TerminateRequested} \<and> up_observed_state u \<in> {None, Some TerminationUnconfirmed}
       \<and> up_provider_resource_id u \<in> {None, Some res})"
  shows "stays L i res s (s\<lparr>ctl_db := snd (update_gpu_rental l u now (ctl_db s))\<rparr>)"
proof (rule staysI)
  show "db_rentals (ctl_db (s\<lparr>ctl_db := snd (update_gpu_rental l u now (ctl_db s))\<rparr>))
      = update_rows (holds_lease l) (update_columns u now) (db_rentals (ctl_db s))"
    by (simp add: update_rentals)
next
  fix r
  assume "holds_lease l r" "rental_id r = i" "desired_state r = TerminateRequested"
    "observed_state r = TerminationUnconfirmed" "provider_resource_id r = Some res"
  then show "same_stuck r (update_columns u now r)"
    using assms by (auto simp: same_stuck_def update_columns_def coalesce_def coalesce_to_def holds_lease_def split: option.splits)
qed (auto simp: update_gpu_rental_def update_columns_row Let_def)

lemma stays_release: "stays L i res s (s\<lparr>ctl_db := snd (release_gpu_rental_lease l n now (ctl_db s))\<rparr>)"
  by (rule staysI [where p = "holds_lease l" and
      f = "\<lambda>r. r\<lparr>controller_lease_owner := None, controller_lease_until_ms := 0, next_retry_at_ms := n, updated_at_ms := now\<rparr>"])
     (auto simp: release_gpu_rental_lease_def same_stuck_def)


lemma terminations_append [simp]:
  "terminations i (log @ [e]) = terminations i log @ (if terminates i e then [e] else [])"
  by (simp add: terminations_def)

lemma terminates_key: "terminates i e \<Longrightarrow> \<exists>n. call_key e = Some (i, OpTerminate, n)"
  by (cases e) auto

lemma stays_refl: "stays L i res s s"
  by (simp add: stays_def)

lemma stays_trans: "stays L i res s t \<Longrightarrow> stays L i res t u \<Longrightarrow> stays L i res s u"
  by (simp add: stays_def)

lemma stays_query:
  "stays L i res s (s\<lparr>ctl_world := w\<rparr>)"
  "call_key e = None \<Longrightarrow> stays L i res s (s\<lparr>ctl_world := w, ctl_log := ctl_log s @ [e]\<rparr>)"
  by (rule stays_same; use terminates_key [of i e] in auto)+

lemma stays_side: "side_op now (ctl_db s) db' \<Longrightarrow> stays L i res s (s\<lparr>ctl_db := db'\<rparr>)"
  by (rule stays_same) (auto dest: side_op_rentals simp: side_op_keys)

lemma begin_keys:
  "begin_gpu_rental_operation oid j k n now db = Inr (b, db') \<Longrightarrow>
   operation_key ` set (db_operations db) \<subseteq> operation_key ` set (db_operations db')"
  by (auto simp: begin_gpu_rental_operation_def split: if_splits)

section \<open>Handling the other rentals\<close>

interpretation elsewhere: confirming "stays L i res" "\<lambda>l. rental_id (rental l) \<noteq> i" now
proof unfold_locales
  fix s :: "'w ctl" and l oid j k n db' e w
  assume "rental_id (rental l) \<noteq> i" "rental_id (rental l) = j" "call_key e = Some (j, k, n)"
    and begun: "begin_gpu_rental_operation oid j k n now (ctl_db s) = Inr (True, db')"
  then have "\<not> terminates i e" using terminates_key [of i e] by auto
  then show "stays L i res s (s\<lparr>ctl_db := db', ctl_world := w, ctl_log := ctl_log s @ [e]\<rparr>)"
    by (intro stays_same) (use begin_rentals [OF begun] begin_keys [OF begun] in auto)
qed (auto intro: stays_refl stays_trans stays_query stays_side stays_update stays_release simp: with_billing_def)

section \<open>Handling the stuck rental\<close>

lemma stays_assuming:
  assumes "l \<in> L" "rental_id (rental l) = i"
    and "desired_state (rental l) = TerminateRequested \<Longrightarrow> observed_state (rental l) = TerminationUnconfirmed \<Longrightarrow>
      provider_resource_id (rental l) = Some res \<Longrightarrow> guarantees (stays L i res) m"
  shows "guarantees (stays L i res) m"
proof (rule guaranteesI)
  fix s
  show "stays L i res s (snd (m s))"
  proof (cases "stuck res (ctl_db s) (rental l)")
    case True
    with assms(3) show ?thesis by (auto simp: stuck_def dest: guaranteesD)
  next
    case False
    with assms(1,2) show ?thesis by (auto simp: stays_def)
  qed
qed

lemma stuck_update_keeps:
  assumes "up_desired_state u \<in> {None, Some TerminateRequested}" "up_observed_state u \<in> {None, Some TerminationUnconfirmed}"
    "up_provider_resource_id u \<in> {None, Some res}"
  shows "guarantees (stays L i res) (apply_update c l u now)"
proof -
  have "guarantees (stays L i res) (on_db (update_gpu_rental l (with_costs (rental l) u) now))"
    by (intro on_db_guarantees stays_update) (use assms in \<open>simp add: with_costs_def\<close>)
  then show ?thesis unfolding apply_update_def by (intro elsewhere.keeps)
qed

lemma stuck_retry_keeps: "guarantees (stays L i res) (record_termination_retry c l e now)"
  unfolding record_termination_retry_def
  by (intro elsewhere.keeps stuck_update_keeps) (auto simp: no_update_def)

lemma stuck_release_keeps: "guarantees (stays L i res) (release_later c l now)"
proof -
  have "guarantees (stays L i res) (on_db (release_gpu_rental_lease l n now))" for n
    by (intro on_db_guarantees stays_release)
  then show ?thesis unfolding release_later_def by (intro elsewhere.keeps)
qed

lemma stuck_send_keeps:
  assumes "l \<in> L" "rental_id (rental l) = i"
  shows "guarantees (stays L i res) (send_termination c l resource now)"
proof (rule guaranteesI)
  fix s
  show "stays L i res s (snd (send_termination c l resource now s))"
  proof (cases "stuck res (ctl_db s) (rental l)")
    case True
    obtain uuid w where u: "c_new_uuid c (ctl_world s) = (uuid, w)" by fastforce
    let ?t = "s\<lparr>ctl_world := w\<rparr>"
    let ?retry = "record_termination_retry c l (provider_error_new Ambiguous ''A prior termination request is unresolved.'') now"
    have "send_termination c l resource now s = ?retry ?t"
      using True begin_recorded [of "rental_id (rental l)" OpTerminate "state_sequence (rental l)" "ctl_db s"]
      by (simp add: send_termination_def Let_def run_simps outside_def try_db_def u stuck_def)
    moreover have "stays L i res s (snd (?retry ?t))"
      by (rule stays_trans [OF stays_query(1) guaranteesD [OF stuck_retry_keeps]])
    ultimately show ?thesis by simp
  next
    case False
    with assms show ?thesis by (auto simp: stays_def)
  qed
qed

lemma answered_keeps:
  fixes f :: "'x \<Rightarrow> ('w ctl, 'y) action"
  assumes "\<And>w. P (fst (g w))" "\<And>x. call_key (e x) = None" "\<And>x. P x \<Longrightarrow> guarantees (stays L i res) (f x)"
  shows "guarantees (stays L i res) (bind (logged e g) f)"
proof (rule guaranteesI)
  fix s :: "'w ctl"
  obtain x w where g: "g (ctl_world s) = (x, w)" by fastforce
  with assms(1) [of "ctl_world s"] have "P x" by simp
  from stays_trans [OF stays_query(2) guaranteesD [OF assms(3) [OF this]]] assms(2)
  show "stays L i res s (snd (bind (logged e g) f s))" by (simp add: run_simps logged_def g)
qed

text \<open>The provider never says that the resource does not exist.\<close>

definition never_gone :: "'w controller \<Rightarrow> string \<Rightarrow> bool" where
  "never_gone c res \<longleftrightarrow> (\<forall>w. fst (get_instance (c_provider c) res w) \<noteq> Inr None)"

lemma stuck_termination_keeps:
  assumes l: "l \<in> L" "rental_id (rental l) = i" and "never_gone c res"
    and st: "observed_state (rental l) = TerminationUnconfirmed" "provider_resource_id (rental l) = Some res"
  shows "guarantees (stays L i res) (reconcile_termination c l now)"
proof -
  have inventory: "guarantees (stays L i res) (terminate_by_inventory c l res now owned)" for owned
    unfolding terminate_by_inventory_def st
    by (auto intro!: elsewhere.keeps stuck_send_keeps [OF l] stuck_retry_keeps split: sum.splits option.splits)
  have "guarantees (stays L i res) (terminate_by_lookup c l res now x)" if "x \<noteq> Inr None" for x
    unfolding terminate_by_lookup_def st
    by (cases x) (use that in \<open>auto intro!: elsewhere.keeps elsewhere.find_owned_keeps inventory stuck_send_keeps [OF l]
        stuck_retry_keeps split: option.splits\<close>)
  then have "guarantees (stays L i res) (bind (get_instance_of c res) (terminate_by_lookup c l res now))"
    unfolding get_instance_of_def
    by (intro answered_keeps [where P = "\<lambda>x. x \<noteq> Inr None"]) (use assms(3) in \<open>auto simp: never_gone_def\<close>)
  then show ?thesis by (simp add: reconcile_termination_def terminate_known_def st)
qed

lemma stuck_failure_keeps:
  "observed_state (rental l) = TerminationUnconfirmed \<Longrightarrow>
   guarantees (stays L i res) (record_terminal_failure c l code msg now)"
  unfolding record_terminal_failure_def Let_def
  by (intro elsewhere.keeps stuck_update_keeps) (auto simp: no_update_def may_be_billable_def state_may_be_billable_def)

lemma stuck_lease_keeps:
  assumes "l \<in> L" "rental_id (rental l) = i" "never_gone c res"
  shows "guarantees (stays L i res) (reconcile_lease c l now)"
proof (rule stays_assuming [OF assms(1,2)])
  assume "desired_state (rental l) = TerminateRequested" "observed_state (rental l) = TerminationUnconfirmed"
    "provider_resource_id (rental l) = Some res"
  then show ?thesis
    unfolding reconcile_lease_def Let_def must_terminate_def
    by (auto intro!: elsewhere.keeps stuck_release_keeps stuck_failure_keeps stuck_termination_keeps [OF assms])
qed

lemma leases_keep:
  assumes "set ls \<subseteq> L" "never_gone c res"
  shows "guarantees (stays L i res) (reconcile_leases c ls now)"
  using assms(1)
proof (induction ls)
  case (Cons l ls)
  have "guarantees (stays L i res) (reconcile_lease c l now)"
    using Cons.prems stuck_lease_keeps [of l L i, OF _ _ assms(2)] elsewhere.lease_keeps [of l i]
    by (cases "rental_id (rental l) = i") auto
  with Cons show ?case by (auto intro!: elsewhere.keeps)
qed (simp add: elsewhere.keeps)

section \<open>The rental stays stuck\<close>

lemma wedged_rows:
  assumes "wedged i res db" "db_rentals db' = update_rows p f (db_rentals db)" "db_operations db' = db_operations db"
    and "\<And>r. p r \<Longrightarrow> rental_id (f r) = rental_id r"
    and "\<And>r. p r \<Longrightarrow> rental_id r = i \<Longrightarrow> desired_state r = TerminateRequested \<Longrightarrow> observed_state r = TerminationUnconfirmed \<Longrightarrow>
         provider_resource_id r = Some res \<Longrightarrow> same_stuck r (f r)"
  shows "wedged i res db'"
  using staysI [of "\<lparr>ctl_db = db', ctl_world = (), ctl_log = []\<rparr>" p f "\<lparr>ctl_db = db, ctl_world = (), ctl_log = []\<rparr>" i res "{}"] assms
  by (simp add: stays_def)

lemma claim_wedged:
  assumes "claim_due_gpu_rentals_for_provider own prov now ttl limit db = Inr (ls, db')" "wedged i res db"
  shows "wedged i res db' \<and> (\<forall>l \<in> set ls. rental_id (rental l) = i \<longrightarrow> stuck res db' (rental l))"
proof -
  obtain t p where ls: "ls = map (\<lambda>r. \<lparr>rental = leased own t now r, lease_owner = own, lease_until_ms = t\<rparr>) (filter p (db_rentals db))"
    and db': "db' = db\<lparr>db_rentals := update_rows p (leased own t now) (db_rentals db)\<rparr>"
    using claim_for_provider [OF assms(1)] by (auto simp: claim_due_gpu_rentals_inner_def Let_def split: if_splits)
  have "wedged i res db'"
    by (rule wedged_rows [OF assms(2), of _ p "leased own t now"]) (auto simp: db' leased_def same_stuck_def)
  moreover have "stuck res db' (leased own t now r)" if "r \<in> set (db_rentals db)" "rental_id r = i" for r
    using assms(2) that stuck_mono [of res db r db' "leased own t now r"]
    by (auto simp: wedged_def db' leased_def same_stuck_def)
  ultimately show ?thesis by (auto simp: ls leased_def)
qed

interpretation cleanup: batches "stays {} i res" "\<lambda>L. stays L i res" "\<lambda>c. never_gone c res" now
proof unfold_locales
  fix c :: "'a controller" and prov ttl limit s ls db' t
  assume "claim_due_gpu_rentals_for_provider (controller_id (c_config c)) prov now ttl limit (ctl_db s) = Inr (ls, db')"
    and "stays (set ls) i res (s\<lparr>ctl_db := db'\<rparr>) t"
  then show "stays {} i res s t" using claim_wedged [of "controller_id (c_config c)" prov now ttl limit "ctl_db s" ls db' i res]
    by (simp add: stays_def)
qed (auto intro: stays_refl stays_query stays_side leases_keep)

lemma user_wedged:
  assumes "user_op now db db'" "wedged i res db"
  shows "wedged i res db'"
  using assms
proof (induction rule: user_op.induct)
  case (user_create from_str p now db r db')
  have "db' = db \<or> db' = db\<lparr>db_rentals := db_rentals db @ [new_rental_row p now]\<rparr> \<and> rental_id p \<noteq> i"
    using user_create
    by (auto simp: create_gpu_rental_def insert_rental_def ok_or_def wedged_def list_ex_iff split: if_splits option.splits)
  with user_create(2) show ?case by (auto simp: wedged_def stuck_def new_rental_row_def)
next
  case (user_creation now db j)
  show ?case
    by (rule wedged_rows [OF user_creation(1)], simp add: request_gpu_rental_creation_def Let_def)
       (auto simp: request_gpu_rental_creation_def Let_def)
next
  case (user_termination now db j)
  show ?case
    by (rule wedged_rows [OF user_termination(1)], simp add: request_gpu_rental_termination_def Let_def)
       (auto simp: request_gpu_rental_termination_def Let_def same_stuck_def)
next
  case (user_notify j n kind now db b db')
  then show ?case by (auto simp: record_gpu_notification_once_def wedged_def stuck_def split: if_splits)
qed

text \<open>The system runs on while the provider still has the machine.\<close>

inductive cleanup_run :: "string \<Rightarrow> 'w ctl \<Rightarrow> 'w ctl \<Rightarrow> bool" for res where
  cleanup_refl: "cleanup_run res s s"
| cleanup_reconcile: "cleanup_run res s t \<Longrightarrow> never_gone c res \<Longrightarrow> cleanup_run res s (snd (reconcile_due c now t))"
| cleanup_user: "cleanup_run res s t \<Longrightarrow> user_op now (ctl_db t) db' \<Longrightarrow>
    cleanup_run res s (t\<lparr>ctl_db := db', ctl_world := w\<rparr>)"

lemma cleanup_run_stays: "cleanup_run res s t \<Longrightarrow> stays {} i res s t"
proof (induction rule: cleanup_run.induct)
  case (cleanup_reconcile s t c now)
  show ?case by (rule stays_trans [OF cleanup_reconcile(3) guaranteesD [OF cleanup.due_keeps [OF cleanup_reconcile(2)]]])
next
  case (cleanup_user s t now db' w)
  have "stays {} i res t (t\<lparr>ctl_db := db', ctl_world := w\<rparr>)"
    using user_wedged [OF cleanup_user(2), of i res] by (simp add: stays_def)
  then show ?case by (rule stays_trans [OF cleanup_user(3)])
qed (rule stays_refl)


text \<open>A provider that has the machine and rejects every termination.\<close>

definition stubborn_controller :: "sample_world controller" where
  "stubborn_controller = (sample_controller ''a'' True)\<lparr>c_provider := (sample_provider True)\<lparr>
     get_instance := (\<lambda>_ w. (Inr (Some sample_instance), w)),
     terminate_instance := (\<lambda>_ w. (Inl (provider_error_new Retryable ''busy''), w))\<rparr>\<rparr>"

definition stubborn_state :: "int \<Rightarrow> sample_world ctl" where
  "stubborn_state now = snd (reconcile_due stubborn_controller now
     (snd (reconcile_due stubborn_controller 10 (sample_state (sample_rental TerminateRequested)))))"


end
