(* ===== verification/Gpu_Limits.thy ===== *)
theory Gpu_Limits
  imports Gpu_Confirmation
begin

text \<open>What a controller does with the limits a rental was authorised with, with a requested
  termination, and with the time of its next attempt.\<close>

section \<open>Updates under an intact lease\<close>

lemma intact_row:
  assumes "lease_intact l db"
  obtains r where "r \<in> set (db_rentals db)" "holds_lease l r"
  using assms by (auto simp: lease_intact_def)

lemma apply_update_intact:
  assumes "ledger_ok (ctl_db s)" "lease_intact l (ctl_db s)"
  shows "apply_update c l u now s =
    (Inr (), s\<lparr>ctl_db := snd (update_gpu_rental l (with_costs (rental l) u) now (ctl_db s))\<rparr>)"
proof -
  obtain r where "r \<in> set (db_rentals (ctl_db s))" "holds_lease l r" using intact_row [OF assms(2)] .
  then have "fst (update_gpu_rental l (with_costs (rental l) u) now (ctl_db s))"
    using assms(1) by (auto simp: update_result list_ex_iff)
  then show ?thesis by (simp add: apply_update_def run_simps on_db_def case_prod_beta)
qed

lemma updated_row:
  assumes "lease_intact l db"
  obtains r where "r \<in> set (db_rentals db)" "rental_id r = rental_id (rental l)"
    "update_columns u now r \<in> set (db_rentals (snd (update_gpu_rental l u now db)))"
proof -
  obtain r where r: "r \<in> set (db_rentals db)" "holds_lease l r" using intact_row [OF assms] .
  with update_rowsI [OF r(1), of "holds_lease l" "update_columns u now"] that [OF r(1)]
  show ?thesis by (simp add: update_rentals holds_lease_def)
qed

section \<open>Limits\<close>

text \<open>The provider is the lease's and can be reconciled with, and nothing asks for termination yet.\<close>

definition in_service :: "'w controller \<Rightarrow> gpu_rental_lease \<Rightarrow> string \<Rightarrow> bool" where
  "in_service c l res \<longleftrightarrow>
     provider (rental l) = pc_provider (capabilities (c_provider c))
   \<and> pc_supports_inventory (capabilities (c_provider c)) \<and> pc_supports_ownership_tags (capabilities (c_provider c))
   \<and> \<not> must_terminate (rental l) \<and> provider_resource_id (rental l) = Some res \<and> may_be_billable (rental l)"

lemma in_service_reconcile:
  assumes "in_service c l res"
  shows "reconcile_lease c l now = bind (outside (billing_state_of (c_provider c) res)) (\<lambda>answer.
     case answer of Inl e \<Rightarrow> record_retry c l e now | Inr billing \<Rightarrow> enforce_limits c (with_billing billing l) now)"
  using assms by (simp add: in_service_def reconcile_lease_def refresh_billing_def Let_def)

lemma with_billing_lease [simp]:
  "rental_id (rental (with_billing b l)) = rental_id (rental l)"
  "lease_owner (with_billing b l) = lease_owner l" "lease_until_ms (with_billing b l) = lease_until_ms l"
  "desired_state (rental (with_billing b l)) = desired_state (rental l)"
  "terminate_at_ms (rental (with_billing b l)) = terminate_at_ms (rental l)"
  "max_total_microusd (rental (with_billing b l)) = max_total_microusd (rental l)"
  "estimated_accrued_microusd (rental (with_billing b l)) = bl_estimated_accrued_microusd b"
  by (simp_all add: with_billing_def)

lemma with_billing_intact [simp]: "lease_intact (with_billing b l) db = lease_intact l db"
  by (simp add: lease_intact_def holds_lease_def)

text \<open>C17: The authorised limits are enforced.  When the lease of a rental in service is reconciled,
  the provider tells what it has cost, and the rental's time is over or that cost has reached the
  authorised total, then its termination is requested in the ledger, due at once and free for every
  controller to claim, the cost is recorded and the user is warned.  The provider is not called.\<close>

theorem limits_are_enforced:
  assumes "ledger_ok (ctl_db s)" and "lease_intact l (ctl_db s)" and "in_service c l res"
    and "billing_state_of (c_provider c) res (ctl_world s) = (Inr b, w)"
    and "now \<ge> terminate_at_ms (rental l) \<or> bl_estimated_accrued_microusd b \<ge> max_total_microusd (rental l)"
  shows "\<exists>s'. reconcile_lease c l now s = (Inr [Warning (rental_id (rental l)) ''spend-limit''
        ''Rental reached its authorized spend or time limit; termination requested.''], s')
     \<and> ctl_log s' = ctl_log s
     \<and> (\<exists>r \<in> set (db_rentals (ctl_db s')). rental_id r = rental_id (rental l)
          \<and> desired_state r = TerminateRequested \<and> observed_state r = TerminateRequested
          \<and> controller_lease_owner r = None \<and> next_retry_at_ms r = now
          \<and> estimated_accrued_microusd r = bl_estimated_accrued_microusd b)"
proof -
  let ?l = "with_billing b l" and ?t = "s\<lparr>ctl_world := w\<rparr>"
  let ?u = "no_update\<lparr>up_desired_state := Some TerminateRequested, up_observed_state := Some TerminateRequested,
    up_next_retry_at_ms := Some now\<rparr>"
  let ?v = "with_costs (rental ?l) ?u"
  have reached: "limit_reached (rental ?l) now"
    using assms(3,5) by (auto simp: limit_reached_def in_service_def must_terminate_def)
  have "reconcile_lease c l now s = enforce_limits c ?l now ?t"
    by (simp add: in_service_reconcile [OF assms(3)] run_simps outside_def assms(4))
  also have "\<dots> = (Inr [Warning (rental_id (rental l)) ''spend-limit''
        ''Rental reached its authorized spend or time limit; termination requested.''],
      ?t\<lparr>ctl_db := snd (update_gpu_rental ?l ?v now (ctl_db s))\<rparr>)"
    using reached assms(1,2) by (simp add: enforce_limits_def run_simps apply_update_intact)
  finally have run: "reconcile_lease c l now s = \<dots>" .
  have "lease_intact ?l (ctl_db s)" using assms(2) by simp
  then obtain r where r: "rental_id r = rental_id (rental ?l)"
    "update_columns ?v now r \<in> set (db_rentals (snd (update_gpu_rental ?l ?v now (ctl_db s))))"
    by (rule updated_row)
  have "may_be_billable (rental ?l)" using assms(3) by (simp add: in_service_def)
  then have "desired_state (update_columns ?v now r) = TerminateRequested"
    "observed_state (update_columns ?v now r) = TerminateRequested"
    "controller_lease_owner (update_columns ?v now r) = None" "next_retry_at_ms (update_columns ?v now r) = now"
    "estimated_accrued_microusd (update_columns ?v now r) = bl_estimated_accrued_microusd b"
    "rental_id (update_columns ?v now r) = rental_id (rental l)"
    using r(1) by (simp_all add: update_columns_def with_costs_def no_update_def coalesce_to_def)
  with r(2) show ?thesis unfolding run by auto
qed

lemma sample_held_ok:
  "ledger_ok (ctl_db (sample_state (rental (sample_held Ready))))"
  "lease_intact (sample_held Ready) (ctl_db (sample_state (rental (sample_held Ready))))"
  by (simp_all add: ledger_ok_def sample_state_def sample_held_def sample_rental_def empty_db_def rentals_ok_def
      operations_ok_def notifications_ok_def steps_ok_def runtime_providers_ok_def rental_ids_def row_ok_def
      new_rental_row_def leased_def lease_intact_def holds_lease_def)

lemma sample_in_service: "in_service (sample_controller ''a'' True) (sample_held Ready) ''m1''"
  by code_simp

theorem limits_are_enforced_witness:
  "terminate_at_ms (rental (sample_held Ready)) = 1000000
   \<and> (\<exists>s'. reconcile_lease (sample_controller ''a'' True) (sample_held Ready) 1000000
          (sample_state (rental (sample_held Ready)))
        = (Inr [Warning ''gpu-1'' ''spend-limit''
            ''Rental reached its authorized spend or time limit; termination requested.''], s')
      \<and> ctl_log s' = []
      \<and> (\<exists>r \<in> set (db_rentals (ctl_db s')). rental_id r = ''gpu-1''
           \<and> desired_state r = TerminateRequested \<and> observed_state r = TerminateRequested
           \<and> controller_lease_owner r = None \<and> next_retry_at_ms r = 1000000 \<and> estimated_accrued_microusd r = 7))"
proof -
  let ?b = "\<lparr> bl_resource_id = ''m1'', bl_estimated_accrued_microusd = 7,
       bl_provider_reported_cost_microusd = None, bl_still_billable = True \<rparr>"
  have t: "terminate_at_ms (rental (sample_held Ready)) = 1000000" by code_simp
  have i: "rental_id (rental (sample_held Ready)) = ''gpu-1''" by code_simp
  have b: "billing_state_of (c_provider (sample_controller ''a'' True)) ''m1''
      (ctl_world (sample_state (rental (sample_held Ready)))) = (Inr ?b, (True, 0))"
    by (simp add: sample_controller_def sample_provider_def sample_state_def)
  have "1000000 \<ge> terminate_at_ms (rental (sample_held Ready)) \<or>
      bl_estimated_accrued_microusd ?b \<ge> max_total_microusd (rental (sample_held Ready))" by (simp add: t)
  from limits_are_enforced [OF sample_held_ok sample_in_service b this] t i
  show ?thesis by (simp add: sample_state_def)
qed

text \<open>While the provider cannot tell what a rental in service has cost, no limit is enforced, at
  any time.  Whatever the error, no rental's termination is requested, in the ledger or from the
  provider, even after the time it was authorised for is over.\<close>

lemma billing_outage_suspends_limits:
  assumes "in_service c l res" and "billing_state_of (c_provider c) res (ctl_world s) = (Inl e, w)"
    and "reconcile_lease c l now s = (result, s')"
  shows "map desired_state (db_rentals (ctl_db s')) = map desired_state (db_rentals (ctl_db s)) \<and> ctl_log s' = ctl_log s"
proof -
  have "(result, s') = record_retry c l e now (s\<lparr>ctl_world := w\<rparr>)"
    using assms(3) by (simp add: in_service_reconcile [OF assms(1)] run_simps outside_def assms(2))
  moreover have "map desired_state (update_rows p (update_columns (with_costs r (no_update\<lparr>up_observed_state := ob,
      up_last_error_code := c1, up_last_error_message := c2, up_diagnostic_ref := c3, up_next_retry_at_ms := c4,
      up_increment_retry_count := True\<rparr>)) now) rows) = map desired_state rows" for p r ob c1 c2 c3 c4 rows
    by (induction rows) (auto simp: update_rows_def update_columns_row with_costs_def no_update_def coalesce_to_def)
  ultimately show ?thesis
    by (auto simp: record_retry_def apply_update_def run_simps on_db_def case_prod_beta update_rentals
        split: option.splits if_splits)
qed

lemma billing_outage_suspends_limits_witness:
  "map desired_state (db_rentals (ctl_db (snd (reconcile_lease
      ((sample_controller ''a'' True)\<lparr>c_provider := (sample_provider True)\<lparr>
         billing_state_of := (\<lambda>_ w. (Inl (provider_error_new Retryable ''down''), w))\<rparr>\<rparr>)
      (sample_held Ready) 2000000 (sample_state (rental (sample_held Ready)))))))
     = map desired_state (db_rentals (ctl_db (sample_state (rental (sample_held Ready)))))
   \<and> terminate_at_ms (rental (sample_held Ready)) < 2000000"
proof -
  let ?c = "(sample_controller ''a'' True)\<lparr>c_provider := (sample_provider True)\<lparr>
         billing_state_of := (\<lambda>_ w. (Inl (provider_error_new Retryable ''down''), w))\<rparr>\<rparr>"
  let ?s = "sample_state (rental (sample_held Ready))"
  have serving: "in_service ?c (sample_held Ready) ''m1''" by code_simp
  have b: "billing_state_of (c_provider ?c) ''m1'' (ctl_world ?s)
      = (Inl (provider_error_new Retryable ''down''), ctl_world ?s)" by simp
  have late: "terminate_at_ms (rental (sample_held Ready)) < 2000000" by code_simp
  have "reconcile_lease ?c (sample_held Ready) 2000000 ?s
      = (fst (reconcile_lease ?c (sample_held Ready) 2000000 ?s), snd (reconcile_lease ?c (sample_held Ready) 2000000 ?s))"
    by simp
  from billing_outage_suspends_limits [OF serving b this] late show ?thesis by blast
qed

section \<open>The time of the next attempt\<close>

lemma jitter_bounds:
  fixes b :: int and h :: "64 word"
  assumes "0 \<le> b"
  shows "b * 750 \<le> b * (750 + uint h mod 501)" "b * (750 + uint h mod 501) \<le> b * 1250"
proof -
  have "0 \<le> uint h mod 501" "uint h mod 501 < 501" by (rule pos_mod_sign pos_mod_bound; simp)+
  then show "b * 750 \<le> b * (750 + uint h mod 501)" "b * (750 + uint h mod 501) \<le> b * 1250"
    using assms by (intro mult_left_mono; simp)+
qed

text \<open>The controller backs off exponentially, with jitter and within bounds.  Without advice from
  the provider the delay is positive, at most the configured maximum, and, unless the maximum cuts
  it off, between three and five quarters of a second for every unit of two to the number of
  retries, of which at most six count; no intermediate result overflows.\<close>

lemma retry_delay_bounded:
  assumes "1 \<le> maximum_retry_ms cfg"
  shows "\<exists>d. retry_delay_ms cfg r None = Some d \<and> 1 \<le> d \<and> d \<le> maximum_retry_ms cfg
    \<and> d \<le> 1250 * 2 ^ nat (clamp 0 6 (retry_count r))
    \<and> min (maximum_retry_ms cfg) (750 * 2 ^ nat (clamp 0 6 (retry_count r))) \<le> d"
proof -
  define k where "k = nat (clamp 0 6 (retry_count r))"
  define h where "h = fnv1a64 (map byte (rental_id r) @ to_le_bytes (retry_count r))"
  have "k \<le> 6" by (simp add: k_def clamp_def nat_le_iff)
  then have p: "(1::int) \<le> 2 ^ k" "(2::int) ^ k \<le> 64" using power_increasing [of k 6 "2::int"] by simp_all
  let ?m = "2 ^ k * (750 + uint h mod 501) :: int"
  have j: "2 ^ k * 750 \<le> ?m" "?m \<le> 2 ^ k * 1250" using jitter_bounds [of "2 ^ k" h] by simp_all
  have "sat_i64 (2 ^ k) = 2 ^ k" "sat_i64 (1000 * 2 ^ k) = 1000 * 2 ^ k" "sat_i64 (1000 * ?m) = 1000 * ?m"
    using p j by (intro sat_i64_id; unfold i64_min_def i64_max_def; linarith)+
  then have "saturating_mul (saturating_mul 1000 (sat_i64 (2 ^ k))) (750 + uint h mod 501) div 1000 = ?m"
    by (simp add: saturating_mul_def mult.assoc)
  then have "retry_delay_ms cfg r None = Some (clamp 1 (maximum_retry_ms cfg) ?m)"
    using assms by (simp add: retry_delay_ms_def Let_def k_def [symmetric] h_def [symmetric])
  moreover have "1 \<le> clamp 1 M m \<and> clamp 1 M m \<le> M \<and> clamp 1 M m \<le> 1250 * q \<and> min M (750 * q) \<le> clamp 1 M m"
    if "1 \<le> M" "1 \<le> q" "q * 750 \<le> m" "m \<le> q * 1250" for M m q :: int
    using that by (auto simp: clamp_def)
  ultimately show ?thesis using assms p(1) j unfolding k_def [symmetric] by blast
qed

lemma retry_delay_bounded_witness:
  "1 \<le> maximum_retry_ms (default_config [])
   \<and> (\<exists>d. retry_delay_ms (default_config []) ((sample_rental Ready)\<lparr>retry_count := 3\<rparr>) None = Some d \<and> 6000 \<le> d \<and> d \<le> 10000)"
proof -
  have m: "maximum_retry_ms (default_config []) = 300000" by code_simp
  have "nat (clamp 0 6 3) = 3" by code_simp
  then show ?thesis
    using retry_delay_bounded [of "default_config []" "(sample_rental Ready)\<lparr>retry_count := 3\<rparr>"] m by auto
qed

section \<open>Requested terminations\<close>

text \<open>Steps that do not call the provider.\<close>

definition same_log :: "'w ctl \<Rightarrow> 'w ctl \<Rightarrow> bool" where
  "same_log s s' \<longleftrightarrow> ctl_log s' = ctl_log s"

interpretation silent: guarantee same_log
  by unfold_locales (simp_all add: same_log_def)

lemma silent_db: "guarantees same_log (try_db f)" "guarantees same_log (on_db f')"
  by (auto intro!: guaranteesI on_db_guarantees simp: same_log_def try_db_def split: sum.splits)

lemma silent_update: "guarantees same_log (apply_update c l u now)"
  unfolding apply_update_def by (intro silent.keeps silent_db)

lemma silent_retry:
  "guarantees same_log (record_termination_retry c l e now)" "guarantees same_log (record_retry c l e now)"
  unfolding record_termination_retry_def record_retry_def by (intro silent.keeps silent_update)+

lemma begin_fresh:
  assumes "(i, k, n) \<notin> operation_key ` set (db_operations db)" "oid \<notin> op_operation_id ` set (db_operations db)"
    "rental_exists db i"
  shows "\<exists>db'. begin_gpu_rental_operation oid i k n now db = Inr (True, db')"
proof -
  have "\<not> list_ex (same_operation i k n) (db_operations db)" "\<not> list_ex (\<lambda>op. op_operation_id op = oid) (db_operations db)"
    using assms(1,2) by (auto simp: list_ex_iff same_operation_def operation_key_def image_iff)
  then show ?thesis using assms(3) by (simp add: begin_gpu_rental_operation_def)
qed



lemma termination_intact:
  "lease_intact l db \<Longrightarrow> lease_intact l (snd (request_gpu_rental_termination i t db))"
  by (auto simp: request_gpu_rental_termination_def Let_def holds_lease_def intro!: lease_intact_set)

lemma termination_accepted:
  assumes "ledger_ok db" "lease_intact l db"
  shows "fst (request_gpu_rental_termination (rental_id (rental l)) t db)"
proof -
  obtain r where r: "r \<in> set (db_rentals db)" "holds_lease l r" using intact_row [OF assms(2)] .
  then have "observed_state r \<noteq> TerminatedConfirmed"
    using assms(1) by (auto simp: ledger_ok_def rentals_ok_def row_ok_def holds_lease_def)
  moreover have "distinct (map rental_id (db_rentals db))" using assms(1) by (simp add: ledger_ok_def rentals_ok_def)
  ultimately show ?thesis
    using r count_rows_unique [of rental_id "db_rentals db"
        "\<lambda>r. rental_id r = rental_id (rental l) \<and> observed_state r \<noteq> TerminatedConfirmed" "rental_id (rental l)"]
    by (auto simp: request_gpu_rental_termination_def Let_def holds_lease_def list_ex_iff)
qed

text \<open>A termination can get lost.  When a user requests the termination of a rental while a
  controller that holds its lease is about to publish it as ready, the ledger accepts the request;
  the controller's update, which is only checked against the lease, then replaces it, and the
  rental is ready and wanted ready again.\<close>

lemma publishing_discards_termination:
  assumes "ledger_ok (ctl_db s)" and "lease_intact l (ctl_db s)"
    and "request_gpu_rental_termination (rental_id (rental l)) t (ctl_db s) = (accepted, db')"
  shows "accepted \<and> (\<exists>r \<in> set (db_rentals (ctl_db (snd (publish_ready c l recipe endpoint now (s\<lparr>ctl_db := db'\<rparr>))))).
       rental_id r = rental_id (rental l) \<and> desired_state r = Ready \<and> observed_state r = Ready)"
proof -
  let ?u = "no_update\<lparr>up_desired_state := Some Ready, up_observed_state := Some Ready, up_provision_step := Some ''ready'',
    up_endpoint_base_url := Some endpoint, up_endpoint_provider_id := Some (''gpu-'' @ rental_id (rental l)),
    up_next_retry_at_ms := Some (saturating_add now (normal_poll_ms (c_config c))), up_clear_last_error := True\<rparr>"
  let ?v = "with_costs (rental l) ?u"
  let ?t = "s\<lparr>ctl_db := snd (update_gpu_rental l ?v now db')\<rparr>"
  have "accepted" using termination_accepted [OF assms(1,2)] assms(3) by (metis fst_conv)
  have ok: "ledger_ok db'" "lease_intact l db'"
    using request_termination_sound [of "ctl_db s" "rental_id (rental l)" t] termination_intact [OF assms(2)] assms(1,3)
    by (metis snd_conv sound_step_def)+
  obtain r where r: "rental_id r = rental_id (rental l)"
    "update_columns ?v now r \<in> set (db_rentals (snd (update_gpu_rental l ?v now db')))"
    using updated_row [OF ok(2)] by metis
  have "db_rentals (ctl_db (snd (publish_ready c l recipe endpoint now (s\<lparr>ctl_db := db'\<rparr>)))) = db_rentals (ctl_db ?t)"
    using apply_update_intact [of "s\<lparr>ctl_db := db'\<rparr>" l c ?u now] ok
    by (auto simp: publish_ready_def Let_def run_simps try_db_def side_op_rentals [OF side_upsert] split: sum.splits)
  moreover have "desired_state (update_columns ?v now r) = Ready" "observed_state (update_columns ?v now r) = Ready"
    "rental_id (update_columns ?v now r) = rental_id (rental l)"
    using r(1) by (simp_all add: update_columns_row with_costs_def no_update_def coalesce_to_def)
  ultimately show ?thesis using r(2) \<open>accepted\<close> by auto
qed

lemma publishing_discards_termination_witness:
  "fst (request_gpu_rental_termination ''gpu-1'' 15 (ctl_db (sample_state (rental (sample_held Ready)))))
   \<and> (\<exists>r \<in> set (db_rentals (ctl_db (snd (publish_ready (sample_controller ''a'' True) (sample_held Ready) sample_recipe ''https://m1'' 20
         ((sample_state (rental (sample_held Ready)))\<lparr>ctl_db :=
            snd (request_gpu_rental_termination ''gpu-1'' 15 (ctl_db (sample_state (rental (sample_held Ready)))))\<rparr>))))).
       rental_id r = ''gpu-1'' \<and> desired_state r = Ready \<and> observed_state r = Ready)"
proof -
  have i: "rental_id (rental (sample_held Ready)) = ''gpu-1''" by code_simp
  from publishing_discards_termination [OF sample_held_ok, of 15 _ _ "sample_controller ''a'' True" sample_recipe "''https://m1''" 20]
  show ?thesis unfolding i by (metis prod.collapse)
qed

end
