(* ===== verification/Gpu_Authorization.thy ===== *)
theory Gpu_Authorization
  imports Gpu_Limits
begin

text \<open>Creations stay within what was authorised: every request to create an instance, by whichever
  controller and however late, is for a rental of the ledger and asks for an offer within the hourly
  limit that the rental was created with.\<close>

section \<open>Requests for the rentals of the ledger\<close>

fun authorised :: "gpu_db \<Rightarrow> provider_call \<Rightarrow> bool" where
  "authorised db (CreateCall i n rq) \<longleftrightarrow>
     (\<exists>r \<in> set (db_rentals db). rental_id r = i
        \<and> cr_ownership_tag rq = ownership_tag r \<and> cr_client_operation_id rq = client_operation_id r
        \<and> 0 < of_hourly_microusd (cr_offer rq) \<and> of_hourly_microusd (cr_offer rq) \<le> max_hourly_microusd r)"
| "authorised db _ \<longleftrightarrow> True"

definition terms_known :: "gpu_rental_lease set \<Rightarrow> gpu_db \<Rightarrow> bool" where
  "terms_known L db \<longleftrightarrow> (\<forall>l \<in> L. \<exists>r \<in> set (db_rentals db). terms r = terms (rental l))"

definition keeps_authorised :: "gpu_rental_lease set \<Rightarrow> 'w ctl \<Rightarrow> 'w ctl \<Rightarrow> bool" where
  "keeps_authorised L s s' \<longleftrightarrow>
    (ledger_ok (ctl_db s) \<and> terms_known L (ctl_db s) \<and> list_all (authorised (ctl_db s)) (ctl_log s) \<longrightarrow>
     ledger_ok (ctl_db s') \<and> terms_known L (ctl_db s') \<and> list_all (authorised (ctl_db s')) (ctl_log s'))"

lemma authorised_mono:
  assumes "ledger_advances db db'" "authorised db e"
  shows "authorised db' e"
proof (cases e)
  case (CreateCall i n rq)
  with assms(2) obtain r where r: "r \<in> set (db_rentals db)" "rental_id r = i"
    "cr_ownership_tag rq = ownership_tag r" "cr_client_operation_id rq = client_operation_id r"
    "0 < of_hourly_microusd (cr_offer rq)" "of_hourly_microusd (cr_offer rq) \<le> max_hourly_microusd r" by auto
  with assms(1) obtain r' where "r' \<in> set (db_rentals db')" "terms r' = terms r"
    by (auto simp: ledger_advances_def dest!: advances_terms)
  with r CreateCall show ?thesis by (auto simp: terms_eq_iff)
qed simp_all

lemma terms_known_mono:
  assumes "ledger_advances db db'" "terms_known L db"
  shows "terms_known L db'"
  unfolding terms_known_def
proof
  fix l
  assume "l \<in> L"
  with assms(2) obtain r where "r \<in> set (db_rentals db)" "terms r = terms (rental l)" by (auto simp: terms_known_def)
  with assms(1) show "\<exists>r \<in> set (db_rentals db'). terms r = terms (rental l)"
    unfolding ledger_advances_def using advances_terms by metis
qed

lemma keeps_authorised_sound:
  assumes "sound_step (ctl_db s) (ctl_db s')" "ctl_log s' = ctl_log s"
  shows "keeps_authorised L s s'"
  using assms terms_known_mono authorised_mono
  unfolding keeps_authorised_def sound_step_def list_all_iff by metis

lemma sendable_authorised:
  assumes "sendable l now e" "call_key e = Some (rental_id (rental l), k, n)"
    and "r \<in> set (db_rentals db)" "terms r = terms (rental l)"
  shows "authorised db e"
proof (cases e)
  case (CreateCall i m rq)
  with assms(1) obtain recipe where
    "validate_for (cr_offer rq) (recipe_request recipe (max_hourly_microusd (rental l))) now = Inr ()" by auto
  then have "0 < of_hourly_microusd (cr_offer rq) \<and> of_hourly_microusd (cr_offer rq) \<le> max_hourly_microusd (rental l)"
    by (simp add: validate_for_def recipe_request_def split: if_splits)
  with assms CreateCall show ?thesis by (auto simp: terms_eq_iff)
qed simp_all

text \<open>The leases a batch handles, and the same leases with refreshed costs.\<close>

definition of_batch :: "gpu_rental_lease set \<Rightarrow> gpu_rental_lease \<Rightarrow> bool" where
  "of_batch L l \<longleftrightarrow> (\<exists>l' \<in> L. terms (rental l') = terms (rental l))"

lemma of_batch_row:
  assumes "of_batch L l" "terms_known L db"
  obtains r where "r \<in> set (db_rentals db)" "terms r = terms (rental l)"
  using assms unfolding of_batch_def terms_known_def by metis

lemma of_batch_billing: "of_batch L l \<Longrightarrow> of_batch L (with_billing b l)"
  by (simp add: of_batch_def with_billing_def terms_eq_iff)

lemma keeps_authorised_begun:
  assumes "begin_gpu_rental_operation oid i k n now (ctl_db s) = Inr (True, db')" "of_batch L l"
    and "rental_id (rental l) = i" "sendable l now e" "call_key e = Some (i, k, n)"
  shows "keeps_authorised L s (s\<lparr>ctl_db := db', ctl_world := w, ctl_log := ctl_log s @ [e]\<rparr>)"
proof -
  have "authorised db' e" if known: "terms_known L (ctl_db s)"
  proof -
    obtain r where "r \<in> set (db_rentals (ctl_db s))" "terms r = terms (rental l)" by (rule of_batch_row [OF assms(2) known])
    then show ?thesis using sendable_authorised assms(3-5) begin_rentals [OF assms(1)] by metis
  qed
  then show ?thesis
    using begin_operation_sound [OF assms(1)] terms_known_mono [of "ctl_db s" db' L] authorised_mono [of "ctl_db s" db']
    by (auto simp: keeps_authorised_def sound_step_def list_all_iff)
qed

lemma keeps_authorised_query:
  "keeps_authorised L s (s\<lparr>ctl_world := w\<rparr>)"
  "call_key e = None \<Longrightarrow> keeps_authorised L s (s\<lparr>ctl_world := w, ctl_log := ctl_log s @ [e]\<rparr>)"
  by (simp_all add: keeps_authorised_def, cases e, simp_all)

lemma keeps_authorised_db: "sound_step (ctl_db s) db' \<Longrightarrow> keeps_authorised L s (s\<lparr>ctl_db := db'\<rparr>)"
  by (rule keeps_authorised_sound) simp_all

interpretation authorising: confirming "keeps_authorised L" "of_batch L" now
proof unfold_locales
  show "keeps_authorised L s s" and "keeps_authorised L s t \<Longrightarrow> keeps_authorised L t u \<Longrightarrow> keeps_authorised L s u"
    for s t u :: "'a ctl" by (simp_all add: keeps_authorised_def)
qed (auto intro: keeps_authorised_query keeps_authorised_begun keeps_authorised_db update_sound release_sound
      side_op_sound of_batch_billing)

lemma claim_authorised:
  assumes "claim_due_gpu_rentals_for_provider own prov now ttl limit (ctl_db s) = Inr (ls, db')"
    and "keeps_authorised (set ls) (s\<lparr>ctl_db := db'\<rparr>) t"
  shows "keeps_authorised {} s t"
proof -
  note claim = claim_for_provider [OF assms(1)]
  have "keeps_authorised {} s (s\<lparr>ctl_db := db'\<rparr>)" by (rule keeps_authorised_db [OF claim_sound [OF claim]])
  moreover have "terms_known (set ls) db'" if "ledger_ok (ctl_db s)"
    using claim_gives_lease [OF claim that] by (auto simp: terms_known_def)
  ultimately show ?thesis using assms(2) by (simp add: keeps_authorised_def terms_known_def)
qed

interpretation authorised_batches: batches "keeps_authorised {}" keeps_authorised "\<lambda>_. True" now
proof unfold_locales
  show "guarantees (keeps_authorised (set ls)) (reconcile_leases c ls now)" for ls and c :: "'a controller"
    by (rule authorising.leases_keeps) (auto simp: of_batch_def)
qed (auto intro: keeps_authorised_query keeps_authorised_db side_op_sound claim_authorised)

lemma system_run_authorised: "system_run s t \<Longrightarrow> keeps_authorised {} s t"
proof (induction rule: system_run.induct)
  case (system_reconcile s t c now)
  show ?case
    by (rule authorising.trans [OF system_reconcile(2) guaranteesD [OF authorised_batches.due_keeps]]) simp
next
  case (system_user s t now db' w)
  have "keeps_authorised {} t (t\<lparr>ctl_db := db', ctl_world := w\<rparr>)"
    by (rule keeps_authorised_sound) (simp_all add: user_op_sound [OF system_user(2)])
  then show ?case by (rule authorising.trans [OF system_user(3)])
qed (rule authorising.refl)

lemma creation_authorised:
  assumes "ledger_ok (ctl_db s)" "ctl_log s = []" "system_run s t" "CreateCall i n rq \<in> set (ctl_log t)"
  shows "authorised (ctl_db t) (CreateCall i n rq)"
  using system_run_authorised [OF assms(3)] assms(1,2,4)
  by (auto simp: keeps_authorised_def terms_known_def list_all_iff)

end
