(* ===== verification/Gpu_Market.thy ===== *)
theory Gpu_Market
  imports Gpu_Authorization "HOL-Library.Char_ord" "HOL-Library.Multiset"
begin

text \<open>The service behind the market's commands (\<^verbatim>\<open>codex-rs/gpu-market/src/market.rs\<close>): searching the
  offers of two providers, and confirming a selected offer under an authorisation, which puts a
  rental into the ledger and asks for its creation.  The two searches run concurrently in the
  program; here the first is asked before the second, and each may answer anything.  A confirmation
  fails with a provider error, and the pauses between its attempts are left out.\<close>

section \<open>Requests and authorisations\<close>

record rental_authorization =
  au_client_operation_id :: string
  au_maximum_hourly_microusd :: int
  au_maximum_total_microusd :: int
  au_terminate_at_ms :: int
  au_acknowledged_local_enforcement :: bool

record gpu_market_service =
  ms_recipes :: recipe_catalog
  ms_installation_id :: string
  ms_codec :: codec

definition verified_recipe :: "gpu_market_service \<Rightarrow> string \<Rightarrow> gpu_recipe provider_result" where
  "verified_recipe ms i =
    (case catalog_get (ms_recipes ms) i of
       None \<Rightarrow> Inl (provider_error_new InvalidRequest ''GPU recipe was not found.'')
     | Some recipe \<Rightarrow>
         if \<not> rc_manifest_verified recipe
         then Inl (provider_error_new InvalidRequest
                ''GPU recipe creation is disabled until its immutable manifest is verified.'')
         else Inr recipe)"

definition search_request :: "gpu_recipe \<Rightarrow> int \<Rightarrow> search_offers_request provider_result" where
  "search_request recipe maximum =
    (if maximum \<le> 0
     then Inl (provider_error_new InvalidRequest ''Maximum hourly price must be positive.'')
     else Inr (recipe_request recipe maximum))"

definition validate_authorization_identity :: "rental_authorization \<Rightarrow> unit provider_result" where
  "validate_authorization_identity a =
    (if trim (au_client_operation_id a) = [] \<or> length (au_client_operation_id a) > 100
        \<or> \<not> list_all (\<lambda>ch. is_ascii_alphanumeric ch \<or> ch = CHR ''-'' \<or> ch = CHR ''_'') (au_client_operation_id a)
     then Inl (provider_error_new InvalidRequest
            ''GPU rental authorization identity is invalid; no rental was created.'')
     else Inr ())"

definition validate_authorization_limits :: "rental_authorization \<Rightarrow> int \<Rightarrow> unit provider_result" where
  "validate_authorization_limits a now =
    (if au_maximum_hourly_microusd a \<le> 0 \<or> au_maximum_total_microusd a \<le> 0
     then Inl (provider_error_new InvalidRequest
            ''GPU rental spending limits are incomplete; no rental was created.'')
     else if au_terminate_at_ms a \<le> now
     then Inl (provider_error_new InvalidRequest
            ''This GPU rental authorization expired before confirmation. No rental was created; search again from /gpu.'')
     else Inr ())"

section \<open>Search\<close>

definition search_secure_provider ::
    "'w gpu_provider \<Rightarrow> search_offers_request \<Rightarrow> ('w, gpu_offer list provider_result) remote" where
  "search_secure_provider p request =
    (if \<not> pc_supports_secure_endpoint_transport (capabilities p)
     then (\<lambda>w. (Inl (provider_error_new CapabilityUnavailable
                  ''GPU provider secure endpoint transport is not qualified.''), w))
     else search_offers p request)"

text \<open>The errors of one provider that do not hide the offers of the other.\<close>

definition tolerated :: "provider_error_kind \<Rightarrow> bool" where
  "tolerated k \<longleftrightarrow> k \<in> {NotConfigured, CapabilityUnavailable, InsufficientFunds, OfferUnavailable, RateLimited}"

definition unconfigured :: "provider_error_kind \<Rightarrow> bool" where
  "unconfigured k \<longleftrightarrow> k \<in> {NotConfigured, CapabilityUnavailable}"

definition insufficient_funds :: "gpu_offer list provider_result \<Rightarrow> provider_error option" where
  "insufficient_funds r = (case r of Inl e \<Rightarrow> if pe_kind e = InsufficientFunds then Some e else None | Inr _ \<Rightarrow> None)"

text \<open>The checks that apply when both searches failed.\<close>

definition both_failed :: "provider_error \<Rightarrow> provider_error \<Rightarrow> provider_error option" where
  "both_failed e1 e2 =
    (if pe_kind e1 = NotConfigured \<and> pe_kind e2 = NotConfigured
     then Some (provider_error_new NotConfigured
            ''Configure at least one GPU provider API key from /gpu before searching.'')
     else if unconfigured (pe_kind e1) \<and> unconfigured (pe_kind e2)
     then Some (provider_error_new CapabilityUnavailable
            ''Configure a GPU provider whose secure endpoint transport is qualified.'')
     else if pe_kind e1 = RateLimited \<and> pe_kind e2 = RateLimited
     then Some ((provider_error_new RateLimited ''GPU provider searches are temporarily rate limited.'')
            \<lparr>pe_retry_after_ms := (case (pe_retry_after_ms e1, pe_retry_after_ms e2) of
                (Some t1, Some t2) \<Rightarrow> Some (min t1 t2)
              | (t1, t2) \<Rightarrow> coalesce t1 t2)\<rparr>)
     else None)"

primrec extend_offers :: "gpu_offer list \<Rightarrow> gpu_offer list provider_result list \<Rightarrow> gpu_offer list provider_result" where
  "extend_offers offers [] = Inr offers"
| "extend_offers offers (r # rs) =
    (case r of
       Inr found \<Rightarrow> extend_offers (offers @ found) rs
     | Inl e \<Rightarrow> if tolerated (pe_kind e) then extend_offers offers rs else Inl e)"

definition merge_search_results ::
    "gpu_offer list provider_result \<Rightarrow> gpu_offer list provider_result \<Rightarrow> gpu_offer list provider_result" where
  "merge_search_results r1 r2 =
    (case (case (r1, r2) of (Inl e1, Inl e2) \<Rightarrow> both_failed e1 e2 | _ \<Rightarrow> None) of
       Some e \<Rightarrow> Inl e
     | None \<Rightarrow>
         and_then (extend_offers [] [r1, r2]) (\<lambda>offers.
         case coalesce (insufficient_funds r1) (insufficient_funds r2) of
           Some e \<Rightarrow> if offers = [] then Inl e else Inr offers
         | None \<Rightarrow> Inr offers))"

definition offer_key :: "gpu_offer \<Rightarrow> int \<times> int \<times> string \<times> string" where
  "offer_key off = (of_hourly_microusd off,
     (case of_storage_microusd_per_gib_month off of Some s \<Rightarrow> s | None \<Rightarrow> i64_max),
     of_provider off, of_offer_id off)"

definition search ::
    "gpu_market_service \<Rightarrow> string \<Rightarrow> int \<Rightarrow> 'w gpu_provider \<Rightarrow> 'w gpu_provider
       \<Rightarrow> ('w, gpu_offer list provider_result) remote" where
  "search ms i maximum p1 p2 w =
    (case verified_recipe ms i of
       Inl e \<Rightarrow> (Inl e, w)
     | Inr recipe \<Rightarrow>
       (case search_request recipe maximum of
          Inl e \<Rightarrow> (Inl e, w)
        | Inr request \<Rightarrow>
          (let (r1, w1) = search_secure_provider p1 request w;
               (r2, w2) = search_secure_provider p2 request w1
           in (and_then (merge_search_results r1 r2) (\<lambda>offers. Inr (sort_key offer_key offers)), w2))))"

section \<open>Confirmation\<close>

definition state_error :: "string \<Rightarrow> provider_error" where
  "state_error _ = provider_error_new Permanent ''The GPU rental ledger could not record the operation.''"

primrec find_current ::
    "'w gpu_provider \<Rightarrow> search_offers_request \<Rightarrow> string \<Rightarrow> nat \<Rightarrow> ('w ctl, provider_error, gpu_offer option) fallible" where
  "find_current p request oid 0 = ret None"
| "find_current p request oid (Suc n) =
     bind (bind (outside (search_offers p request)) returning) (\<lambda>offers.
     case find (\<lambda>off. of_offer_id off = oid) offers of
       Some off \<Rightarrow> ret (Some off)
     | None \<Rightarrow> find_current p request oid n)"

definition current_offer ::
    "'w gpu_provider \<Rightarrow> search_offers_request \<Rightarrow> gpu_offer \<Rightarrow> ('w ctl, provider_error, gpu_offer) fallible" where
  "current_offer p request selected =
    (if create_revalidates_exact_offer_atomically p then ret selected
     else bind (find_current p request (of_offer_id selected) 3) (\<lambda>current.
          returning (ok_or (provider_error_new OfferUnavailable
            ''The selected GPU offer is no longer available.'') current)))"

text \<open>What is checked of the provider before an offer is looked at again.\<close>

definition local_enforcement :: "provider_capabilities \<Rightarrow> bool" where
  "local_enforcement caps \<longleftrightarrow> \<not> pc_supports_native_ttl caps \<or> \<not> pc_supports_native_spend_cap caps"

definition check_provider ::
    "provider_capabilities \<Rightarrow> gpu_offer \<Rightarrow> rental_authorization \<Rightarrow> unit provider_result" where
  "check_provider caps selected a =
    (if pc_provider caps \<noteq> of_provider selected
     then Inl (provider_error_new InvalidRequest ''The selected offer belongs to a different provider.'')
     else if \<not> pc_supports_secure_endpoint_transport caps
     then Inl (provider_error_new CapabilityUnavailable
            ''This GPU provider cannot yet prove a secure inference transport; creation is disabled.'')
     else if local_enforcement caps \<and> \<not> au_acknowledged_local_enforcement a
     then Inl (provider_error_new InvalidRequest
            ''This provider requires acknowledgement that spend and TTL enforcement depend on the local controller.'')
     else Inr ())"

definition rental_params ::
    "gpu_market_service \<Rightarrow> gpu_recipe \<Rightarrow> gpu_offer \<Rightarrow> string \<Rightarrow> rental_authorization \<Rightarrow> provider_capabilities
       \<Rightarrow> gpu_rental_create_params" where
  "rental_params ms recipe current snapshot a caps =
    (let i = ''gpu-'' @ au_client_operation_id a in
     \<lparr> rental_id = i, installation_id = ms_installation_id ms, client_operation_id = au_client_operation_id a,
       provider = of_provider current, recipe_id = rc_id recipe, recipe_revision = rc_revision recipe,
       offer_snapshot_json = snapshot, quote_expires_at_ms = of_expires_at_ms current,
       max_hourly_microusd = au_maximum_hourly_microusd a, max_total_microusd = au_maximum_total_microusd a,
       terminate_at_ms = au_terminate_at_ms a,
       enforcement_class = (if local_enforcement caps then LocalControllerDependent else ProviderGuaranteed),
       ownership_tag = ''pft-'' @ ms_installation_id ms @ ''-'' @ i \<rparr>)"

text \<open>From the verified offer on: the rental is recorded, its creation requested, and the row read back.\<close>

definition record_rental ::
    "gpu_market_service \<Rightarrow> gpu_recipe \<Rightarrow> gpu_offer \<Rightarrow> rental_authorization \<Rightarrow> provider_capabilities \<Rightarrow> int
       \<Rightarrow> ('w ctl, provider_error, gpu_rental) fallible" where
  "record_rental ms recipe current a caps now =
     bind (returning (ok_or (provider_error_new Permanent ''The verified offer could not be recorded.'')
             (offer_to_string (ms_codec ms) current))) (\<lambda>snapshot.
     bind (try_db (\<lambda>db. map_err state_error
             (create_gpu_rental (json_from_str (ms_codec ms)) (rental_params ms recipe current snapshot a caps) now db)))
       (\<lambda>r.
     bind (on_db (request_gpu_rental_creation (rental_id r) now)) (\<lambda>_.
     bind (on_db (\<lambda>db. (get_gpu_rental (rental_id r) db, db))) (\<lambda>found.
     returning (ok_or (provider_error_new Permanent
       ''The authorized rental was not durably recorded.'') found)))))"

text \<open>The part of \<^verbatim>\<open>confirm\<close> after the lookup of an existing rental.\<close>

definition confirm_new ::
    "gpu_market_service \<Rightarrow> gpu_recipe \<Rightarrow> gpu_offer \<Rightarrow> rental_authorization \<Rightarrow> 'w gpu_provider \<Rightarrow> int
       \<Rightarrow> ('w ctl, provider_error, gpu_rental) fallible" where
  "confirm_new ms recipe selected a p now =
     bind (returning (validate_authorization_limits a now)) (\<lambda>_.
     bind (returning (check_provider (capabilities p) selected a)) (\<lambda>_.
     bind (returning (search_request recipe (au_maximum_hourly_microusd a))) (\<lambda>request.
     bind (current_offer p request selected) (\<lambda>current.
     if of_hourly_microusd current \<noteq> of_hourly_microusd selected
        \<or> of_hourly_microusd current > au_maximum_hourly_microusd a
     then fail (provider_error_new PriceDrift
            ''The selected GPU offer price changed; confirmation is required again.'')
     else
       bind (returning (validate_for current request now)) (\<lambda>_.
       record_rental ms recipe current a (capabilities p) now)))))"

definition confirm ::
    "gpu_market_service \<Rightarrow> string \<Rightarrow> gpu_offer \<Rightarrow> rental_authorization \<Rightarrow> 'w gpu_provider \<Rightarrow> int
       \<Rightarrow> ('w ctl, provider_error, gpu_rental) fallible" where
  "confirm ms i selected a p now =
     bind (returning (verified_recipe ms i)) (\<lambda>recipe.
     bind (returning (validate_authorization_identity a)) (\<lambda>_.
     bind (on_db (\<lambda>db. (get_gpu_rental (''gpu-'' @ au_client_operation_id a) db, db))) (\<lambda>existing.
     case existing of
       Some r \<Rightarrow> ret r
     | None \<Rightarrow> confirm_new ms recipe selected a p now)))"

section \<open>Search results\<close>

definition found_offers :: "gpu_offer list provider_result \<Rightarrow> gpu_offer list" where
  "found_offers r = (case r of Inr offers \<Rightarrow> offers | Inl _ \<Rightarrow> [])"

definition acceptable :: "gpu_offer list provider_result \<Rightarrow> bool" where
  "acceptable r \<longleftrightarrow> (case r of Inr _ \<Rightarrow> True | Inl e \<Rightarrow> tolerated (pe_kind e))"

lemma extend_offers_Inr:
  "extend_offers offers rs = Inr all \<longleftrightarrow> list_all acceptable rs \<and> all = offers @ concat (map found_offers rs)"
  by (induction rs arbitrary: offers) (auto simp: acceptable_def found_offers_def split: sum.splits)

lemma merge_search_results_Inr:
  assumes "merge_search_results r1 r2 = Inr offers"
  shows "acceptable r1 \<and> acceptable r2 \<and> offers = found_offers r1 @ found_offers r2"
proof -
  have "extend_offers [] [r1, r2] = Inr offers"
    using assms unfolding merge_search_results_def and_then_def
    by (auto simp del: extend_offers.simps split: option.splits sum.splits if_splits)
  then show ?thesis unfolding extend_offers_Inr by simp
qed


section \<open>Confirmations\<close>

text \<open>Every rental of the ledger came from a confirmation, which names it after its operation.\<close>

definition market_ledger :: "gpu_db \<Rightarrow> bool" where
  "market_ledger db \<longleftrightarrow> (\<forall>r \<in> set (db_rentals db). rental_id r = ''gpu-'' @ client_operation_id r)"

definition requested_row :: "gpu_rental_create_params \<Rightarrow> int \<Rightarrow> gpu_rental" where
  "requested_row q now = (new_rental_row q now)\<lparr>desired_state := CreatePending, state_sequence := 2\<rparr>"

lemma find_append_None: "find p xs = None \<Longrightarrow> find p (xs @ ys) = find p ys"
  by (induction xs) (auto split: if_splits)

lemma create_new:
  assumes "list_all (\<lambda>r. rental_id r \<noteq> rental_id q \<and> client_operation_id r \<noteq> client_operation_id q) (db_rentals db)"
    and "create_gpu_rental from_str q now db = Inr (r, db')"
  shows "r = new_rental_row q now" "db' = db\<lparr>db_rentals := db_rentals db @ [new_rental_row q now]\<rparr>"
    "now < terminate_at_ms q"
proof -
  have none: "\<not> list_ex (\<lambda>r. client_operation_id r = client_operation_id q) (db_rentals db)"
    using assms(1) by (auto simp: list_ex_iff list_all_iff)
  then have "find (\<lambda>r. client_operation_id r = client_operation_id q) (db_rentals db @ [new_rental_row q now])
      = Some (new_rental_row q now)"
    by (subst find_append_None) (auto simp: find_None_iff list_ex_iff new_rental_row_def)
  with assms(2) none show "r = new_rental_row q now" "db' = db\<lparr>db_rentals := db_rentals db @ [new_rental_row q now]\<rparr>"
    by (auto simp: create_gpu_rental_def insert_rental_def get_gpu_rental_by_client_operation_def ok_or_def
        split: if_splits sum.splits)
  show "now < terminate_at_ms q"
    using assms(2) by (auto simp: create_gpu_rental_def validate_gpu_rental_create_def split: if_splits sum.splits option.splits)
qed

lemma request_new:
  assumes "list_all (\<lambda>r. rental_id r \<noteq> rental_id q) (db_rentals db)" "now < terminate_at_ms q"
    and "case quote_expires_at_ms q of None \<Rightarrow> True | Some e \<Rightarrow> now \<le> e"
  shows "snd (request_gpu_rental_creation (rental_id q) now (db\<lparr>db_rentals := db_rentals db @ [new_rental_row q now]\<rparr>))
    = db\<lparr>db_rentals := db_rentals db @ [requested_row q now]\<rparr>"
proof -
  have "update_rows (\<lambda>r. rental_id r = rental_id q \<and> P r) f (db_rentals db) = db_rentals db" for P f
    using assms(1) by (induction "db_rentals db" arbitrary: db) (auto simp: update_rows_def list_all_iff intro!: map_idI)
  then show ?thesis
    using assms(2,3)
    by (simp add: request_gpu_rental_creation_def Let_def update_rows_def requested_row_def new_rental_row_def split: option.splits)
qed

lemma record_rental_result:
  fixes s :: "'w ctl"
  assumes "market_ledger (ctl_db s)" "get_gpu_rental (''gpu-'' @ au_client_operation_id a) (ctl_db s) = None"
    and "case of_expires_at_ms current of None \<Rightarrow> True | Some e \<Rightarrow> now \<le> e"
  shows "(\<exists>e. record_rental ms recipe current a caps now s = (Inl e, s))
    \<or> (\<exists>snapshot. let q = rental_params ms recipe current snapshot a caps in
         record_rental ms recipe current a caps now s
           = (Inr (requested_row q now), s\<lparr>ctl_db := (ctl_db s)\<lparr>db_rentals := db_rentals (ctl_db s) @ [requested_row q now]\<rparr>\<rparr>))"
proof (cases "offer_to_string (ms_codec ms) current")
  case None
  then show ?thesis by (simp add: record_rental_def ok_or_def run_simps)
next
  case (Some snapshot)
  let ?db = "ctl_db s"
  define q where "q = rental_params ms recipe current snapshot a caps"
  have q: "rental_id q = ''gpu-'' @ au_client_operation_id a" "client_operation_id q = au_client_operation_id a"
    "quote_expires_at_ms q = of_expires_at_ms current" by (simp_all add: q_def rental_params_def Let_def)
  have fresh: "list_all (\<lambda>r. rental_id r \<noteq> rental_id q \<and> client_operation_id r \<noteq> client_operation_id q) (db_rentals ?db)"
    using assms(1,2) unfolding q by (auto simp: market_ledger_def get_gpu_rental_def find_None_iff list_all_iff)
  show ?thesis
  proof (cases "create_gpu_rental (json_from_str (ms_codec ms)) q now ?db")
    case (Inl e)
    then show ?thesis by (simp add: record_rental_def ok_or_def run_simps Some q_def map_err_def)
  next
    case (Inr c)
    obtain r db' where c: "c = (r, db')" by fastforce
    note new = create_new [OF fresh Inr [unfolded c]]
    have ids: "list_all (\<lambda>r. rental_id r \<noteq> rental_id q) (db_rentals ?db)" using fresh by (auto simp: list_all_iff)
    have requested: "snd (request_gpu_rental_creation (rental_id r) now db')
        = ?db\<lparr>db_rentals := db_rentals ?db @ [requested_row q now]\<rparr>"
      using request_new [OF ids new(3)] assms(3) unfolding q(3) new(1,2) by (simp add: new_rental_row_def)
    have "find (\<lambda>x. rental_id x = rental_id r) (db_rentals ?db @ [requested_row q now]) = Some (requested_row q now)"
      using ids by (subst find_append_None) (auto simp: find_None_iff list_all_iff requested_row_def new_rental_row_def new(1))
    then have "record_rental ms recipe current a caps now s
        = (Inr (requested_row q now), s\<lparr>ctl_db := ?db\<lparr>db_rentals := db_rentals ?db @ [requested_row q now]\<rparr>\<rparr>)"
      using Inr requested
      by (simp add: record_rental_def ok_or_def run_simps Some q_def [symmetric] map_err_def c get_gpu_rental_def)
    then show ?thesis unfolding Let_def q_def by blast
  qed
qed

lemma find_current_world: "\<exists>w. snd (find_current p request oid n s) = s\<lparr>ctl_world := w\<rparr>"
proof (induction n arbitrary: s)
  case 0
  show ?case by (auto simp: run_simps intro: exI [of _ "ctl_world s"])
next
  case (Suc n)
  obtain res w where r: "search_offers p request (ctl_world s) = (res, w)" by fastforce
  show ?case
    using Suc [of "s\<lparr>ctl_world := w\<rparr>"] by (auto simp: run_simps r split: sum.splits option.splits)
qed

lemma current_offer_world: "\<exists>w. snd (current_offer p request selected s) = s\<lparr>ctl_world := w\<rparr>"
proof (cases "create_revalidates_exact_offer_atomically p")
  case True
  then show ?thesis by (auto simp: current_offer_def run_simps intro: exI [of _ "ctl_world s"])
next
  case False
  obtain res t where "find_current p request (of_offer_id selected) 3 s = (res, t)" by fastforce
  with find_current_world [of p request "of_offer_id selected" 3 s] False show ?thesis
    by (auto simp: current_offer_def run_simps split: sum.splits)
qed

lemma validate_for_price:
  "validate_for off (recipe_request recipe m) now = Inr u \<Longrightarrow>
   0 < of_hourly_microusd off \<and> of_hourly_microusd off \<le> m
   \<and> (case of_expires_at_ms off of None \<Rightarrow> True | Some e \<Rightarrow> now \<le> e)"
  by (auto simp: validate_for_def recipe_request_def split: if_splits option.splits)

text \<open>What a rental owes to the authorisation it was confirmed under.\<close>

definition confirmed_under :: "rental_authorization \<Rightarrow> gpu_offer \<Rightarrow> gpu_rental \<Rightarrow> bool" where
  "confirmed_under a selected r \<longleftrightarrow>
     rental_id r = ''gpu-'' @ au_client_operation_id a \<and> client_operation_id r = au_client_operation_id a
   \<and> max_hourly_microusd r = au_maximum_hourly_microusd a \<and> max_total_microusd r = au_maximum_total_microusd a
   \<and> terminate_at_ms r = au_terminate_at_ms a
   \<and> 0 < of_hourly_microusd selected \<and> of_hourly_microusd selected \<le> au_maximum_hourly_microusd a
   \<and> desired_state r = CreatePending \<and> observed_state r = Quoted"

lemma confirm_new_result:
  fixes s :: "'w ctl"
  assumes "market_ledger (ctl_db s)" "get_gpu_rental (''gpu-'' @ au_client_operation_id a) (ctl_db s) = None"
    and "confirm_new ms recipe selected a p now s = (result, s')"
  shows "ctl_log s' = ctl_log s
    \<and> (case result of
         Inl e \<Rightarrow> ctl_db s' = ctl_db s
       | Inr r \<Rightarrow> ctl_db s' = (ctl_db s)\<lparr>db_rentals := db_rentals (ctl_db s) @ [r]\<rparr> \<and> confirmed_under a selected r
           \<and> now < terminate_at_ms r \<and> check_provider (capabilities p) selected a = Inr ())"
proof (cases "(validate_authorization_limits a now, check_provider (capabilities p) selected a,
    search_request recipe (au_maximum_hourly_microusd a))")
  case (fields limits checked request)
  show ?thesis
  proof (cases "limits = Inr () \<and> checked = Inr () \<and> request = Inr (recipe_request recipe (au_maximum_hourly_microusd a))")
    case False
    then have "ctl_log s' = ctl_log s \<and> ctl_db s' = ctl_db s \<and> (\<exists>e. result = Inl e)"
      using assms(3) fields
      by (cases limits; cases checked)
         (auto simp: confirm_new_def run_simps search_request_def split: if_splits)
    then show ?thesis by auto
  next
    case True
    let ?rq = "recipe_request recipe (au_maximum_hourly_microusd a)"
    obtain w where w: "snd (current_offer p ?rq selected s) = s\<lparr>ctl_world := w\<rparr>" using current_offer_world [of p ?rq selected s] by blast
    let ?t = "s\<lparr>ctl_world := w\<rparr>"
    have limit: "now < au_terminate_at_ms a"
      using True fields by (auto simp: validate_authorization_limits_def split: if_splits)
    consider e where "(result, s') = (Inl e, ?t)"
      | current where "of_hourly_microusd current = of_hourly_microusd selected"
          "validate_for current ?rq now = Inr ()"
          "(result, s') = record_rental ms recipe current a (capabilities p) now ?t"
      using assms(3) True fields w
      by (cases "current_offer p ?rq selected s")
         (auto simp: confirm_new_def run_simps split: sum.splits if_splits)
    then show ?thesis
    proof cases
      case (2 current)
      note price = validate_for_price [OF 2(2)]
      from record_rental_result [where s = ?t and a = a and current = current and now = now and ms = ms
          and recipe = recipe and caps = "capabilities p"] assms(1,2) price
      consider e where "record_rental ms recipe current a (capabilities p) now ?t = (Inl e, ?t)"
        | snapshot q where "q = rental_params ms recipe current snapshot a (capabilities p)"
           "record_rental ms recipe current a (capabilities p) now ?t
           = (Inr (requested_row q now), ?t\<lparr>ctl_db := (ctl_db s)\<lparr>db_rentals := db_rentals (ctl_db s) @ [requested_row q now]\<rparr>\<rparr>)"
        by (auto simp: Let_def)
      then show ?thesis
        using 2 price limit True fields
        by cases (auto simp: confirmed_under_def requested_row_def new_rental_row_def rental_params_def Let_def)
    qed auto
  qed
qed

lemma confirm_run:
  assumes "confirm ms i selected a p now s = (result, s')"
  obtains e where "(result, s') = (Inl e, s)"
  | r where "get_gpu_rental (''gpu-'' @ au_client_operation_id a) (ctl_db s) = Some r" "(result, s') = (Inr r, s)"
  | rcp where "get_gpu_rental (''gpu-'' @ au_client_operation_id a) (ctl_db s) = None"
      "confirm_new ms rcp selected a p now s = (result, s')"
proof (cases "verified_recipe ms i")
  case (Inl e)
  then show ?thesis using assms that(1) [of e] by (simp add: confirm_def run_simps)
next
  case recipe: (Inr rcp)
  show ?thesis
  proof (cases "validate_authorization_identity a")
    case (Inl e)
    then show ?thesis using assms that(1) [of e] recipe by (simp add: confirm_def run_simps)
  next
    case (Inr u)
    have "confirm ms i selected a p now s =
        (case get_gpu_rental (''gpu-'' @ au_client_operation_id a) (ctl_db s) of
           Some r \<Rightarrow> (Inr r, s) | None \<Rightarrow> confirm_new ms rcp selected a p now s)"
      by (simp add: confirm_def run_simps recipe Inr split: option.split)
    then show ?thesis using assms that(2) that(3) [of rcp] by (cases "get_gpu_rental (''gpu-'' @ au_client_operation_id a) (ctl_db s)") simp_all
  qed
qed


text \<open>A confirmation is a history of ledger operations.\<close>

definition sound_ctl :: "'w ctl \<Rightarrow> 'w ctl \<Rightarrow> bool" where
  "sound_ctl s s' \<longleftrightarrow> sound_step (ctl_db s) (ctl_db s')"

interpretation sound_actions: guarantee sound_ctl
  by unfold_locales (auto simp: sound_ctl_def intro: sound_step_trans)

lemma confirm_sound: "guarantees sound_ctl (confirm ms i selected a p now)"
proof -
  have world: "guarantees sound_ctl (outside f)" for f
    by (rule guaranteesI) (simp add: run_simps sound_ctl_def)
  have read: "guarantees sound_ctl (on_db (\<lambda>db. (f db, db)))" for f :: "gpu_db \<Rightarrow> 'x"
    by (rule guaranteesI) (simp add: run_simps sound_ctl_def)
  have request: "guarantees sound_ctl (on_db (request_gpu_rental_creation i now))" for i
    by (rule guaranteesI) (simp add: run_simps sound_ctl_def request_creation_sound)
  have create: "guarantees sound_ctl (try_db (\<lambda>db. map_err g (create_gpu_rental from_str q now db)))" for g from_str q
    by (rule guaranteesI) (auto simp: run_simps sound_ctl_def map_err_def dest: create_sound split: sum.splits)
  have found: "guarantees sound_ctl (find_current p rq oid n)" for rq oid n
    by (induction n) (auto intro!: sound_actions.keeps world)
  show ?thesis
    unfolding confirm_def confirm_new_def current_offer_def record_rental_def
    by (intro sound_actions.keeps world read request create found)
qed

section \<open>Late creations\<close>

text \<open>The authorised end does not stop a creation.  The limits are only enforced for rentals that
  may already cost money; when a confirmed rental is reconciled for the first time, its instance is
  requested, at whatever time, also after the end of the authorisation, provided that its offer does
  not expire and everything else is in order.\<close>

lemma creation_ignores_time_limit:
  fixes s :: "'w ctl"
  assumes "provider (rental l) = pc_provider (capabilities (c_provider c))"
    and "pc_supports_inventory (capabilities (c_provider c))" and "pc_supports_ownership_tags (capabilities (c_provider c))"
    and "desired_state (rental l) = CreatePending" and "observed_state (rental l) = Quoted"
    and "provider_resource_id (rental l) = None"
    and "list_owned_instances (c_provider c) (owned_query c (rental l)) (ctl_world s) = (Inr [], w1)"
    and "catalog_get (c_recipes c) (recipe_id (rental l)) = Some recipe" and "rc_manifest_verified recipe"
    and "\<not> rc_requires_huggingface_token recipe"
    and "offer_from_str (c_codec c) (offer_snapshot_json (rental l)) = Some off"
    and "validate_for off (recipe_request recipe (max_hourly_microusd (rental l))) now = Inr ()"
    and "c_credentials c = Some creds"
    and "ensure_rental_endpoint_token creds (rental_id (rental l)) w1 = (Inr token, w2)"
    and "rental_exists (ctl_db s) (rental_id (rental l))"
    and "(rental_id (rental l), OpCreate, state_sequence (rental l)) \<notin> operation_key ` set (db_operations (ctl_db s))"
    and "''gpu-create-'' @ fst (c_new_uuid c w2) \<notin> op_operation_id ` set (db_operations (ctl_db s))"
  shows "CreateCall (rental_id (rental l)) (state_sequence (rental l)) (creation_request (rental l) recipe off token None)
    \<in> set (ctl_log (snd (reconcile_lease c l now s)))"
proof -
  let ?i = "rental_id (rental l)" and ?n = "state_sequence (rental l)"
  let ?rq = "creation_request (rental l) recipe off token None"
  let ?list = "ListCall (owned_query c (rental l)) (Inr [])"
  let ?t = "s\<lparr>ctl_log := ctl_log s @ [?list], ctl_world := w2\<rparr>"
  have "reconcile_lease c l now s = reconcile_create c l now s"
    using assms(1-6) by (simp add: reconcile_lease_def must_terminate_def refresh_billing_def enforce_limits_def
        limit_reached_def may_be_billable_def state_may_be_billable_def route_state_def)
  also have "\<dots> = send_creation c l ?rq now ?t"
    using assms(7-14) by (simp add: reconcile_create_def find_owned_bind run_simps create_with_credentials_def)
  finally have run: "reconcile_lease c l now s = send_creation c l ?rq now ?t" .
  obtain uuid w3 where u: "c_new_uuid c w2 = (uuid, w3)" by fastforce
  obtain db' where began: "begin_gpu_rental_operation (''gpu-create-'' @ uuid) ?i OpCreate ?n now (ctl_db s) = Inr (True, db')"
    using begin_fresh [OF assms(16,17,15)] u by auto
  obtain x w4 where x: "create_instance (c_provider c) ?rq w3 = (x, w4)" by fastforce
  let ?u = "?t\<lparr>ctl_db := db', ctl_world := w4, ctl_log := ctl_log ?t @ [CreateCall ?i ?n ?rq]\<rparr>"
  have "reconcile_lease c l now s = record_creation c l (''gpu-create-'' @ uuid) now x ?u"
    unfolding run by (simp add: send_creation_def run_simps u began [simplified] x Let_def)
  moreover have "guarantees same_log (record_creation c l (''gpu-create-'' @ uuid) now x)"
    unfolding record_creation_def adopt_instance_def record_terminal_failure_def Let_def
    by (intro silent.keeps silent_db silent_update silent_retry)
  ultimately show ?thesis using guaranteesD [of same_log "record_creation c l (''gpu-create-'' @ uuid) now x" ?u] by (simp add: same_log_def)
qed

section \<open>A concrete market\<close>

definition market_hardware :: hardware_requirements where
  "market_hardware = \<lparr> hw_gpu_model = ''A'', hw_gpu_count = 1, hw_minimum_vram_mib_per_gpu = 1,
     hw_minimum_host_ram_mib = 1, hw_minimum_disk_gib = 1, hw_requires_high_bandwidth_interconnect = False,
     hw_allowed_cuda_versions = [] \<rparr>"

definition market_recipe :: gpu_recipe where
  "market_recipe = \<lparr> rc_id = ''r1'', rc_revision = ''r1-a'', rc_model_id = ''m'', rc_served_model_id = ''m'',
     rc_wire_api = ''chat'', rc_model_revision = ''1'', rc_image = ''img'', rc_runtime = ''vllm'',
     rc_serving_runtime_version = ''1'', rc_license_id = ''mit'', rc_requires_huggingface_token = False,
     rc_minimum_driver_version = ''1'', rc_gpu_architectures = [''x''], rc_weight_format = ''fp8'',
     rc_hardware = market_hardware, rc_tensor_parallel_size = 1, rc_maximum_context_tokens = 1,
     rc_maximum_concurrent_requests = 1, rc_expected_download_bytes = 1, rc_model_weight_bytes = 1,
     rc_kv_cache_reserve_bytes = 1, rc_workspace_reserve_bytes = 1, rc_launch_command = [''serve''],
     rc_environment_allowlist = [], rc_startup_deadline_ms = 1, rc_download_deadline_ms = 1,
     rc_probe_deadline_ms = 1, rc_inference_port = 1, rc_chat_encoding = ''openai'', rc_probe_contract = ''p'',
     rc_stability = Qualified, rc_manifest_verified = True \<rparr>"

definition market_offer :: gpu_offer where
  "market_offer = \<lparr> of_provider = ''vast'', of_offer_id = ''o1'', of_gpu_model = ''A'', of_gpu_count = 1,
     of_vram_mib_per_gpu = 1, of_host_ram_mib = 1, of_disk_gib = 1, of_high_bandwidth_interconnect = False,
     of_runtime_topology_verification = False, of_cuda_versions = [], of_region = ''eu'',
     of_security_class = ''secure'', of_reliability_millionths = None, of_interruptible = False,
     of_hourly_microusd = 2000000, of_storage_microusd_per_gib_month = None, of_quoted_at_ms = 0,
     of_expires_at_ms = None, of_raw_snapshot = JNull \<rparr>"

definition market_codec :: codec where
  "market_codec = \<lparr> json_from_str = (\<lambda>_. Some (JObject [])), json_to_string = (\<lambda>_. ''{}''),
     offer_from_str = (\<lambda>_. Some market_offer), offer_to_string = (\<lambda>_. Some ''{}''), url_parse = (\<lambda>_. None) \<rparr>"

definition market_service :: gpu_market_service where
  "market_service = \<lparr> ms_recipes = [market_recipe], ms_installation_id = ''inst'', ms_codec = market_codec \<rparr>"

definition market_authorization :: rental_authorization where
  "market_authorization = \<lparr> au_client_operation_id = ''1'', au_maximum_hourly_microusd = 3000000,
     au_maximum_total_microusd = 9000000, au_terminate_at_ms = 1000000, au_acknowledged_local_enforcement = True \<rparr>"

definition market_controller :: "sample_world controller" where
  "market_controller = (sample_controller ''a'' True)\<lparr>c_recipes := [market_recipe], c_codec := market_codec,
     c_credentials := Some \<lparr> resolve = (\<lambda>_ w. (Inr ''t'', w)), rental_endpoint_token_ids = (\<lambda>w. (Inr [], w)),
       delete_rental_endpoint_token = (\<lambda>_ w. (Inr True, w)), delete_rental_endpoint_tokens = (\<lambda>_ w. (Inr 0, w)),
       ensure_rental_endpoint_token = (\<lambda>_ w. (Inr ''t'', w)) \<rparr>\<rparr>"

definition market_start :: "sample_world ctl" where
  "market_start = \<lparr> ctl_db = empty_db, ctl_world = (False, 0), ctl_log = [] \<rparr>"

definition market_confirmed :: "sample_world ctl" where
  "market_confirmed = snd (confirm market_service ''r1'' market_offer market_authorization (sample_provider True) 5 market_start)"

lemma market_start_ok: "ledger_ok (ctl_db market_start)" "market_ledger (ctl_db market_start)" "ctl_log market_start = []"
  by (simp_all add: market_start_def ledger_ok_empty market_ledger_def) (simp add: empty_db_def)

definition market_rental :: gpu_rental where
  "market_rental = requested_row
     (rental_params market_service market_recipe market_offer ''{}'' market_authorization (capabilities (sample_provider True))) 5"

lemma market_confirm:
  "fst (confirm market_service ''r1'' market_offer market_authorization (sample_provider True) 5 market_start) = Inr market_rental"
  "db_rentals (ctl_db market_confirmed) = [market_rental]" "db_operations (ctl_db market_confirmed) = []"
  "ctl_log market_confirmed = []" "ctl_world market_confirmed = (False, 0)"
  by code_simp+

definition market_seller :: "gpu_offer list \<Rightarrow> sample_world gpu_provider" where
  "market_seller offers = (sample_provider True)\<lparr>search_offers := (\<lambda>_ w. (Inr offers, w))\<rparr>"



definition market_lease :: gpu_rental_lease where
  "market_lease = \<lparr> rental = leased ''a'' 2000100 2000000 market_rental, lease_owner = ''a'', lease_until_ms = 2000100 \<rparr>"

lemma creation_ignores_time_limit_witness:
  "terminate_at_ms (rental market_lease) < 2000000
   \<and> CreateCall ''gpu-1'' 2 (creation_request (rental market_lease) market_recipe market_offer ''t'' None)
      \<in> set (ctl_log (snd (reconcile_lease market_controller market_lease 2000000 market_confirmed)))"
proof -
  have late: "terminate_at_ms (rental market_lease) < 2000000" by code_simp
  have caps: "provider (rental market_lease) = pc_provider (capabilities (c_provider market_controller))"
    "pc_supports_inventory (capabilities (c_provider market_controller))"
    "pc_supports_ownership_tags (capabilities (c_provider market_controller))" by code_simp+
  have row: "desired_state (rental market_lease) = CreatePending" "observed_state (rental market_lease) = Quoted"
    "provider_resource_id (rental market_lease) = None" by code_simp+
  have listed: "list_owned_instances (c_provider market_controller) (owned_query market_controller (rental market_lease))
      (ctl_world market_confirmed) = (Inr [], (False, 0))"
    by (simp add: market_controller_def sample_controller_def sample_provider_def market_confirm(5))
  have recipe: "catalog_get (c_recipes market_controller) (recipe_id (rental market_lease)) = Some market_recipe"
    "rc_manifest_verified market_recipe" "\<not> rc_requires_huggingface_token market_recipe" by code_simp+
  have off: "offer_from_str (c_codec market_controller) (offer_snapshot_json (rental market_lease)) = Some market_offer"
    "validate_for market_offer (recipe_request market_recipe (max_hourly_microusd (rental market_lease))) 2000000 = Inr ()"
    by code_simp+
  have creds: "c_credentials market_controller = Some (the (c_credentials market_controller))"
    "ensure_rental_endpoint_token (the (c_credentials market_controller)) (rental_id (rental market_lease)) (False, 0)
      = (Inr ''t'', (False, 0))" by (simp_all add: market_controller_def)
  have ids: "rental_id (rental market_lease) = ''gpu-1''" "state_sequence (rental market_lease) = 2"
    "rental_exists (ctl_db market_confirmed) (rental_id (rental market_lease))" by code_simp+
  from creation_ignores_time_limit [OF caps row listed recipe off creds ids(3)] ids late market_confirm(3)
  show ?thesis by simp
qed

section \<open>Authorised creations\<close>

text \<open>No instance is ever requested beyond its authorisation.  However many controllers
  reconcile, whatever the providers answer and whatever users do in between, every request to create
  an instance belongs to a rental of the ledger, carries its ownership tag and operation id, and asks
  for an offer whose hourly price is positive and within the limit of that rental.\<close>

lemma creations_within_authorization:
  assumes "ledger_ok (ctl_db s)" and "ctl_log s = []" and "system_run s t"
    and "CreateCall i n rq \<in> set (ctl_log t)"
  shows "\<exists>r \<in> set (db_rentals (ctl_db t)). rental_id r = i
      \<and> cr_ownership_tag rq = ownership_tag r \<and> cr_client_operation_id rq = client_operation_id r
      \<and> 0 < of_hourly_microusd (cr_offer rq) \<and> of_hourly_microusd (cr_offer rq) \<le> max_hourly_microusd r"
  using creation_authorised [OF assms] by simp

lemma creations_within_authorization_witness:
  "CreateCall ''gpu-1'' 2 (creation_request market_rental market_recipe market_offer ''t'' None)
      \<in> set (ctl_log (snd (reconcile_due market_controller 10 market_confirmed)))
   \<and> (\<exists>r \<in> set (db_rentals (ctl_db (snd (reconcile_due market_controller 10 market_confirmed)))). rental_id r = ''gpu-1''
      \<and> 0 < of_hourly_microusd market_offer \<and> of_hourly_microusd market_offer \<le> max_hourly_microusd r)"
proof -
  let ?t = "snd (reconcile_due market_controller 10 market_confirmed)"
  have call: "CreateCall ''gpu-1'' 2 (creation_request market_rental market_recipe market_offer ''t'' None) \<in> set (ctl_log ?t)"
    by code_simp
  have "ledger_ok (ctl_db market_confirmed)"
    using guaranteesD [OF confirm_sound [of market_service "''r1''" market_offer market_authorization "sample_provider True" 5],
        of market_start]
      market_start_ok(1) by (simp add: sound_ctl_def sound_step_def market_confirmed_def)
  from creations_within_authorization [OF this market_confirm(4) system_reconcile [OF system_refl] call] call
  show ?thesis by (auto simp: creation_request_def)
qed

end
