(* ===== verification/Stream_Text.thy ===== *)
theory Stream_Text
  imports Utf8
begin

text \<open>Incremental parsers of streamed text (\<^verbatim>\<open>codex-rs/utils/stream-parser\<close>): the chunk they
  emit, the trait they implement, as a locale, and the wrapper that feeds them raw bytes.  A push may
  fail to return, which is None; the contract of the trait includes that it returns.\<close>

section \<open>Chunks and pushes\<close>

record 'x stream_text_chunk =
  visible_text :: string
  extracted :: "'x list"

definition default_chunk :: "'x stream_text_chunk" where
  "default_chunk = \<lparr>visible_text = [], extracted = []\<rparr>"

definition chunk_is_empty :: "'x stream_text_chunk \<Rightarrow> bool" where
  "chunk_is_empty c \<longleftrightarrow> visible_text c = [] \<and> extracted c = []"

definition append_chunk :: "'x stream_text_chunk \<Rightarrow> 'x stream_text_chunk \<Rightarrow> 'x stream_text_chunk" where
  "append_chunk c d = \<lparr>visible_text = visible_text c @ visible_text d, extracted = extracted c @ extracted d\<rparr>"

lemma chunk_sel [simp]:
  "visible_text default_chunk = []" "extracted default_chunk = []"
  "visible_text (append_chunk c d) = visible_text c @ visible_text d"
  "extracted (append_chunk c d) = extracted c @ extracted d"
  by (simp_all add: default_chunk_def append_chunk_def)

lemma append_chunk_default [simp]: "append_chunk default_chunk c = c" "append_chunk c default_chunk = c"
  by (simp_all add: append_chunk_def)

lemma append_chunk_assoc: "append_chunk (append_chunk a b) c = append_chunk a (append_chunk b c)"
  by (simp add: append_chunk_def)

type_synonym ('s, 'x) push_fn = "'s \<Rightarrow> string \<Rightarrow> ('s \<times> 'x stream_text_chunk) option"
type_synonym ('s, 'x) finish_fn = "'s \<Rightarrow> 's \<times> 'x stream_text_chunk"

text \<open>Several pushes in a row, and a whole stream.\<close>

primrec push_all :: "('s, 'x) push_fn \<Rightarrow> 's \<Rightarrow> string list \<Rightarrow> ('s \<times> 'x stream_text_chunk) option" where
  "push_all push s [] = Some (s, default_chunk)"
| "push_all push s (a # as) =
    Option.bind (push s a) (\<lambda>(s1, c1). map_option (apsnd (append_chunk c1)) (push_all push s1 as))"

definition collect :: "('s, 'x) push_fn \<Rightarrow> ('s, 'x) finish_fn \<Rightarrow> 's \<Rightarrow> string list \<Rightarrow> 'x stream_text_chunk option" where
  "collect push finish s as = map_option (\<lambda>(s1, c). append_chunk c (snd (finish s1))) (push_all push s as)"

section \<open>The trait\<close>

text \<open>The chunks two pushes emit are compared up to a normal form of what is extracted, because a
  parser may cut a payload where the input was cut.  On the states of its invariant a parser
  returns, and a push of a concatenation is the two pushes.\<close>

locale stream_text_parser =
  fixes push_str :: "('s, 'x) push_fn"
    and finish :: "('s, 'x) finish_fn"
    and invar :: "'s \<Rightarrow> bool"
    and norm :: "'x list \<Rightarrow> 'x list"
  assumes push_str_returns: "invar s \<Longrightarrow> utf8 a \<Longrightarrow> \<exists>s1 c. push_str s a = Some (s1, c) \<and> invar s1"
    and push_str_append:
      "invar s \<Longrightarrow> utf8 a \<Longrightarrow> utf8 b \<Longrightarrow> push_str s a = Some (s1, c1) \<Longrightarrow> push_str s1 b = Some (s2, c2)
        \<Longrightarrow> \<exists>c. push_str s (a @ b) = Some (s2, c) \<and> visible_text c = visible_text c1 @ visible_text c2
              \<and> norm (extracted c) = norm (extracted c1 @ extracted c2)"
    and push_str_Nil: "invar s \<Longrightarrow> push_str s [] = Some (s, default_chunk)"
    and norm_left: "norm (norm xs @ ys) = norm (xs @ ys)"
    and norm_right: "norm (xs @ norm ys) = norm (xs @ ys)"
begin

definition same_chunk :: "'x stream_text_chunk \<Rightarrow> 'x stream_text_chunk \<Rightarrow> bool" where
  "same_chunk c d \<longleftrightarrow> visible_text c = visible_text d \<and> norm (extracted c) = norm (extracted d)"

lemma same_chunk_append: "same_chunk a b \<Longrightarrow> same_chunk c d \<Longrightarrow> same_chunk (append_chunk a c) (append_chunk b d)"
  using norm_left [of "extracted a" "extracted c"] norm_left [of "extracted b" "extracted c"]
    norm_right [of "extracted b" "extracted c"] norm_right [of "extracted b" "extracted d"]
  by (simp add: same_chunk_def)

lemma same_chunk_refl [simp]: "same_chunk c c"
  by (simp add: same_chunk_def)

lemma same_chunk_trans: "same_chunk a b \<Longrightarrow> same_chunk b c \<Longrightarrow> same_chunk a c"
  by (simp add: same_chunk_def)

lemma push_twice:
  assumes "invar s" and "utf8 a" and "utf8 b"
  shows "\<exists>s1 c1 s2 c2 c. push_str s a = Some (s1, c1) \<and> invar s1 \<and> push_str s1 b = Some (s2, c2) \<and> invar s2
    \<and> push_str s (a @ b) = Some (s2, c) \<and> same_chunk c (append_chunk c1 c2)"
  using push_str_returns [OF assms(1,2)] push_str_returns [OF _ assms(3)] push_str_append [OF assms]
  unfolding same_chunk_def by fastforce

lemma push_all_concat:
  assumes "invar s" and "\<forall>a \<in> set as. utf8 a"
  shows "\<exists>s1 c d. push_all push_str s as = Some (s1, c) \<and> push_str s (concat as) = Some (s1, d)
    \<and> invar s1 \<and> same_chunk c d"
  using assms
proof (induction as arbitrary: s)
  case Nil
  then show ?case by (simp add: push_str_Nil)
next
  case (Cons a as)
  have "utf8 (concat as)" if "\<forall>a \<in> set as. utf8 a" for as using that by (induction as) auto
  with Cons obtain s1 c1 s2 c2 c where twice: "push_str s a = Some (s1, c1)" "invar s1" "push_str s1 (concat as) = Some (s2, c2)"
    "push_str s (a @ concat as) = Some (s2, c)" "same_chunk c (append_chunk c1 c2)"
    using push_twice [of s a "concat as"] by (metis list.set_intros)
  with Cons obtain c2' where "push_all push_str s1 as = Some (s2, c2')" "invar s2" "same_chunk c2' c2"
    by fastforce
  with twice show ?case
    using same_chunk_append [of c1 c1 c2' c2] by (auto simp: same_chunk_def)
qed

lemma collect_concat:
  assumes "invar s" and "\<forall>a \<in> set as. utf8 a"
  shows "\<exists>c d. collect push_str finish s as = Some c \<and> collect push_str finish s [concat as] = Some d \<and> same_chunk c d"
  using push_all_concat [OF assms] by (auto simp: collect_def intro!: same_chunk_append)

end

section \<open>Raw bytes\<close>

datatype utf8_stream_parser_error = InvalidUtf8 nat nat | IncompleteUtf8AtEof

record 's utf8_stream_parser =
  inner :: 's
  pending_utf8 :: string

definition utf8_stream_parser_new :: "'s \<Rightarrow> 's utf8_stream_parser" where
  "utf8_stream_parser_new s = \<lparr>inner = s, pending_utf8 = []\<rparr>"

definition push_bytes ::
    "('s, 'x) push_fn \<Rightarrow> 's utf8_stream_parser \<Rightarrow> string
       \<Rightarrow> ('s utf8_stream_parser \<times> (utf8_stream_parser_error + 'x stream_text_chunk)) option" where
  "push_bytes push p chunk =
    (let old_len = length (pending_utf8 p); buffered = pending_utf8 p @ chunk in
     case from_utf8 buffered of
       Inr text \<Rightarrow>
         map_option (\<lambda>(s, out). (\<lparr>inner = s, pending_utf8 = []\<rparr>, Inr out)) (push (inner p) text)
     | Inl (valid_up_to, Some error_len) \<Rightarrow>
         Some (p\<lparr>pending_utf8 := take old_len buffered\<rparr>, Inl (InvalidUtf8 valid_up_to error_len))
     | Inl (valid_up_to, None) \<Rightarrow>
         if valid_up_to = 0 then Some (p\<lparr>pending_utf8 := buffered\<rparr>, Inr default_chunk)
         else (case from_utf8 (take valid_up_to buffered) of
                 Inr text \<Rightarrow>
                   map_option (\<lambda>(s, out). (\<lparr>inner = s, pending_utf8 = drop valid_up_to buffered\<rparr>, Inr out))
                     (push (inner p) text)
               | Inl (v, e) \<Rightarrow>
                   Some (p\<lparr>pending_utf8 := take old_len buffered\<rparr>,
                     Inl (InvalidUtf8 v (case e of Some k \<Rightarrow> k | None \<Rightarrow> 0)))))"

definition undecoded :: "nat \<times> nat option \<Rightarrow> utf8_stream_parser_error" where
  "undecoded err =
    (case err of (valid_up_to, Some error_len) \<Rightarrow> InvalidUtf8 valid_up_to error_len | (_, None) \<Rightarrow> IncompleteUtf8AtEof)"

definition finish_bytes ::
    "('s, 'x) push_fn \<Rightarrow> ('s, 'x) finish_fn \<Rightarrow> 's utf8_stream_parser
       \<Rightarrow> ('s utf8_stream_parser \<times> (utf8_stream_parser_error + 'x stream_text_chunk)) option" where
  "finish_bytes push finish p =
    (let flush = (\<lambda>(s, out). case finish s of (s1, tail) \<Rightarrow>
           (\<lparr>inner = s1, pending_utf8 = []\<rparr>, Inr (append_chunk out tail))) in
     if pending_utf8 p = [] then Some (flush (inner p, default_chunk))
     else case from_utf8 (pending_utf8 p) of
            Inl err \<Rightarrow> Some (p, Inl (undecoded err))
          | Inr text \<Rightarrow> map_option flush (push (inner p) text))"

definition into_inner :: "'s utf8_stream_parser \<Rightarrow> utf8_stream_parser_error + 's" where
  "into_inner p =
    (if pending_utf8 p = [] then Inr (inner p)
     else case from_utf8 (pending_utf8 p) of Inr _ \<Rightarrow> Inr (inner p) | Inl err \<Rightarrow> Inl (undecoded err))"

definition into_inner_lossy :: "'s utf8_stream_parser \<Rightarrow> 's" where
  "into_inner_lossy p = inner p"

text \<open>A caller that stops at the first error.\<close>

primrec push_bytes_all ::
    "('s, 'x) push_fn \<Rightarrow> 's utf8_stream_parser \<Rightarrow> string list
       \<Rightarrow> ('s utf8_stream_parser \<times> (utf8_stream_parser_error + 'x stream_text_chunk)) option" where
  "push_bytes_all push p [] = Some (p, Inr default_chunk)"
| "push_bytes_all push p (b # bs) =
    Option.bind (push_bytes push p b) (\<lambda>(p1, r1).
      case r1 of
        Inl e \<Rightarrow> Some (p1, Inl e)
      | Inr c1 \<Rightarrow> map_option (apsnd (\<lambda>r. and_then r (\<lambda>c2. Inr (append_chunk c1 c2)))) (push_bytes_all push p1 bs))"

definition collect_bytes ::
    "('s, 'x) push_fn \<Rightarrow> ('s, 'x) finish_fn \<Rightarrow> 's \<Rightarrow> string list
       \<Rightarrow> (utf8_stream_parser_error + 'x stream_text_chunk) option" where
  "collect_bytes push finish s bs =
    Option.bind (push_bytes_all push (utf8_stream_parser_new s) bs) (\<lambda>(p, r).
      case r of
        Inl e \<Rightarrow> Some (Inl e)
      | Inr c \<Rightarrow> map_option (\<lambda>(_, r1). and_then r1 (\<lambda>d. Inr (append_chunk c d))) (finish_bytes push finish p))"

section \<open>Decoding is transparent\<close>

context stream_text_parser
begin

lemma push_bytes_accepted:
  assumes "invar (inner p)" and "rejected (pending_utf8 p @ b) = None"
  shows "push_bytes push_str p b =
    map_option (\<lambda>(s, out). (\<lparr>inner = s, pending_utf8 = drop (valid_len (pending_utf8 p @ b)) (pending_utf8 p @ b)\<rparr>, Inr out))
      (push_str (inner p) (take (valid_len (pending_utf8 p @ b)) (pending_utf8 p @ b)))"
proof (cases "utf8_error (pending_utf8 p @ b)")
  case None
  then show ?thesis by (simp add: push_bytes_def from_utf8_def valid_len_def)
next
  case (Some e)
  with assms(2) obtain v where v: "utf8_error (pending_utf8 p @ b) = Some (v, None)"
    by (cases e) (simp add: rejected_def)
  then have "utf8 (take v (pending_utf8 p @ b))" using utf8_error_take by blast
  with v assms(1) show ?thesis
    by (simp add: push_bytes_def from_utf8_def valid_len_def push_str_Nil Let_def)
qed

lemma push_bytes_rejected:
  "rejected (pending_utf8 p @ b) = Some k \<Longrightarrow> \<exists>v. push_bytes push_str p b = Some (p, Inl (InvalidUtf8 v k))"
  by (auto simp: rejected_def push_bytes_def from_utf8_def Let_def split: option.splits)

lemma push_bytes_all_rejected:
  assumes "invar (inner p)" and "rejected (pending_utf8 p) = None" and "rejected (pending_utf8 p @ concat bs) = Some k"
  shows "\<exists>q v. push_bytes_all push_str p bs = Some (q, Inl (InvalidUtf8 v k))"
  using assms
proof (induction bs arbitrary: p)
  case (Cons b bs)
  let ?x = "pending_utf8 p @ b"
  show ?case
  proof (cases "rejected ?x")
    case None
    obtain s c where s: "push_str (inner p) (take (valid_len ?x) ?x) = Some (s, c)" "invar s"
      using push_str_returns [OF Cons.prems(1)] valid_len_take by blast
    let ?p = "\<lparr>inner = s, pending_utf8 = drop (valid_len ?x) ?x\<rparr>"
    have "push_bytes push_str p b = Some (?p, Inr c)"
      using push_bytes_accepted [OF Cons.prems(1) None] s(1) by simp
    moreover have "\<exists>q v. push_bytes_all push_str ?p bs = Some (q, Inl (InvalidUtf8 v k))"
      using Cons.prems(3) None s(2) valid_len_split(2) [of ?x "concat bs"] valid_len_split(2) [of ?x "[]"]
      by (intro Cons.IH) simp_all
    ultimately show ?thesis by auto
  next
    case (Some j)
    then have "j = k" using rejected_mono [OF Some, of "concat bs"] Cons.prems(3) by simp
    with push_bytes_rejected [OF Some] show ?thesis by auto
  qed
qed simp

lemma push_bytes_all_accepted:
  assumes "invar (inner p)" and "valid_len (pending_utf8 p) = 0" and "rejected (pending_utf8 p @ concat bs) = None"
  shows "\<exists>s c d. push_bytes_all push_str p bs
        = Some (\<lparr>inner = s, pending_utf8 = drop (valid_len (pending_utf8 p @ concat bs)) (pending_utf8 p @ concat bs)\<rparr>, Inr c)
      \<and> push_str (inner p) (take (valid_len (pending_utf8 p @ concat bs)) (pending_utf8 p @ concat bs)) = Some (s, d)
      \<and> invar s \<and> same_chunk c d"
  using assms
proof (induction bs arbitrary: p)
  case Nil
  then show ?case by (cases p) (simp add: push_str_Nil)
next
  case (Cons b bs)
  define x where "x = pending_utf8 p @ b"
  define y where "y = drop (valid_len x) x"
  have x: "rejected x = None" using Cons.prems(3) rejected_mono [of x _ "concat bs"] by (cases "rejected x") (auto simp: x_def)
  have split: "valid_len (x @ concat bs) = valid_len x + valid_len (y @ concat bs)" "rejected (y @ concat bs) = None"
    "valid_len y = 0"
    using valid_len_split [of x "concat bs"] valid_len_split(1) [of x "[]"] Cons.prems(3) by (simp_all add: x_def y_def)
  obtain s1 c1 s2 c2 c where twice: "push_str (inner p) (take (valid_len x) x) = Some (s1, c1)" "invar s1"
    "push_str s1 (take (valid_len (y @ concat bs)) (y @ concat bs)) = Some (s2, c2)"
    "push_str (inner p) (take (valid_len x) x @ take (valid_len (y @ concat bs)) (y @ concat bs)) = Some (s2, c)"
    "same_chunk c (append_chunk c1 c2)"
    using push_twice [OF Cons.prems(1) valid_len_take(1) valid_len_take(1)] by metis
  have first: "push_bytes push_str p b = Some (\<lparr>inner = s1, pending_utf8 = y\<rparr>, Inr c1)"
    using push_bytes_accepted [OF Cons.prems(1)] x twice(1) by (simp add: x_def y_def)
  obtain c2' where rest: "push_bytes_all push_str \<lparr>inner = s1, pending_utf8 = y\<rparr> bs
      = Some (\<lparr>inner = s2, pending_utf8 = drop (valid_len (y @ concat bs)) (y @ concat bs)\<rparr>, Inr c2')"
    "invar s2" "same_chunk c2' c2"
    using Cons.IH [of "\<lparr>inner = s1, pending_utf8 = y\<rparr>"] twice(2,3) split(2,3) by auto
  have "take (valid_len (x @ concat bs)) (x @ concat bs) = take (valid_len x) x @ take (valid_len (y @ concat bs)) (y @ concat bs)"
    "drop (valid_len (x @ concat bs)) (x @ concat bs) = drop (valid_len (y @ concat bs)) (y @ concat bs)"
    unfolding split(1) using valid_len_take(2) [of x] by (simp_all add: take_add y_def add.commute drop_drop)
  moreover have "pending_utf8 p @ concat (b # bs) = x @ concat bs" by (simp add: x_def)
  moreover have "same_chunk (append_chunk c1 c2') c"
    using same_chunk_append [of c1 c1 c2' c2] rest(3) twice(5) by (simp add: same_chunk_def)
  ultimately show ?case using first rest twice(4) by auto
qed

text \<open>A stream of bytes is parsed as its text is, however it is cut, and is refused exactly if it is
  not UTF-8: as incomplete if it ends within a scalar value, and as invalid otherwise.\<close>

lemma collect_bytes_result:
  assumes "invar s"
  shows "case utf8_error (concat bs) of
      None \<Rightarrow> \<exists>c d. collect_bytes push_str finish s bs = Some (Inr c)
        \<and> collect push_str finish s [concat bs] = Some d \<and> same_chunk c d
    | Some (v, None) \<Rightarrow> collect_bytes push_str finish s bs = Some (Inl IncompleteUtf8AtEof)
    | Some (v, Some k) \<Rightarrow> \<exists>u. collect_bytes push_str finish s bs = Some (Inl (InvalidUtf8 u k))"
proof (cases "utf8_error (concat bs)")
  case None
  then have "rejected (concat bs) = None" "valid_len (concat bs) = length (concat bs)" by (simp_all add: rejected_def valid_len_def)
  with push_bytes_all_accepted [of "utf8_stream_parser_new s" bs] assms
  obtain t c d where "push_bytes_all push_str (utf8_stream_parser_new s) bs = Some (\<lparr>inner = t, pending_utf8 = []\<rparr>, Inr c)"
    "push_str s (concat bs) = Some (t, d)" "same_chunk c d"
    by (auto simp: utf8_stream_parser_new_def valid_len_def)
  then show ?thesis
    using None by (auto simp: collect_bytes_def finish_bytes_def collect_def intro!: same_chunk_append split: prod.splits)
next
  case (Some e)
  obtain v k where e: "e = (v, k)" by (cases e)
  show ?thesis
  proof (cases k)
    case None
    with Some e have "rejected (concat bs) = None" "valid_len (concat bs) = v" by (simp_all add: rejected_def valid_len_def)
    with push_bytes_all_accepted [of "utf8_stream_parser_new s" bs] assms
    obtain t c where "push_bytes_all push_str (utf8_stream_parser_new s) bs = Some (\<lparr>inner = t, pending_utf8 = drop v (concat bs)\<rparr>, Inr c)"
      by (auto simp: utf8_stream_parser_new_def valid_len_def)
    moreover have "utf8_error (drop v (concat bs)) = Some (0, None)"
      using Some e None utf8_error_append [of "take v (concat bs)" "drop v (concat bs)"] utf8_error_take [of "concat bs" v]
      by (cases "utf8_error (drop v (concat bs))") auto
    moreover from this have "drop v (concat bs) \<noteq> []" by auto
    ultimately show ?thesis
      using Some e None by (simp add: collect_bytes_def finish_bytes_def from_utf8_def undecoded_def Let_def)
  next
    case k: (Some j)
    with Some e have "rejected (concat bs) = Some j" by (simp add: rejected_def)
    with push_bytes_all_rejected [of "utf8_stream_parser_new s" bs] assms
    show ?thesis using Some e k by (auto simp: collect_bytes_def utf8_stream_parser_new_def rejected_def)
  qed
qed

end

text \<open>A rejected chunk leaves the parser as it was.\<close>

lemma push_bytes_rolls_back:
  "push_bytes push p b = Some (q, Inl e) \<Longrightarrow> q = p"
  by (auto simp: push_bytes_def Let_def split: sum.splits option.splits if_splits)

end
