(* ===== verification/Inline_Tags.thy ===== *)
theory Inline_Tags
  imports Stream_Text
begin

text \<open>The parser of hidden inline tags (\<^verbatim>\<open>inline_hidden_tag.rs\<close>) and its use for citations
  (\<^verbatim>\<open>citation.rs\<close>).  The parser keeps back the end of its input that may still grow into a
  delimiter, and shows or collects the rest at once.\<close>

section \<open>Searching\<close>

fun str_find :: "string \<Rightarrow> string \<Rightarrow> nat option" where
  "str_find [] p = (if p = [] then Some 0 else None)"
| "str_find (c # s) p = (if starts_with (c # s) p then Some 0 else map_option Suc (str_find s p))"

definition is_char_boundary :: "string \<Rightarrow> nat \<Rightarrow> bool" where
  "is_char_boundary s k \<longleftrightarrow> k = 0 \<or> k = length s \<or> (k < length s \<and> \<not> is_continuation (byte (s ! k)))"

text \<open>The longest proper prefix of the second string that ends the first.\<close>

definition longest_suffix_prefix_len :: "string \<Rightarrow> string \<Rightarrow> nat" where
  "longest_suffix_prefix_len s needle =
    (case find (\<lambda>k. is_char_boundary needle k \<and> ends_with s (take k needle))
            (rev [1..<Suc (min (length s) (length needle - 1))]) of
       Some k \<Rightarrow> k
     | None \<Rightarrow> 0)"

text \<open>\<^verbatim>\<open>Iterator::min_by\<close>: the first of the least elements.\<close>

definition min_by :: "('a \<Rightarrow> 'a \<Rightarrow> bool) \<Rightarrow> 'a list \<Rightarrow> 'a option" where
  "min_by lt xs = (case xs of [] \<Rightarrow> None | y # ys \<Rightarrow> Some (foldl (\<lambda>m x. if lt x m then x else m) y ys))"

section \<open>The parser\<close>

record 't inline_tag_spec =
  is_tag :: 't
  is_open :: string
  is_close :: string

record 't extracted_inline_tag =
  ei_tag :: 't
  ei_content :: string

record 't active_tag =
  ac_tag :: 't
  ac_close :: string
  ac_content :: string

record 't inline_hidden_tag_parser =
  it_specs :: "'t inline_tag_spec list"
  it_pending :: string
  it_active :: "'t active_tag option"

type_synonym 't inline_chunk = "'t extracted_inline_tag stream_text_chunk"

text \<open>None is the panic of an assertion.\<close>

definition inline_hidden_tag_parser_new :: "'t inline_tag_spec list \<Rightarrow> 't inline_hidden_tag_parser option" where
  "inline_hidden_tag_parser_new specs =
    (if specs \<noteq> [] \<and> list_all (\<lambda>spec. is_open spec \<noteq> [] \<and> is_close spec \<noteq> []) specs
     then Some \<lparr>it_specs = specs, it_pending = [], it_active = None\<rparr> else None)"

text \<open>Position, length and index of an opening delimiter; an earlier one comes first, and then a
  longer one.\<close>

definition open_before :: "nat \<times> nat \<times> nat \<Rightarrow> nat \<times> nat \<times> nat \<Rightarrow> bool" where
  "open_before a b =
    (case (a, b) of ((pos_a, len_a, idx_a), (pos_b, len_b, idx_b)) \<Rightarrow>
       pos_a < pos_b \<or> (pos_a = pos_b \<and> (len_b < len_a \<or> (len_a = len_b \<and> idx_a < idx_b))))"

definition open_candidates :: "'t inline_tag_spec list \<Rightarrow> string \<Rightarrow> (nat \<times> nat \<times> nat) list" where
  "open_candidates specs pending =
    List.map_filter (\<lambda>(idx, spec). map_option (\<lambda>pos. (pos, length (is_open spec), idx)) (str_find pending (is_open spec)))
      (List.enumerate 0 specs)"

definition find_next_open :: "'t inline_hidden_tag_parser \<Rightarrow> (nat \<times> nat) option" where
  "find_next_open p = map_option (\<lambda>(pos, _, idx). (pos, idx)) (min_by open_before (open_candidates (it_specs p) (it_pending p)))"

definition max_open_prefix_suffix_len :: "'t inline_hidden_tag_parser \<Rightarrow> nat" where
  "max_open_prefix_suffix_len p =
    foldl max 0 (map (\<lambda>spec. longest_suffix_prefix_len (it_pending p) (is_open spec)) (it_specs p))"

definition push_visible_prefix :: "'t inline_chunk \<Rightarrow> string \<Rightarrow> 't inline_chunk" where
  "push_visible_prefix out s = out\<lparr>visible_text := visible_text out @ s\<rparr>"

definition drain_visible_to_suffix_match ::
    "'t inline_hidden_tag_parser \<Rightarrow> 't inline_chunk \<Rightarrow> nat \<Rightarrow> 't inline_hidden_tag_parser \<times> 't inline_chunk" where
  "drain_visible_to_suffix_match p out keep =
    (let n = length (it_pending p) - keep in
     if n = 0 then (p, out)
     else (p\<lparr>it_pending := drop n (it_pending p)\<rparr>, push_visible_prefix out (take n (it_pending p))))"

definition drain_content :: "'t inline_hidden_tag_parser \<Rightarrow> 't active_tag \<Rightarrow> 't inline_hidden_tag_parser" where
  "drain_content p a =
    (let n = length (it_pending p) - longest_suffix_prefix_len (it_pending p) (ac_close a) in
     if n > 0
     then p\<lparr>it_active := Some (a\<lparr>ac_content := ac_content a @ take n (it_pending p)\<rparr>),
            it_pending := drop n (it_pending p)\<rparr>
     else p)"

definition close_tag :: "'t active_tag \<Rightarrow> string \<Rightarrow> 't inline_chunk \<Rightarrow> 't inline_chunk" where
  "close_tag a s out = out\<lparr>extracted := extracted out @ [\<lparr>ei_tag = ac_tag a, ei_content = ac_content a @ s\<rparr>]\<rparr>"

definition open_tag :: "'t inline_tag_spec \<Rightarrow> 't active_tag" where
  "open_tag spec = \<lparr>ac_tag = is_tag spec, ac_close = is_close spec, ac_content = []\<rparr>"

text \<open>The loop of \<^verbatim>\<open>push_str\<close>; nothing in it ends it when a delimiter is empty.\<close>

partial_function (option) push_loop ::
    "'t inline_hidden_tag_parser \<Rightarrow> 't inline_chunk \<Rightarrow> ('t inline_hidden_tag_parser \<times> 't inline_chunk) option" where
  "push_loop p out =
    (case it_active p of
       Some a \<Rightarrow>
         (case str_find (it_pending p) (ac_close a) of
            Some close_idx \<Rightarrow>
              push_loop (p\<lparr>it_active := None, it_pending := drop (close_idx + length (ac_close a)) (it_pending p)\<rparr>)
                (close_tag a (take close_idx (it_pending p)) out)
          | None \<Rightarrow> Some (drain_content p a, out))
     | None \<Rightarrow>
         (case find_next_open p of
            Some (open_idx, spec_idx) \<Rightarrow>
              push_loop
                (p\<lparr>it_pending := drop (open_idx + length (is_open (it_specs p ! spec_idx))) (it_pending p),
                   it_active := Some (open_tag (it_specs p ! spec_idx))\<rparr>)
                (push_visible_prefix out (take open_idx (it_pending p)))
          | None \<Rightarrow> Some (drain_visible_to_suffix_match p out (max_open_prefix_suffix_len p))))"

declare push_loop.simps [code]

definition inline_push_str :: "('t inline_hidden_tag_parser, 't extracted_inline_tag) push_fn" where
  "inline_push_str p chunk = push_loop (p\<lparr>it_pending := it_pending p @ chunk\<rparr>) default_chunk"

definition inline_finish :: "('t inline_hidden_tag_parser, 't extracted_inline_tag) finish_fn" where
  "inline_finish p =
    (case it_active p of
       Some a \<Rightarrow> (p\<lparr>it_active := None, it_pending := []\<rparr>, close_tag a (it_pending p) default_chunk)
     | None \<Rightarrow> (p\<lparr>it_pending := []\<rparr>, push_visible_prefix default_chunk (it_pending p)))"

section \<open>Citations\<close>

datatype citation_tag = Citation

definition CITATION_OPEN :: string where "CITATION_OPEN = ''<oai-mem-citation>''"
definition CITATION_CLOSE :: string where "CITATION_CLOSE = ''</oai-mem-citation>''"

type_synonym citation_stream_parser = "citation_tag inline_hidden_tag_parser"

definition citation_spec :: "citation_tag inline_tag_spec" where
  "citation_spec = \<lparr>is_tag = Citation, is_open = CITATION_OPEN, is_close = CITATION_CLOSE\<rparr>"

definition citation_stream_parser_new :: "citation_stream_parser option" where
  "citation_stream_parser_new = inline_hidden_tag_parser_new [citation_spec]"

definition tag_contents :: "'t inline_chunk \<Rightarrow> string stream_text_chunk" where
  "tag_contents c = \<lparr>visible_text = visible_text c, extracted = map ei_content (extracted c)\<rparr>"

definition citation_push_str :: "(citation_stream_parser, string) push_fn" where
  "citation_push_str p chunk = map_option (apsnd tag_contents) (inline_push_str p chunk)"

definition citation_finish :: "(citation_stream_parser, string) finish_fn" where
  "citation_finish p = apsnd tag_contents (inline_finish p)"

definition strip_citations :: "string \<Rightarrow> (string \<times> string list) option" where
  "strip_citations text =
    Option.bind citation_stream_parser_new (\<lambda>parser.
    map_option (\<lambda>(p, out). let tail = snd (citation_finish p) in
        (visible_text out @ visible_text tail, extracted out @ extracted tail))
      (citation_push_str parser text))"

section \<open>What a search passes\<close>

lemma starts_with_prefix_of: "starts_with (z @ b) d \<Longrightarrow> starts_with z d \<or> starts_with d z"
  by (induction z d rule: starts_with.induct) auto

lemma starts_with_short: "starts_with (z @ b) d \<Longrightarrow> length d \<le> length z \<Longrightarrow> starts_with z d"
  by (induction z d rule: starts_with.induct) auto

lemma starts_with_appendD: "starts_with d (z @ b) \<Longrightarrow> starts_with d z"
  by (auto simp: starts_with_iff)

lemma str_find_Some:
  "str_find s p = Some i \<longleftrightarrow> i \<le> length s \<and> starts_with (drop i s) p \<and> (\<forall>j<i. \<not> starts_with (drop j s) p)"
proof (induction s arbitrary: i)
  case Nil
  then show ?case by (cases p) auto
next
  case (Cons c s)
  show ?case
  proof (cases i)
    case (Suc k)
    have "(\<forall>j<Suc k. \<not> starts_with (drop j (c # s)) p) \<longleftrightarrow> \<not> starts_with (c # s) p \<and> (\<forall>j<k. \<not> starts_with (drop j s) p)"
      by (auto simp: less_Suc_eq_0_disj)
    then show ?thesis using Cons.IH [of k] Suc by auto
  qed auto
qed

lemma all_le_Suc: "(\<forall>j\<le>Suc m. P j) \<longleftrightarrow> P 0 \<and> (\<forall>j\<le>m. P (Suc j))"
  by (metis Suc_le_mono not0_implies_Suc zero_le)

lemma str_find_None: "str_find s p = None \<longleftrightarrow> (\<forall>j\<le>length s. \<not> starts_with (drop j s) p)"
proof (induction s)
  case Nil
  then show ?case by (cases p) auto
next
  case (Cons c s)
  then show ?case by (simp add: all_le_Suc)
qed

text \<open>A search has passed a position when the delimiter can no longer begin there, whatever follows.\<close>

definition passes :: "string \<Rightarrow> string \<Rightarrow> nat \<Rightarrow> bool" where
  "passes q d n \<longleftrightarrow> n \<le> length q \<and> (\<forall>j<n. \<not> starts_with (drop j q) d \<and> \<not> starts_with d (drop j q))"

lemma passes_append: "passes q d n \<Longrightarrow> passes (q @ b) d n"
  unfolding passes_def by (auto dest!: starts_with_prefix_of dest: starts_with_appendD)

lemma passes_find:
  assumes "passes q d n"
  shows "str_find q d = map_option ((+) n) (str_find (drop n q) d)"
proof (cases "str_find (drop n q) d")
  case None
  have "\<not> starts_with (drop j q) d" if "j \<le> length q" for j
  proof (cases "j < n")
    case False
    then show ?thesis using None [unfolded str_find_None, rule_format, of "j - n"] that by simp
  qed (use assms in \<open>simp add: passes_def\<close>)
  then have "str_find q d = None" by (simp add: str_find_None)
  with None show ?thesis by simp
next
  case (Some i)
  have "\<not> starts_with (drop j q) d" if "j < n + i" for j
  proof (cases "j < n")
    case False
    then show ?thesis using Some [unfolded str_find_Some, THEN conjunct2, THEN conjunct2, rule_format, of "j - n"] that by simp
  qed (use assms in \<open>simp add: passes_def\<close>)
  moreover have "n + i \<le> length q" "starts_with (drop (n + i) q) d"
    using Some assms by (auto simp: str_find_Some passes_def add.commute)
  ultimately have "str_find q d = Some (n + i)" by (simp add: str_find_Some)
  with Some show ?thesis by simp
qed

definition last_below :: "(nat \<Rightarrow> bool) \<Rightarrow> nat \<Rightarrow> nat" where
  "last_below P m = (case find P (rev [1..<Suc m]) of Some k \<Rightarrow> k | None \<Rightarrow> 0)"

lemma last_below_Suc: "last_below P (Suc m) = (if P (Suc m) then Suc m else last_below P m)"
  by (simp add: last_below_def)

lemma last_below_iff:
  "last_below P m = k \<longleftrightarrow> (k = 0 \<or> (k \<le> m \<and> P k)) \<and> (\<forall>j>k. j \<le> m \<longrightarrow> \<not> P j)"
proof (induction m)
  case 0
  then show ?case by (auto simp: last_below_def)
next
  case (Suc m)
  show ?case
  proof (cases "P (Suc m)")
    case True
    then show ?thesis by (cases k "Suc m" rule: linorder_cases) (auto simp: last_below_Suc)
  next
    case False
    then show ?thesis by (simp only: last_below_Suc Suc.IH if_False) (auto simp: le_Suc_eq)
  qed
qed

lemma longest_suffix_prefix_len_iff:
  "longest_suffix_prefix_len s d = k \<longleftrightarrow>
    (k = 0 \<or> (k \<le> length s \<and> k < length d \<and> is_char_boundary d k \<and> ends_with s (take k d)))
    \<and> (\<forall>j>k. j \<le> length s \<longrightarrow> j < length d \<longrightarrow> \<not> (is_char_boundary d j \<and> ends_with s (take j d)))"
  unfolding longest_suffix_prefix_len_def last_below_def [symmetric] last_below_iff
  by (cases d) (auto simp: less_Suc_eq_le)

lemmas longest_spec = longest_suffix_prefix_len_iff [THEN iffD1, OF refl]

lemma longest_le: "longest_suffix_prefix_len s d \<le> length s"
  using longest_spec [of s d] by auto

lemma drop_take_shift:
  fixes x :: string
  assumes "n \<le> length x" and "k \<le> length (drop n x)"
  shows "take (length x - k) x = take n x @ take (length (drop n x) - k) (drop n x)"
    and "drop (length x - k) x = drop (length (drop n x) - k) (drop n x)"
proof -
  have "length x - k = n + (length (drop n x) - k)" using assms by simp
  then show "take (length x - k) x = take n x @ take (length (drop n x) - k) (drop n x)"
    "drop (length x - k) x = drop (length (drop n x) - k) (drop n x)"
    by (simp_all only: take_add drop_drop add.commute)
qed

lemma ends_with_take_iff: "k \<le> length s \<Longrightarrow> k \<le> length d \<Longrightarrow> ends_with s (take k d) \<longleftrightarrow> drop (length s - k) s = take k d"
  by (auto simp: ends_with_iff) (metis append_take_drop_id)

lemma passes_longest:
  assumes "passes q d n"
  shows "longest_suffix_prefix_len q d = longest_suffix_prefix_len (drop n q) d"
proof -
  let ?k = "longest_suffix_prefix_len (drop n q) d"
  have n: "n \<le> length q" using assms by (simp add: passes_def)
  have ends: "ends_with q (take j d) \<longleftrightarrow> j \<le> length q - n \<and> ends_with (drop n q) (take j d)" if "j \<le> length q" "0 < j" "j < length d" for j
  proof (cases "j \<le> length q - n")
    case True
    then show ?thesis using that n by (simp add: ends_with_take_iff)
  next
    case False
    then have "length q - j < n" using that n by simp
    with assms have "\<not> starts_with d (drop (length q - j) q)" by (simp add: passes_def)
    then show ?thesis using False that by (auto simp: ends_with_take_iff starts_with_iff) (metis append_take_drop_id)
  qed
  have "?k = 0 \<or> (?k \<le> length q \<and> ?k < length d \<and> is_char_boundary d ?k \<and> ends_with q (take ?k d))"
    using longest_spec [of "drop n q" d] ends [of ?k] by auto
  moreover have "\<not> (is_char_boundary d j \<and> ends_with q (take j d))" if "?k < j" "j \<le> length q" "j < length d" for j
    using longest_spec [of "drop n q" d] ends [OF that(2) _ that(3)] that by auto
  ultimately show ?thesis
    unfolding longest_suffix_prefix_len_iff by blast
qed

lemma boundary_within:
  assumes "utf8 q" and "utf8 d" and "0 < k" and "k < length d" and "q = u @ take k d"
  shows "utf8 u \<and> utf8 (take k d) \<and> is_char_boundary d k"
proof -
  obtain c r where d: "take k d = c # r" "d = c # drop 1 d" using assms(3,4) by (cases d; cases k) auto
  have "\<not> is_continuation (byte c)" using utf8_starts [of c "drop 1 d"] assms(2) d(2) by simp
  then have u: "utf8 u" using utf8_before [of u c r] assms(1,5) d(1) by simp
  then have t: "utf8 (take k d)" using assms(1,5) by simp
  then have "utf8 (drop k d)" using utf8_append [OF t, of "drop k d"] assms(2) by simp
  moreover have "drop k d = d ! k # drop (Suc k) d" using assms(4) by (simp add: Cons_nth_drop_Suc)
  ultimately have "\<not> is_continuation (byte (d ! k))" using utf8_starts by simp
  with u t assms(4) show ?thesis by (simp add: is_char_boundary_def)
qed

text \<open>What the parser lets go when it found no delimiter is passed.\<close>

lemma not_found_passes:
  assumes "utf8 q" and "utf8 d" and "str_find q d = None" and "longest_suffix_prefix_len q d \<le> keep"
  shows "passes q d (length q - keep)"
  unfolding passes_def
proof (intro conjI allI impI notI)
  fix j assume j: "j < length q - keep"
  show False if "starts_with (drop j q) d" using that assms(3) j by (auto simp: str_find_None)
  assume s: "starts_with d (drop j q)"
  let ?k = "length q - j"
  have t: "drop j q = take ?k d" "?k \<le> length d" using s by (auto simp: starts_with_iff)
  have "?k \<noteq> length d" using t assms(3) [unfolded str_find_None, rule_format, of j] j
    by (cases "j \<le> length q") auto
  with t(2) have k: "0 < ?k" "?k < length d" "?k \<le> length q" "keep < ?k" using j by auto
  have "q = take j q @ take ?k d" using t(1) by (metis append_take_drop_id)
  from boundary_within [OF assms(1,2) k(1,2) this] have "is_char_boundary d ?k" by simp
  moreover have "length q - ?k = j" using j by simp
  then have "ends_with q (take ?k d)" using t(1) k by (simp add: ends_with_take_iff)
  ultimately show False using longest_spec [of q d] k assms(4) by auto
qed simp

lemma str_find_append:
  assumes "str_find q d = Some i"
  shows "str_find (q @ b) d = Some i" and "i + length d \<le> length q"
proof -
  from assms have i: "i \<le> length q" "starts_with (drop i q) d" "\<And>j. j < i \<Longrightarrow> \<not> starts_with (drop j q) d"
    by (auto simp: str_find_Some)
  from i(1,2) show le: "i + length d \<le> length q"
    by (auto simp: starts_with_iff dest!: arg_cong [where f = length])
  have "\<not> starts_with (drop j q @ b) d" if "j < i" for j
  proof
    assume "starts_with (drop j q @ b) d"
    with i(3) [OF that] starts_with_prefix_of have "starts_with d (drop j q)" by blast
    then have "length q - j \<le> length d" by (auto simp: starts_with_iff)
    with le that show False by simp
  qed
  with i show "str_find (q @ b) d = Some i" by (auto simp: str_find_Some starts_with_iff)
qed

section \<open>The next opening delimiter\<close>

lemma min_by_iff:
  assumes total: "\<And>a b. lt a b \<or> a = b \<or> lt b a" and asym: "\<And>a b. lt a b \<Longrightarrow> \<not> lt b a"
    and trans: "\<And>a b c. lt a b \<Longrightarrow> lt b c \<Longrightarrow> lt a c"
  shows "min_by lt xs = Some m \<longleftrightarrow> m \<in> set xs \<and> (\<forall>x \<in> set xs. x = m \<or> lt m x)"
proof (cases xs)
  case (Cons y ys)
  have "foldl (\<lambda>m x. if lt x m then x else m) y ys = m \<longleftrightarrow> m \<in> set (y # ys) \<and> (\<forall>x \<in> set (y # ys). x = m \<or> lt m x)" for m
  proof (induction ys arbitrary: y)
    case (Cons x ys)
    define z where "z = (if lt x y then x else y)"
    have z: "z = x \<and> (z = y \<or> lt z y) \<or> z = y \<and> (z = x \<or> lt z x)"
      using total [of x y] by (auto simp: z_def)
    have "m \<in> set (z # ys) \<and> (\<forall>x \<in> set (z # ys). x = m \<or> lt m x)
      \<longleftrightarrow> m \<in> set (y # x # ys) \<and> (\<forall>x \<in> set (y # x # ys). x = m \<or> lt m x)" (is "?l \<longleftrightarrow> ?r")
    proof
      assume ?l then show ?r using z trans [of m z] by auto
    next
      assume ?r then show ?l using z asym [of m z] by auto
    qed
    with Cons.IH [of z] show ?case by (simp add: z_def)
  qed auto
  with Cons show ?thesis by (simp add: min_by_def)
qed (simp add: min_by_def)

lemma open_before_order:
  "open_before a b \<or> a = b \<or> open_before b a"
  "open_before a b \<Longrightarrow> \<not> open_before b a"
  "open_before a b \<Longrightarrow> open_before b c \<Longrightarrow> open_before a c"
  by (auto simp: open_before_def split: prod.splits)

lemma set_open_candidates:
  "set (open_candidates specs q) =
    {(i, length (is_open (specs ! k)), k) | i k. k < length specs \<and> str_find q (is_open (specs ! k)) = Some i}"
proof -
  have "set (open_candidates specs q)
    = {x. \<exists>k < length specs. map_option (\<lambda>i. (i, length (is_open (specs ! k)), k)) (str_find q (is_open (specs ! k))) = Some x}"
    unfolding open_candidates_def map_filter_def
    by (force simp: in_set_enumerate_eq image_iff)
  also have "\<dots> = {(i, length (is_open (specs ! k)), k) | i k. k < length specs \<and> str_find q (is_open (specs ! k)) = Some i}"
    by auto
  finally show ?thesis .
qed

lemma find_next_open_Some:
  "find_next_open p = Some (i, k) \<longleftrightarrow>
    k < length (it_specs p) \<and> str_find (it_pending p) (is_open (it_specs p ! k)) = Some i
    \<and> (\<forall>j k'. k' < length (it_specs p) \<longrightarrow> str_find (it_pending p) (is_open (it_specs p ! k')) = Some j
         \<longrightarrow> k' = k \<or> open_before (i, length (is_open (it_specs p ! k)), k) (j, length (is_open (it_specs p ! k')), k'))"
proof -
  have "find_next_open p = Some (i, k)
    \<longleftrightarrow> (\<exists>l. min_by open_before (open_candidates (it_specs p) (it_pending p)) = Some (i, l, k))"
    by (auto simp: find_next_open_def)
  also have "\<dots> \<longleftrightarrow> (\<exists>l. (i, l, k) \<in> set (open_candidates (it_specs p) (it_pending p))
      \<and> (\<forall>x \<in> set (open_candidates (it_specs p) (it_pending p)). x = (i, l, k) \<or> open_before (i, l, k) x))"
    by (subst min_by_iff [of open_before, OF open_before_order]) simp_all
  also have "\<dots> \<longleftrightarrow> k < length (it_specs p) \<and> str_find (it_pending p) (is_open (it_specs p ! k)) = Some i
      \<and> (\<forall>x \<in> set (open_candidates (it_specs p) (it_pending p)).
            x = (i, length (is_open (it_specs p ! k)), k) \<or> open_before (i, length (is_open (it_specs p ! k)), k) x)"
    by (auto simp: set_open_candidates)
  also have "\<dots> \<longleftrightarrow> k < length (it_specs p) \<and> str_find (it_pending p) (is_open (it_specs p ! k)) = Some i
    \<and> (\<forall>j k'. k' < length (it_specs p) \<longrightarrow> str_find (it_pending p) (is_open (it_specs p ! k')) = Some j
         \<longrightarrow> (j, length (is_open (it_specs p ! k')), k') = (i, length (is_open (it_specs p ! k)), k)
            \<or> open_before (i, length (is_open (it_specs p ! k)), k) (j, length (is_open (it_specs p ! k')), k'))"
    unfolding set_open_candidates by blast
  finally show ?thesis by (metis option.inject prod.inject)
qed

lemma find_next_open_None:
  "find_next_open p = None \<longleftrightarrow> (\<forall>spec \<in> set (it_specs p). str_find (it_pending p) (is_open spec) = None)"
proof -
  have "min_by lt xs = None \<longleftrightarrow> set xs = {}" for lt and xs :: "(nat \<times> nat \<times> nat) list"
    by (simp add: min_by_def split: list.splits)
  then have "find_next_open p = None \<longleftrightarrow> set (open_candidates (it_specs p) (it_pending p)) = {}"
    by (simp add: find_next_open_def)
  also have "\<dots> \<longleftrightarrow> (\<forall>k < length (it_specs p). str_find (it_pending p) (is_open (it_specs p ! k)) = None)"
    unfolding set_open_candidates by (auto, metis option.exhaust)
  finally show ?thesis by (simp add: all_set_conv_all_nth)
qed

end
