(* ===== verification/Inline_Streams.thy ===== *)
theory Inline_Streams
  imports Inline_Tags
begin

text \<open>What the parser of hidden inline tags promises: it always returns, and what it shows and
  extracts does not depend on how its input is cut.  The citation parser is the instance the
  program uses.\<close>

section \<open>Delimiters\<close>

text \<open>The delimiters of an accepted parser are not empty.\<close>

definition spec_ok :: "'t inline_tag_spec \<Rightarrow> bool" where
  "spec_ok spec \<longleftrightarrow> is_open spec \<noteq> [] \<and> is_close spec \<noteq> [] \<and> utf8 (is_open spec) \<and> utf8 (is_close spec)"

definition specs_ok :: "'t inline_tag_spec list \<Rightarrow> bool" where
  "specs_ok specs \<longleftrightarrow> specs \<noteq> [] \<and> list_all spec_ok specs"

text \<open>No opening delimiter occurs in another one before its end.  Otherwise a cut in the longer
  delimiter would let the shorter one be found first.\<close>

definition unnested :: "'t inline_tag_spec list \<Rightarrow> bool" where
  "unnested specs \<longleftrightarrow> (\<forall>a \<in> set specs. \<forall>b \<in> set specs. \<not> str_contains (butlast (is_open a)) (is_open b))"

definition parser_ok :: "'t inline_hidden_tag_parser \<Rightarrow> bool" where
  "parser_ok p \<longleftrightarrow> specs_ok (it_specs p) \<and> utf8 (it_pending p)
    \<and> (case it_active p of
         Some a \<Rightarrow> ac_close a \<noteq> [] \<and> utf8 (ac_close a) \<and> utf8 (ac_content a)
       | None \<Rightarrow> True)"

text \<open>Between pushes a parser holds back no more than it must.\<close>

definition settled :: "'t inline_hidden_tag_parser \<Rightarrow> bool" where
  "settled p \<longleftrightarrow>
    (case it_active p of
       Some a \<Rightarrow> str_find (it_pending p) (ac_close a) = None
         \<and> longest_suffix_prefix_len (it_pending p) (ac_close a) = length (it_pending p)
     | None \<Rightarrow> find_next_open p = None \<and> max_open_prefix_suffix_len p = length (it_pending p))"

lemma spec_okD: "specs_ok specs \<Longrightarrow> spec \<in> set specs \<Longrightarrow> spec_ok spec"
  by (simp add: specs_ok_def list_all_iff)

section \<open>Searching in longer input\<close>

lemma find_utf8:
  assumes "utf8 q" and "utf8 d" and "d \<noteq> []" and "str_find q d = Some i"
  shows "utf8 (take i q)" and "utf8 (drop (i + length d) q)" and "length (drop (i + length d) q) < length q"
proof -
  obtain r where r: "drop i q = d @ r" using assms(4) by (auto simp: str_find_Some starts_with_iff)
  have q: "q = take i q @ d @ r" using r by (metis append_take_drop_id)
  obtain c d' where d: "d = c # d'" using assms(3) by (cases d) auto
  then show u: "utf8 (take i q)"
    using utf8_before [of "take i q" c "d' @ r"] utf8_starts [of c d'] assms(1,2) q by simp
  have "utf8 (d @ r)" using utf8_append [OF u, of "d @ r"] assms(1) q by simp
  then have "utf8 r" using assms(2) by simp
  moreover have "drop (i + length d) q = r" using r by (metis add.commute append_eq_conv_conj drop_drop)
  ultimately show "utf8 (drop (i + length d) q)" by simp
  show "length (drop (i + length d) q) < length q"
    using str_find_append(2) [OF assms(4)] assms(3) by (cases d) auto
qed

lemma keep_utf8:
  assumes "utf8 q" and "utf8 d" and "k = longest_suffix_prefix_len q d"
  shows "k \<le> length q" and "utf8 (take (length q - k) q)" and "utf8 (drop (length q - k) q)"
proof -
  have k: "k = 0 \<or> (k \<le> length q \<and> k < length d \<and> is_char_boundary d k \<and> ends_with q (take k d))"
    using longest_spec [of q d] assms(3) by blast
  then show "k \<le> length q" by auto
  have "utf8 (take (length q - k) q) \<and> utf8 (drop (length q - k) q)"
  proof (cases "k = 0")
    case False
    with k have e: "drop (length q - k) q = take k d" "0 < k" "k < length d" by (auto simp: ends_with_take_iff)
    then have "q = take (length q - k) q @ take k d" by (metis append_take_drop_id)
    with boundary_within [OF assms(1,2) e(2,3)] e(1) show ?thesis by simp
  qed (use assms(1) in simp)
  then show "utf8 (take (length q - k) q)" "utf8 (drop (length q - k) q)" by auto
qed

lemma find_next_open_append:
  assumes "unnested (it_specs p)" and "find_next_open p = Some (i, k)"
  shows "find_next_open (p\<lparr>it_pending := it_pending p @ b\<rparr>) = Some (i, k)"
proof -
  let ?q = "it_pending p" and ?o = "\<lambda>k. is_open (it_specs p ! k)"
  from assms(2) have k: "k < length (it_specs p)" "str_find ?q (?o k) = Some i"
    and least: "\<And>j k'. k' < length (it_specs p) \<Longrightarrow> str_find ?q (?o k') = Some j
         \<Longrightarrow> k' = k \<or> open_before (i, length (?o k), k) (j, length (?o k'), k')"
    by (auto simp: find_next_open_Some)
  have "k' = k \<or> open_before (i, length (?o k), k) (j, length (?o k'), k')"
    if k': "k' < length (it_specs p)" and j: "str_find (?q @ b) (?o k') = Some j" for j k'
  proof (cases "str_find ?q (?o k')")
    case (Some j')
    then show ?thesis using str_find_append(1) [OF Some, of b] j least [OF k'] by simp
  next
    case None
    have "i < j"
    proof (rule ccontr)
      assume "\<not> i < j"
      then have ji: "j \<le> i" by simp
      obtain r where r: "drop j (?q @ b) = ?o k' @ r" using j by (auto simp: str_find_Some starts_with_iff)
      obtain r' where r': "drop i ?q = ?o k @ r'" using k(2) by (auto simp: str_find_Some starts_with_iff)
      have ik: "i + length (?o k) \<le> length ?q" using str_find_append(2) [OF k(2)] .
      have "length ?q < j + length (?o k')"
      proof (rule ccontr)
        assume le: "\<not> length ?q < j + length (?o k')"
        have "starts_with (drop j ?q @ b) (?o k')" using r ji ik by (simp add: starts_with_iff)
        then have "starts_with (drop j ?q) (?o k')" using starts_with_short [of "drop j ?q" b "?o k'"] le by simp
        then show False using None ji ik by (simp add: str_find_None)
      qed
      then have m: "i - j + length (?o k) \<le> length (?o k') - 1" using ik ji by simp
      have "take (length (?o k)) (drop (i - j) (butlast (?o k'))) = take (length (?o k)) (drop (i - j) (?o k'))"
        using m by (simp add: butlast_conv_take drop_take)
      also have "\<dots> = take (length (?o k)) (drop (i - j) (drop j (?q @ b)))"
        using m unfolding r by simp
      also have "\<dots> = take (length (?o k)) (drop i ?q @ b)" using ji ik by simp
      also have "\<dots> = ?o k" by (simp add: r')
      finally have "str_contains (butlast (?o k')) (?o k)"
        unfolding str_contains_iff by (metis append_take_drop_id)
      then show False using assms(1) k(1) k' by (auto simp: unnested_def)
    qed
    then show ?thesis by (simp add: open_before_def)
  qed
  with k str_find_append(1) [OF k(2), of b] show ?thesis by (auto simp: find_next_open_Some)
qed

lemma find_next_open_passes:
  assumes "\<forall>spec \<in> set (it_specs p). passes q (is_open spec) n"
  shows "find_next_open (p\<lparr>it_pending := q\<rparr>) = map_option (apfst ((+) n)) (find_next_open (p\<lparr>it_pending := drop n q\<rparr>))"
proof -
  let ?o = "\<lambda>k. is_open (it_specs p ! k)"
  have f: "str_find q (is_open spec) = map_option ((+) n) (str_find (drop n q) (is_open spec))"
    if "spec \<in> set (it_specs p)" for spec
    using assms that by (intro passes_find) blast
  show ?thesis
  proof (cases "find_next_open (p\<lparr>it_pending := drop n q\<rparr>)")
    case None
    then have "find_next_open (p\<lparr>it_pending := q\<rparr>) = None" using f by (simp add: find_next_open_None)
    with None show ?thesis by simp
  next
    case (Some ik)
    obtain i k where ik: "ik = (i, k)" by (cases ik)
    with Some have k: "k < length (it_specs p)" "str_find (drop n q) (?o k) = Some i"
      and least: "\<And>j k'. k' < length (it_specs p) \<Longrightarrow> str_find (drop n q) (?o k') = Some j
           \<Longrightarrow> k' = k \<or> open_before (i, length (?o k), k) (j, length (?o k'), k')"
      by (auto simp: find_next_open_Some)
    have "k' = k \<or> open_before (n + i, length (?o k), k) (j, length (?o k'), k')"
      if k': "k' < length (it_specs p)" and j: "str_find q (?o k') = Some j" for j k'
    proof -
      obtain j' where "str_find (drop n q) (?o k') = Some j'" "j = n + j'"
        using f [of "it_specs p ! k'"] k' j by (cases "str_find (drop n q) (?o k')") auto
      with least [OF k'] show ?thesis by (auto simp: open_before_def)
    qed
    then have "find_next_open (p\<lparr>it_pending := q\<rparr>) = Some (n + i, k)"
      using k f [of "it_specs p ! k"] by (simp add: find_next_open_Some)
    with Some ik show ?thesis by simp
  qed
qed

lemma foldl_max_ge: "(a :: nat) \<le> foldl max a xs"
proof (induction xs arbitrary: a)
  case (Cons y xs)
  have "a \<le> max a y" by simp
  also have "\<dots> \<le> foldl max (max a y) xs" by (rule Cons.IH)
  finally show ?case by simp
qed simp

lemma foldl_max_in_ge: "(x :: nat) \<in> set xs \<Longrightarrow> x \<le> foldl max a xs"
proof (induction xs arbitrary: a)
  case (Cons y xs)
  then show ?case using foldl_max_ge [of "max a y" xs] by auto
qed simp

lemma foldl_max_in: "foldl max (a :: nat) xs = a \<or> foldl max a xs \<in> set xs"
proof (induction xs arbitrary: a)
  case (Cons y xs)
  then show ?case using Cons.IH [of "max a y"] by (auto simp: max_def)
qed simp

lemma max_open_ge:
  "spec \<in> set (it_specs p) \<Longrightarrow> longest_suffix_prefix_len (it_pending p) (is_open spec) \<le> max_open_prefix_suffix_len p"
  by (simp add: max_open_prefix_suffix_len_def foldl_max_in_ge)

lemma max_open_cases:
  "max_open_prefix_suffix_len p = 0
    \<or> (\<exists>spec \<in> set (it_specs p). max_open_prefix_suffix_len p = longest_suffix_prefix_len (it_pending p) (is_open spec))"
  using foldl_max_in [of 0 "map (\<lambda>spec. longest_suffix_prefix_len (it_pending p) (is_open spec)) (it_specs p)"]
  by (auto simp: max_open_prefix_suffix_len_def)

lemma max_open_passes:
  assumes "\<forall>spec \<in> set (it_specs p). passes q (is_open spec) n"
  shows "max_open_prefix_suffix_len (p\<lparr>it_pending := q\<rparr>) = max_open_prefix_suffix_len (p\<lparr>it_pending := drop n q\<rparr>)"
proof -
  have "longest_suffix_prefix_len q (is_open spec) = longest_suffix_prefix_len (drop n q) (is_open spec)"
    if "spec \<in> set (it_specs p)" for spec
    using assms that by (intro passes_longest) blast
  then have "map (\<lambda>spec. longest_suffix_prefix_len q (is_open spec)) (it_specs p)
    = map (\<lambda>spec. longest_suffix_prefix_len (drop n q) (is_open spec)) (it_specs p)" by simp
  then show ?thesis by (simp add: max_open_prefix_suffix_len_def del: map_eq_conv)
qed

section \<open>The loop\<close>

lemma push_visible_prefix_eq: "push_visible_prefix out s = append_chunk out \<lparr>visible_text = s, extracted = []\<rparr>"
  by (simp add: push_visible_prefix_def append_chunk_def)

lemma close_tag_eq:
  "close_tag a s out = append_chunk out \<lparr>visible_text = [], extracted = [\<lparr>ei_tag = ac_tag a, ei_content = ac_content a @ s\<rparr>]\<rparr>"
  by (simp add: close_tag_def append_chunk_def)

lemma drain_content_eq:
  "it_active p = Some a \<Longrightarrow> n = length (it_pending p) - longest_suffix_prefix_len (it_pending p) (ac_close a)
    \<Longrightarrow> drain_content p a = p\<lparr>it_pending := drop n (it_pending p),
          it_active := Some (a\<lparr>ac_content := ac_content a @ take n (it_pending p)\<rparr>)\<rparr>"
  by (simp add: drain_content_def Let_def)

lemma drain_visible_eq:
  "n = length (it_pending p) - k
    \<Longrightarrow> drain_visible_to_suffix_match p out k = (p\<lparr>it_pending := drop n (it_pending p)\<rparr>, push_visible_prefix out (take n (it_pending p)))"
  by (simp add: drain_visible_to_suffix_match_def Let_def push_visible_prefix_def)

lemma parser_update_order: "p\<lparr>it_active := a, it_pending := q\<rparr> = p\<lparr>it_pending := q, it_active := a\<rparr>"
  by simp

lemma loop_close:
  "it_active p = Some a \<Longrightarrow> str_find (it_pending p) (ac_close a) = Some i
    \<Longrightarrow> push_loop p out = push_loop (p\<lparr>it_pending := drop (i + length (ac_close a)) (it_pending p), it_active := None\<rparr>)
          (close_tag a (take i (it_pending p)) out)"
  by (subst push_loop.simps) (simp only: parser_update_order option.case)

lemma loop_content:
  "it_active p = Some a \<Longrightarrow> str_find (it_pending p) (ac_close a) = None
    \<Longrightarrow> push_loop p out = Some (drain_content p a, out)"
  by (subst push_loop.simps) simp

lemma loop_open:
  "it_active p = None \<Longrightarrow> find_next_open p = Some (i, k)
    \<Longrightarrow> push_loop p out = push_loop (p\<lparr>it_pending := drop (i + length (is_open (it_specs p ! k))) (it_pending p),
            it_active := Some (open_tag (it_specs p ! k))\<rparr>)
          (push_visible_prefix out (take i (it_pending p)))"
  by (subst push_loop.simps) simp

lemma loop_visible:
  "it_active p = None \<Longrightarrow> find_next_open p = None
    \<Longrightarrow> push_loop p out = Some (drain_visible_to_suffix_match p out (max_open_prefix_suffix_len p))"
  by (subst push_loop.simps) simp

lemma content_passes:
  assumes "parser_ok p" and "it_active p = Some a" and "str_find (it_pending p) (ac_close a) = None"
  shows "passes (it_pending p) (ac_close a)
    (length (it_pending p) - longest_suffix_prefix_len (it_pending p) (ac_close a))"
  using assms by (intro not_found_passes) (auto simp: parser_ok_def)

lemma visible_passes:
  assumes "parser_ok p" and "find_next_open p = None"
  shows "\<forall>spec \<in> set (it_specs p). passes (it_pending p) (is_open spec) (length (it_pending p) - max_open_prefix_suffix_len p)"
proof
  fix spec assume "spec \<in> set (it_specs p)"
  then show "passes (it_pending p) (is_open spec) (length (it_pending p) - max_open_prefix_suffix_len p)"
    using assms max_open_ge [of spec p] spec_okD [of "it_specs p" spec]
    by (intro not_found_passes) (auto simp: parser_ok_def find_next_open_None spec_ok_def)
qed

lemma max_open_utf8:
  assumes "parser_ok p" and "k = max_open_prefix_suffix_len p"
  shows "k \<le> length (it_pending p)" and "utf8 (take (length (it_pending p) - k) (it_pending p))"
    and "utf8 (drop (length (it_pending p) - k) (it_pending p))"
proof -
  have "k \<le> length (it_pending p) \<and> utf8 (take (length (it_pending p) - k) (it_pending p))
    \<and> utf8 (drop (length (it_pending p) - k) (it_pending p))"
  proof (cases "k = 0")
    case False
    with assms max_open_cases [of p] obtain spec where spec: "spec \<in> set (it_specs p)"
      "k = longest_suffix_prefix_len (it_pending p) (is_open spec)" by auto
    with assms(1) keep_utf8 [OF _ _ spec(2)] spec_okD [of "it_specs p" spec] show ?thesis
      by (simp add: parser_ok_def spec_ok_def)
  qed (use assms(1) in \<open>simp add: parser_ok_def\<close>)
  then show "k \<le> length (it_pending p)" "utf8 (take (length (it_pending p) - k) (it_pending p))"
    "utf8 (drop (length (it_pending p) - k) (it_pending p))" by auto
qed

text \<open>With delimiters that are not empty, a round of the loop shortens the input or settles the parser.\<close>

definition goes_on :: "'t inline_hidden_tag_parser \<Rightarrow> 't inline_hidden_tag_parser \<Rightarrow> 't inline_chunk \<Rightarrow> bool" where
  "goes_on p p1 c \<longleftrightarrow> parser_ok p1 \<and> it_specs p1 = it_specs p \<and> utf8 (visible_text c)
    \<and> (\<forall>e \<in> set (extracted c). utf8 (ei_content e))"

lemma active_round:
  assumes "parser_ok p" and "it_active p = Some a"
  shows "\<exists>p1 c. goes_on p p1 c \<and>
    ((\<forall>out. push_loop p out = push_loop p1 (append_chunk out c)) \<and> length (it_pending p1) < length (it_pending p)
     \<or> (\<forall>out. push_loop p out = Some (p1, append_chunk out c)) \<and> settled p1)"
proof -
  let ?q = "it_pending p"
  from assms have a: "utf8 (ac_close a)" "ac_close a \<noteq> []" "utf8 ?q" "specs_ok (it_specs p)" "utf8 (ac_content a)"
    by (auto simp: parser_ok_def)
  show ?thesis
  proof (cases "str_find ?q (ac_close a)")
    case (Some i)
    with find_utf8 [OF a(3,1,2)] loop_close [OF assms(2)] a(4,5) show ?thesis
      by (intro exI [of _ "p\<lparr>it_pending := drop (i + length (ac_close a)) ?q, it_active := None\<rparr>"]
            exI [of _ "close_tag a (take i ?q) default_chunk"])
         (simp add: goes_on_def parser_ok_def close_tag_eq)
  next
    case None
    let ?n = "length ?q - longest_suffix_prefix_len ?q (ac_close a)"
    note passed = content_passes [OF assms None]
    have "str_find (drop ?n ?q) (ac_close a) = None" using passes_find [OF passed] None by simp
    moreover have "longest_suffix_prefix_len (drop ?n ?q) (ac_close a) = length (drop ?n ?q)"
      using passes_longest [OF passed] keep_utf8(1) [OF a(3,1) refl] by simp
    ultimately show ?thesis
      using loop_content [OF assms(2) None] drain_content_eq [OF assms(2) refl] keep_utf8 [OF a(3,1) refl] a
      by (intro exI [of _ "drain_content p a"] exI [of _ default_chunk]) (simp add: goes_on_def parser_ok_def settled_def)
  qed
qed

lemma visible_round:
  assumes "parser_ok p" and "it_active p = None"
  shows "\<exists>p1 c. goes_on p p1 c \<and>
    ((\<forall>out. push_loop p out = push_loop p1 (append_chunk out c)) \<and> length (it_pending p1) < length (it_pending p)
     \<or> (\<forall>out. push_loop p out = Some (p1, append_chunk out c)) \<and> settled p1)"
proof -
  let ?q = "it_pending p"
  from assms(1) have q: "utf8 ?q" "specs_ok (it_specs p)" by (auto simp: parser_ok_def)
  show ?thesis
  proof (cases "find_next_open p")
    case (Some ik)
    obtain i k where ik: "find_next_open p = Some (i, k)" using Some by (cases ik) auto
    let ?spec = "it_specs p ! k"
    from ik have k: "str_find ?q (is_open ?spec) = Some i" "spec_ok ?spec" using q(2) by (auto simp: find_next_open_Some intro: spec_okD)
    then have o: "utf8 (is_open ?spec)" "is_open ?spec \<noteq> []" by (auto simp: spec_ok_def)
    from find_utf8 [OF q(1) o k(1)] loop_open [OF assms(2) ik] q(2) k(2) show ?thesis
      by (intro exI [of _ "p\<lparr>it_pending := drop (i + length (is_open ?spec)) ?q, it_active := Some (open_tag ?spec)\<rparr>"]
            exI [of _ "push_visible_prefix default_chunk (take i ?q)"])
         (simp add: goes_on_def parser_ok_def open_tag_def spec_ok_def push_visible_prefix_eq)
  next
    case None
    define n where "n = length ?q - max_open_prefix_suffix_len p"
    let ?p = "p\<lparr>it_pending := drop n ?q\<rparr>"
    note passed = visible_passes [OF assms(1) None, folded n_def]
    have "find_next_open ?p = None" using find_next_open_passes [OF passed] None by simp
    moreover have "max_open_prefix_suffix_len ?p = length (drop n ?q)"
      using max_open_passes [OF passed] max_open_utf8(1) [OF assms(1) refl] by (simp add: n_def)
    ultimately show ?thesis
      using loop_visible [OF assms(2) None] drain_visible_eq [OF n_def] max_open_utf8(2,3) [OF assms(1) refl] q assms(2)
      by (intro exI [of _ ?p] exI [of _ "\<lparr>visible_text = take n ?q, extracted = []\<rparr>"])
         (simp add: goes_on_def parser_ok_def settled_def push_visible_prefix_eq n_def)
  qed
qed

lemma push_loop_returns:
  assumes "parser_ok p"
  shows "\<exists>p1 c. (\<forall>out. push_loop p out = Some (p1, append_chunk out c)) \<and> goes_on p p1 c \<and> settled p1"
  using assms
proof (induction "length (it_pending p)" arbitrary: p rule: less_induct)
  case less
  obtain p1 c where "goes_on p p1 c"
    and round: "(\<forall>out. push_loop p out = push_loop p1 (append_chunk out c)) \<and> length (it_pending p1) < length (it_pending p)
     \<or> (\<forall>out. push_loop p out = Some (p1, append_chunk out c)) \<and> settled p1"
    using active_round [OF less.prems] visible_round [OF less.prems] by (cases "it_active p") blast+
  from round show ?case
  proof
    assume more: "(\<forall>out. push_loop p out = push_loop p1 (append_chunk out c)) \<and> length (it_pending p1) < length (it_pending p)"
    with \<open>goes_on p p1 c\<close> less.hyps obtain p2 d where
      "\<forall>out. push_loop p1 out = Some (p2, append_chunk out d)" "goes_on p1 p2 d" "settled p2"
      unfolding goes_on_def by blast
    with more \<open>goes_on p p1 c\<close> show ?thesis
      by (intro exI [of _ p2] exI [of _ "append_chunk c d"]) (auto simp: goes_on_def append_chunk_assoc)
  qed (use \<open>goes_on p p1 c\<close> in blast)
qed

section \<open>More input\<close>

lemma content_more:
  assumes "parser_ok p" and "it_active p = Some a" and "str_find (it_pending p) (ac_close a) = None"
  shows "push_loop (p\<lparr>it_pending := it_pending p @ b\<rparr>) out
    = push_loop ((drain_content p a)\<lparr>it_pending := it_pending (drain_content p a) @ b\<rparr>) out"
proof -
  define q x d n where "q = it_pending p" and "x = it_pending p @ b" and "d = ac_close a"
    and "n = length q - longest_suffix_prefix_len q d"
  define r where "r = drop n x"
  have passed: "passes x d n"
    using content_passes [OF assms] by (simp add: q_def x_def d_def n_def passes_append)
  have n: "n \<le> length x" "take n x = take n q" "r = drop n q @ b" by (simp_all add: n_def r_def x_def q_def)
  let ?a = "a\<lparr>ac_content := ac_content a @ take n x\<rparr>"
  let ?p = "p\<lparr>it_pending := x\<rparr>" and ?d = "p\<lparr>it_pending := r, it_active := Some ?a\<rparr>"
  have drained: "(drain_content p a)\<lparr>it_pending := it_pending (drain_content p a) @ b\<rparr> = ?d"
    using drain_content_eq [OF assms(2) refl] n(2,3) by (simp add: q_def d_def n_def)
  have active: "it_active ?p = Some a" "it_active ?d = Some ?a" using assms(2) by simp_all
  have found: "str_find x d = map_option ((+) n) (str_find r d)"
    and kept: "longest_suffix_prefix_len x d = longest_suffix_prefix_len r d"
    using passes_find [OF passed] passes_longest [OF passed] by (simp_all add: r_def)
  have "push_loop ?p out = push_loop ?d out"
  proof (cases "str_find r d")
    case (Some i)
    have "take (n + i) x = take n x @ take i r" by (simp add: r_def take_add)
    moreover have "drop (n + i + length d) x = drop (i + length d) r" by (simp add: r_def ac_simps)
    ultimately show ?thesis
      using loop_close [OF active(1), of "n + i" out] loop_close [OF active(2), of i out] Some found
      by (simp add: d_def close_tag_def)
  next
    case None
    note shift = drop_take_shift [OF n(1) longest_le [of "drop n x" d], folded r_def]
    have "drain_content ?p a = drain_content ?d ?a"
      using drain_content_eq [OF active(1) refl] drain_content_eq [OF active(2) refl] kept shift by (simp add: d_def)
    then show ?thesis
      using loop_content [OF active(1), of out] loop_content [OF active(2), of out] None found by (simp add: d_def)
  qed
  then show ?thesis unfolding drained by (simp only: x_def)
qed

lemma visible_more:
  assumes "parser_ok p" and "it_active p = None" and "find_next_open p = None" and "push_loop p out = Some (p1, out1)"
  shows "push_loop (p\<lparr>it_pending := it_pending p @ b\<rparr>) out = push_loop (p1\<lparr>it_pending := it_pending p1 @ b\<rparr>) out1"
proof -
  define q x n where "q = it_pending p" and "x = it_pending p @ b" and "n = length q - max_open_prefix_suffix_len p"
  define r where "r = drop n x"
  have passed: "\<forall>spec \<in> set (it_specs p). passes x (is_open spec) n"
    using visible_passes [OF assms(1,3)] by (simp add: q_def x_def n_def passes_append)
  have n: "n \<le> length x" "take n x = take n q" "r = drop n q @ b" by (simp_all add: n_def r_def x_def q_def)
  let ?p = "p\<lparr>it_pending := x\<rparr>" and ?d = "p\<lparr>it_pending := r\<rparr>"
  have p1: "p1\<lparr>it_pending := it_pending p1 @ b\<rparr> = ?d" "out1 = push_visible_prefix out (take n x)"
    using assms(4) loop_visible [OF assms(2,3), of out] drain_visible_eq [OF n_def [unfolded q_def]] n(2,3) by (auto simp: q_def)
  have active: "it_active ?p = None" "it_active ?d = None" using assms(2) by simp_all
  have found: "find_next_open ?p = map_option (apfst ((+) n)) (find_next_open ?d)"
    and kept: "max_open_prefix_suffix_len ?p = max_open_prefix_suffix_len ?d"
    using find_next_open_passes [OF passed] max_open_passes [OF passed] by (simp_all add: r_def)
  have "push_loop ?p out = push_loop ?d out1"
  proof (cases "find_next_open ?d")
    case (Some ik)
    obtain i k where ik: "ik = (i, k)" by (cases ik)
    have "take (n + i) x = take n x @ take i r" by (simp add: r_def take_add)
    moreover have "drop (n + i + l) x = drop (i + l) r" for l by (simp add: r_def ac_simps)
    ultimately show ?thesis
      using loop_open [OF active(1), of "n + i" k out] loop_open [OF active(2), of i k out1] Some ik found
      by (simp add: p1(2) push_visible_prefix_def)
  next
    case None
    have "max_open_prefix_suffix_len ?d \<le> length (drop n x)"
      using max_open_cases [of ?d] longest_le [of r] by (auto simp: r_def)
    note shift = drop_take_shift [OF n(1) this, folded r_def]
    then show ?thesis
      using loop_visible [OF active(1), of out] loop_visible [OF active(2), of out1] None found kept
      by (simp add: drain_visible_eq [OF refl] push_visible_prefix_def p1(2))
  qed
  then show ?thesis unfolding p1(1) by (simp only: x_def)
qed

text \<open>A push of a concatenation goes through what the first push leaves.\<close>

lemma push_loop_append:
  assumes "parser_ok p" and "unnested (it_specs p)" and "push_loop p out = Some (p1, out1)"
  shows "push_loop (p\<lparr>it_pending := it_pending p @ b\<rparr>) out = push_loop (p1\<lparr>it_pending := it_pending p1 @ b\<rparr>) out1"
  using assms
proof (induction "length (it_pending p)" arbitrary: p out rule: less_induct)
  case less
  let ?q = "it_pending p"
  show ?case
  proof (cases "it_active p")
    case (Some a)
    show ?thesis
    proof (cases "str_find ?q (ac_close a)")
      case found: (Some i)
      let ?p = "p\<lparr>it_pending := drop (i + length (ac_close a)) ?q, it_active := None\<rparr>"
      have "parser_ok ?p" "length (it_pending ?p) < length ?q"
        using less.prems(1) Some found find_utf8 [OF _ _ _ found] by (auto simp: parser_ok_def)
      with less.hyps [of ?p "close_tag a (take i ?q) out"] less.prems(2,3) loop_close [OF Some found]
        loop_close [of "p\<lparr>it_pending := ?q @ b\<rparr>" a i out] str_find_append [OF found] Some
      show ?thesis by (simp add: parser_update_order)
    next
      case None
      then show ?thesis
        using less.prems(1,3) content_more [OF less.prems(1) Some None] loop_content [OF Some None, of out] by auto
    qed
  next
    case active: None
    show ?thesis
    proof (cases "find_next_open p")
      case (Some ik)
      obtain i k where ik: "find_next_open p = Some (i, k)" using Some by (cases ik) auto
      let ?spec = "it_specs p ! k"
      let ?p = "p\<lparr>it_pending := drop (i + length (is_open ?spec)) ?q, it_active := Some (open_tag ?spec)\<rparr>"
      from ik have k: "str_find ?q (is_open ?spec) = Some i" "spec_ok ?spec" "specs_ok (it_specs p)" "utf8 ?q"
        using less.prems(1) by (auto simp: find_next_open_Some parser_ok_def intro: spec_okD)
      have "parser_ok ?p" "length (it_pending ?p) < length ?q"
        using k find_utf8 [OF k(4) _ _ k(1)] by (auto simp: parser_ok_def open_tag_def spec_ok_def)
      with less.hyps [of ?p "push_visible_prefix out (take i ?q)"] less.prems(2,3) loop_open [OF active ik]
        loop_open [of "p\<lparr>it_pending := ?q @ b\<rparr>" i k out] find_next_open_append [OF less.prems(2) ik, of b] str_find_append(2) [OF k(1)] active
      show ?thesis by (simp add: parser_update_order)
    qed (use less.prems(1,3) active visible_more in blast)
  qed
qed

section \<open>The contract\<close>

definition inline_ok :: "'t inline_hidden_tag_parser \<Rightarrow> bool" where
  "inline_ok p \<longleftrightarrow> parser_ok p \<and> settled p \<and> unnested (it_specs p)"

lemma push_str_ok: "parser_ok p \<Longrightarrow> utf8 a \<Longrightarrow> parser_ok (p\<lparr>it_pending := it_pending p @ a\<rparr>)"
  by (simp add: parser_ok_def)

lemma inline_push_returns:
  assumes "parser_ok p" and "utf8 a"
  shows "\<exists>p1 c. inline_push_str p a = Some (p1, c) \<and> goes_on p p1 c \<and> settled p1"
  using push_loop_returns [OF push_str_ok [OF assms]] by (fastforce simp: inline_push_str_def goes_on_def)

lemma inline_push_append:
  assumes "parser_ok p" and "unnested (it_specs p)" and "utf8 a" and "inline_push_str p a = Some (p1, c1)"
    and "inline_push_str p1 b = Some (p2, c2)" and "utf8 b"
  shows "inline_push_str p (a @ b) = Some (p2, append_chunk c1 c2)"
proof -
  obtain q c where first: "\<forall>out. push_loop (p\<lparr>it_pending := it_pending p @ a\<rparr>) out = Some (q, append_chunk out c)" "parser_ok q"
    using push_loop_returns [OF push_str_ok [OF assms(1,3)]] by (auto simp: goes_on_def)
  with assms(4) have q: "q = p1" "c = c1" by (auto simp: inline_push_str_def)
  obtain r d where "\<forall>out. push_loop (p1\<lparr>it_pending := it_pending p1 @ b\<rparr>) out = Some (r, append_chunk out d)"
    using push_loop_returns [OF push_str_ok [OF first(2) assms(6)]] q(1) by blast
  moreover from this assms(5) have "r = p2" "d = c2" by (auto simp: inline_push_str_def)
  moreover have "inline_push_str p (a @ b) = push_loop (p1\<lparr>it_pending := it_pending p1 @ b\<rparr>) c1"
    using push_loop_append [OF push_str_ok [OF assms(1,3)], of default_chunk p1 c1 b] assms(2) first(1) q
    by (simp add: inline_push_str_def)
  ultimately show ?thesis by simp
qed

lemma inline_push_Nil:
  assumes "settled p"
  shows "inline_push_str p [] = Some (p, default_chunk)"
proof (cases "it_active p")
  case (Some a)
  with assms show ?thesis
    using loop_content [OF Some] by (simp add: inline_push_str_def settled_def drain_content_def)
next
  case None
  with assms show ?thesis
    using loop_visible [OF None] by (simp add: inline_push_str_def settled_def drain_visible_to_suffix_match_def)
qed

interpretation inline: stream_text_parser inline_push_str inline_finish inline_ok "\<lambda>xs. xs"
proof
  fix s :: "'t inline_hidden_tag_parser" and a b s1 c1 s2 c2
  show "\<exists>s1 c. inline_push_str s a = Some (s1, c) \<and> inline_ok s1" if "inline_ok s" "utf8 a"
    using inline_push_returns [of s a] that by (auto simp: inline_ok_def goes_on_def)
  show "\<exists>c. inline_push_str s (a @ b) = Some (s2, c) \<and> visible_text c = visible_text c1 @ visible_text c2
      \<and> extracted c = extracted c1 @ extracted c2"
    if "inline_ok s" "utf8 a" "utf8 b" "inline_push_str s a = Some (s1, c1)" "inline_push_str s1 b = Some (s2, c2)"
    using inline_push_append [of s a s1 c1 b s2 c2] that by (auto simp: inline_ok_def)
  show "inline_push_str s [] = Some (s, default_chunk)" if "inline_ok s"
    using inline_push_Nil [of s] that by (simp add: inline_ok_def)
qed simp_all

interpretation citations: stream_text_parser citation_push_str citation_finish inline_ok "\<lambda>xs. xs"
proof
  fix s :: citation_stream_parser and a b s1 c1 s2 c2
  show "\<exists>s1 c. citation_push_str s a = Some (s1, c) \<and> inline_ok s1" if "inline_ok s" "utf8 a"
    using inline.push_str_returns [OF that] by (auto simp: citation_push_str_def)
  show "\<exists>c. citation_push_str s (a @ b) = Some (s2, c) \<and> visible_text c = visible_text c1 @ visible_text c2
      \<and> extracted c = extracted c1 @ extracted c2"
    if "inline_ok s" "utf8 a" "utf8 b" "citation_push_str s a = Some (s1, c1)" "citation_push_str s1 b = Some (s2, c2)"
    using inline.push_str_append [OF that(1-3)] that(4,5) by (fastforce simp: citation_push_str_def tag_contents_def)
  show "citation_push_str s [] = Some (s, default_chunk)" if "inline_ok s"
    using inline.push_str_Nil [OF that] by (simp add: citation_push_str_def tag_contents_def default_chunk_def)
qed simp_all

lemma inline_new_ok:
  assumes "inline_hidden_tag_parser_new specs = Some p" and "\<forall>spec \<in> set specs. utf8 (is_open spec) \<and> utf8 (is_close spec)"
  shows "parser_ok p" and "settled p" and "it_specs p = specs"
proof -
  have p: "p = \<lparr>it_specs = specs, it_pending = [], it_active = None\<rparr>" "specs_ok specs"
    using assms by (auto simp: inline_hidden_tag_parser_new_def specs_ok_def spec_ok_def list_all_iff split: if_splits)
  then show "parser_ok p" "it_specs p = specs" by (simp_all add: parser_ok_def)
  have "longest_suffix_prefix_len [] d = 0" for d using longest_le [of "[]" d] by simp
  moreover have "is_open spec \<noteq> []" if "spec \<in> set specs" for spec using p(2) that by (auto simp: specs_ok_def spec_ok_def list_all_iff)
  ultimately show "settled p"
    using max_open_cases [of p] p(1) by (auto simp: settled_def find_next_open_None)
qed

end
