(* ===== verification/Citation_Streams.thy ===== *)
theory Citation_Streams
  imports Inline_Streams
begin

text \<open>The properties of the parser of hidden inline tags, and what the citation parser computes: a
  division of the text at the first opening and the next closing delimiter, again and again.\<close>

section \<open>Any delimiters\<close>

lemma push_all_returns:
  assumes "parser_ok p" and "settled p" and "\<forall>a \<in> set as. utf8 a"
  shows "\<exists>p1 c. push_all inline_push_str p as = Some (p1, c) \<and> goes_on p p1 c \<and> settled p1"
  using assms
proof (induction as arbitrary: p)
  case Nil
  then show ?case by (auto simp: goes_on_def)
next
  case (Cons a as)
  obtain p1 c where "inline_push_str p a = Some (p1, c)" "goes_on p p1 c" "settled p1"
    using inline_push_returns [of p a] Cons.prems by auto
  moreover from Cons.IH [of p1] this Cons.prems(3) obtain p2 d where
    "push_all inline_push_str p1 as = Some (p2, d)" "goes_on p1 p2 d" "settled p2" by (auto simp: goes_on_def)
  ultimately show ?case by (auto simp: goes_on_def)
qed

definition sample_tags :: "nat inline_tag_spec list" where
  "sample_tags = [\<lparr>is_tag = 0, is_open = ''<a>'', is_close = ''</a>''\<rparr>, \<lparr>is_tag = 1, is_open = ''<b>'', is_close = ''</b>''\<rparr>]"

text \<open>C36: The parser of hidden inline tags always returns.  Whatever delimiters its constructor
  accepts and whatever text is pushed, every push ends, and so does the stream.\<close>

theorem inline_parser_terminates:
  assumes "inline_hidden_tag_parser_new specs = Some p"
    and "\<forall>spec \<in> set specs. utf8 (is_open spec) \<and> utf8 (is_close spec)" and "\<forall>a \<in> set as. utf8 a"
  shows "\<exists>p1 c d. push_all inline_push_str p as = Some (p1, c) \<and> collect inline_push_str inline_finish p as = Some d"
  using push_all_returns [OF inline_new_ok(1,2) [OF assms(1,2)] assms(3)] by (auto simp: collect_def)

theorem inline_parser_terminates_witness:
  "\<exists>p1 c d. push_all inline_push_str (the (inline_hidden_tag_parser_new sample_tags)) [''x<a'', ''>y''] = Some (p1, c)
    \<and> collect inline_push_str inline_finish (the (inline_hidden_tag_parser_new sample_tags)) [''x<a'', ''>y''] = Some d"
proof (rule inline_parser_terminates)
  show "inline_hidden_tag_parser_new sample_tags = Some (the (inline_hidden_tag_parser_new sample_tags))" by code_simp
  show "\<forall>spec \<in> set sample_tags. utf8 (is_open spec) \<and> utf8 (is_close spec)" by code_simp
  show "\<forall>a \<in> set [''x<a'', ''>y'']. utf8 a" by code_simp
qed


definition accented_tag :: "nat inline_tag_spec list" where
  "accented_tag = [\<lparr>is_tag = 0, is_open = [CHR 0x3C, CHR 0xC3, CHR 0xA9], is_close = [CHR 0xC3, CHR 0xA9, CHR 0x3E]\<rparr>]"


text \<open>C12: Streaming is invisible.  When no opening delimiter occurs in another one before its end,
  what the parser shows and extracts over a whole stream does not depend on how the text is cut.\<close>

theorem inline_stream_independent_of_cuts:
  assumes "inline_hidden_tag_parser_new specs = Some p"
    and "\<forall>spec \<in> set specs. utf8 (is_open spec) \<and> utf8 (is_close spec)" and "unnested specs"
    and "\<forall>a \<in> set as. utf8 a" and "\<forall>b \<in> set bs. utf8 b" and "concat as = concat bs"
  shows "collect inline_push_str inline_finish p as = collect inline_push_str inline_finish p bs"
proof -
  have "inline_ok p" using inline_new_ok [OF assms(1,2)] assms(3) by (simp add: inline_ok_def)
  with inline.collect_concat [of p as] inline.collect_concat [of p bs] assms(4-6) show ?thesis
    by (auto simp: inline.same_chunk_def)
qed

theorem inline_stream_independent_of_cuts_witness:
  "collect inline_push_str inline_finish (the (inline_hidden_tag_parser_new sample_tags)) [''1<'', ''a>x</a'', ''>2'']
    = collect inline_push_str inline_finish (the (inline_hidden_tag_parser_new sample_tags)) [''1<a>x</a>2'']"
proof (rule inline_stream_independent_of_cuts)
  show "inline_hidden_tag_parser_new sample_tags = Some (the (inline_hidden_tag_parser_new sample_tags))" by code_simp
  show "\<forall>spec \<in> set sample_tags. utf8 (is_open spec) \<and> utf8 (is_close spec)" "unnested sample_tags" by code_simp+
  show "\<forall>a \<in> set [''1<'', ''a>x</a'', ''>2'']. utf8 a" "\<forall>a \<in> set [''1<a>x</a>2'']. utf8 a" by code_simp+
qed simp

text \<open>The condition on the opening delimiters is needed: a stream cut after the shorter of two
  delimiters with a common beginning is read with the shorter one.\<close>

definition nested_tags :: "nat inline_tag_spec list" where
  "nested_tags = [\<lparr>is_tag = 0, is_open = ''[['', is_close = '']]''\<rparr>, \<lparr>is_tag = 1, is_open = ''[[['', is_close = '']]]''\<rparr>]"

lemma nested_delimiters_depend_on_cuts:
  "collect inline_push_str inline_finish (the (inline_hidden_tag_parser_new nested_tags)) [''[[[x]]]'']
    = Some \<lparr>visible_text = [], extracted = [\<lparr>ei_tag = 1, ei_content = ''x''\<rparr>]\<rparr>"
  "collect inline_push_str inline_finish (the (inline_hidden_tag_parser_new nested_tags)) [''[['', ''[x]]]'']
    = Some \<lparr>visible_text = '']'', extracted = [\<lparr>ei_tag = 0, ei_content = ''[x''\<rparr>]\<rparr>"
  by code_simp+

section \<open>What is a citation\<close>

lemma delimiters_not_empty [simp]: "CITATION_OPEN \<noteq> []" "CITATION_CLOSE \<noteq> []"
  by (simp_all add: CITATION_OPEN_def CITATION_CLOSE_def)

lemma rest_shorter:
  assumes "str_find (drop n t) d = Some j" and "d \<noteq> []"
  shows "length (drop (j + length d) (drop n t)) < length t"
proof -
  have "0 < length d" using assms(2) by simp
  with str_find_append(2) [OF assms(1)] show ?thesis unfolding length_drop by linarith
qed

text \<open>The text before the first opening delimiter is visible, the text from there to the next closing
  delimiter is a citation, also if there is none, and so on.\<close>

function split_citations :: "string \<Rightarrow> string \<times> string list" where
  "split_citations t =
    (case str_find t CITATION_OPEN of
       None \<Rightarrow> (t, [])
     | Some i \<Rightarrow>
       (let r = drop (i + length CITATION_OPEN) t in
        case str_find r CITATION_CLOSE of
          None \<Rightarrow> (take i t, [r])
        | Some j \<Rightarrow>
          (case split_citations (drop (j + length CITATION_CLOSE) r) of
             (visible, cs) \<Rightarrow> (take i t @ visible, take j r # cs))))"
  by pat_completeness auto
termination
  by (relation "measure length") (use rest_shorter in auto)

declare split_citations.simps [simp del]

definition citation_chunk :: "string \<times> string list \<Rightarrow> string stream_text_chunk" where
  "citation_chunk r = \<lparr>visible_text = fst r, extracted = snd r\<rparr>"

definition citation_start :: citation_stream_parser where
  "citation_start = \<lparr>it_specs = [citation_spec], it_pending = [], it_active = None\<rparr>"

lemma citation_start: "citation_stream_parser_new = Some citation_start"
  by (simp add: citation_stream_parser_new_def inline_hidden_tag_parser_new_def citation_start_def citation_spec_def)

lemma citation_find:
  "it_specs p = [citation_spec] \<Longrightarrow> find_next_open p = map_option (\<lambda>i. (i, 0)) (str_find (it_pending p) CITATION_OPEN)"
  by (cases "str_find (it_pending p) CITATION_OPEN")
     (simp_all add: find_next_open_def open_candidates_def map_filter_def min_by_def citation_spec_def)

definition finished :: "('t inline_hidden_tag_parser \<times> 't inline_chunk) \<Rightarrow> 't inline_chunk" where
  "finished = (\<lambda>(p, c). append_chunk c (snd (inline_finish p)))"

lemma finished_content:
  "it_active p = Some a \<Longrightarrow> finished (drain_content p a, out) = close_tag a (it_pending p) out"
  by (simp add: finished_def inline_finish_def drain_content_eq [OF _ refl] close_tag_def append_chunk_def)

lemma finished_visible:
  "it_active p = None \<Longrightarrow> finished (drain_visible_to_suffix_match p out k) = push_visible_prefix out (it_pending p)"
  by (simp add: finished_def inline_finish_def drain_visible_eq [OF refl] push_visible_prefix_def append_chunk_def)

lemma citation_run:
  assumes "it_specs p = [citation_spec]" and "it_active p = None"
  shows "map_option (\<lambda>r. tag_contents (finished r)) (push_loop p out)
    = Some (append_chunk (tag_contents out) (citation_chunk (split_citations (it_pending p))))"
  using assms
proof (induction "length (it_pending p)" arbitrary: p out rule: less_induct)
  case less
  let ?t = "it_pending p"
  note found = citation_find [OF less.prems(1)]
  show ?case
  proof (cases "str_find ?t CITATION_OPEN")
    case None
    with found loop_visible [OF less.prems(2), of out] finished_visible [OF less.prems(2)] show ?thesis
      by (subst split_citations.simps) (simp add: citation_chunk_def tag_contents_def append_chunk_def push_visible_prefix_def)
  next
    case (Some i)
    define r where "r = drop (i + length CITATION_OPEN) ?t"
    define out1 where "out1 = push_visible_prefix out (take i ?t)"
    let ?p = "p\<lparr>it_pending := r, it_active := Some (open_tag citation_spec)\<rparr>"
    have opened: "push_loop p out = push_loop ?p out1"
      using Some found loop_open [OF less.prems(2), of i 0 out] less.prems(1) by (simp add: r_def out1_def citation_spec_def)
    have active: "it_active ?p = Some (open_tag citation_spec)" by simp
    have close: "ac_close (open_tag citation_spec) = CITATION_CLOSE" by (simp add: open_tag_def citation_spec_def)
    show ?thesis
    proof (cases "str_find r CITATION_CLOSE")
      case None
      then show ?thesis
        using opened loop_content [OF active, of out1] finished_content [OF active] close Some
        by (subst split_citations.simps)
           (simp add: out1_def citation_chunk_def tag_contents_def append_chunk_def push_visible_prefix_def close_tag_def open_tag_def flip: r_def)
    next
      case (Some j)
      define u where "u = drop (j + length CITATION_CLOSE) r"
      let ?q = "p\<lparr>it_pending := u, it_active := None\<rparr>" and ?out = "close_tag (open_tag citation_spec) (take j r) out1"
      have closed: "push_loop p out = push_loop ?q ?out"
        using opened Some loop_close [OF active, of j out1] close by (simp add: u_def)
      have "length u < length ?t"
        using rest_shorter Some by (simp add: u_def r_def)
      with less.hyps [of ?q ?out] less.prems(1) closed \<open>str_find ?t CITATION_OPEN = Some i\<close> Some show ?thesis
        by (subst split_citations.simps)
           (simp add: out1_def citation_chunk_def tag_contents_def append_chunk_def push_visible_prefix_def close_tag_def open_tag_def
              case_prod_beta flip: r_def u_def)
    qed
  qed
qed

lemma citation_collect: "collect citation_push_str citation_finish citation_start [t] = Some (citation_chunk (split_citations t))"
proof -
  have "append_chunk (tag_contents c) (tag_contents d) = tag_contents (append_chunk c d)" for c d :: "'t inline_chunk"
    by (simp add: tag_contents_def append_chunk_def)
  then have "collect citation_push_str citation_finish citation_start [t]
    = map_option (\<lambda>r. tag_contents (finished r)) (inline_push_str citation_start t)"
    by (cases "inline_push_str citation_start t") (auto simp: collect_def citation_push_str_def citation_finish_def finished_def)
  also have "\<dots> = Some (citation_chunk (split_citations t))"
    using citation_run [of "citation_start\<lparr>it_pending := t\<rparr>" default_chunk]
    by (simp add: inline_push_str_def citation_start_def tag_contents_def citation_chunk_def append_chunk_def)
  finally show ?thesis .
qed

lemma citation_start_ok: "inline_ok citation_start"
proof -
  have "\<forall>spec \<in> set [citation_spec]. utf8 (is_open spec) \<and> utf8 (is_close spec)" "unnested [citation_spec]" by code_simp+
  with inline_new_ok [of "[citation_spec]" citation_start] citation_start show ?thesis
    by (simp add: inline_ok_def citation_stream_parser_new_def)
qed

text \<open>C13: A stream of bytes is parsed as its text.  However the bytes are cut, also within
  characters, the visible text and the citations are those of the whole text, if the bytes are UTF-8;
  a stream that ends within a character is refused as incomplete, and any other with the length of
  its first error.\<close>

theorem citation_bytes_parsed_as_text:
  "case utf8_error (concat bs) of
     None \<Rightarrow> collect_bytes citation_push_str citation_finish citation_start bs
       = Some (Inr (citation_chunk (split_citations (concat bs))))
   | Some (v, None) \<Rightarrow> collect_bytes citation_push_str citation_finish citation_start bs = Some (Inl IncompleteUtf8AtEof)
   | Some (v, Some k) \<Rightarrow> \<exists>u. collect_bytes citation_push_str citation_finish citation_start bs = Some (Inl (InvalidUtf8 u k))"
  using citations.collect_bytes_result [OF citation_start_ok, of bs]
  by (auto simp: citation_collect citations.same_chunk_def split: option.splits)

lemma strip_citations_split: "strip_citations t = Some (split_citations t)"
proof -
  obtain p c where "citation_push_str citation_start t = Some (p, c)"
    using citation_collect [of t] by (cases "citation_push_str citation_start t") (auto simp: collect_def)
  then show ?thesis
    using citation_collect [of t] unfolding strip_citations_def citation_start
    by (auto simp: collect_def citation_chunk_def append_chunk_def Let_def)
qed

section \<open>Citations in prose\<close>

text \<open>Prose with citations in it, written out.\<close>

fun render_citations :: "(string \<times> string) list \<Rightarrow> string \<Rightarrow> string" where
  "render_citations [] end_text = end_text"
| "render_citations ((prose, citation) # ps) end_text =
     prose @ CITATION_OPEN @ citation @ CITATION_CLOSE @ render_citations ps end_text"

text \<open>A delimiter whose first byte does not occur again in it cannot begin in the text before it.\<close>

lemma find_after:
  assumes "d = c # d'" and "c \<notin> set d'" and "\<not> str_contains v d"
  shows "str_find (v @ d @ rest) d = Some (length v)"
  unfolding str_find_Some
proof (intro conjI allI impI)
  show "\<not> starts_with (drop j (v @ d @ rest)) d" if before: "j < length v" for j
  proof
    assume "starts_with (drop j (v @ d @ rest)) d"
    then have begins: "starts_with (drop j v @ d @ rest) d" using before by simp
    have "\<not> starts_with (drop j v) d"
      using assms(3) by (metis append_take_drop_id starts_with_iff str_contains_iff)
    with starts_with_prefix_of [OF begins] obtain y where y: "d = drop j v @ y" by (auto simp: starts_with_iff)
    with begins have "\<exists>r. d @ rest = y @ r" by (auto simp: starts_with_iff)
    moreover have "y \<noteq> []" using y \<open>\<not> starts_with (drop j v) d\<close> by auto
    ultimately have "c \<in> set y" using assms(1) by (cases y) auto
    moreover obtain x xs where "drop j v = x # xs" using before by (cases "drop j v") auto
    ultimately show False using y assms(1,2) by auto
  qed
qed simp_all

text \<open>Citations come out as they were put in.  Stripping prose with citations gives back
  the prose and the citations in order, as long as no piece of prose contains an opening and no
  citation a closing delimiter.\<close>

lemma strip_citations_inverts_rendering:
  assumes "\<forall>(prose, citation) \<in> set ps. \<not> str_contains prose CITATION_OPEN \<and> \<not> str_contains citation CITATION_CLOSE"
    and "\<not> str_contains end_text CITATION_OPEN"
  shows "strip_citations (render_citations ps end_text) = Some (concat (map fst ps) @ end_text, map snd ps)"
proof -
  have fresh: "CITATION_OPEN = CHR ''<'' # tl CITATION_OPEN" "CHR ''<'' \<notin> set (tl CITATION_OPEN)"
    "CITATION_CLOSE = CHR ''<'' # tl CITATION_CLOSE" "CHR ''<'' \<notin> set (tl CITATION_CLOSE)"
    by code_simp+
  have "split_citations (render_citations ps end_text) = (concat (map fst ps) @ end_text, map snd ps)"
    using assms
  proof (induction ps)
    case Nil
    then have "str_find end_text CITATION_OPEN = None"
      by (auto simp: str_find_None str_contains_iff starts_with_iff) (metis append_take_drop_id)
    then show ?case by (subst split_citations.simps) simp
  next
    case (Cons p ps)
    obtain prose citation where p: "p = (prose, citation)" by (cases p)
    let ?r = "citation @ CITATION_CLOSE @ render_citations ps end_text"
    have "str_find (prose @ CITATION_OPEN @ ?r) CITATION_OPEN = Some (length prose)"
      using find_after [OF fresh(1,2)] Cons.prems p by auto
    moreover have "str_find ?r CITATION_CLOSE = Some (length citation)"
      using find_after [OF fresh(3,4)] Cons.prems p by auto
    ultimately show ?case
      using Cons p by (subst split_citations.simps) simp
  qed
  then show ?thesis by (simp add: strip_citations_split)
qed

lemma strip_citations_inverts_rendering_witness:
  "strip_citations (render_citations [(''a '', ''doc A''), ('' b'', [])] '' <oai-mem'') = Some (''a  b <oai-mem'', [''doc A'', []])"
proof -
  have "\<forall>(prose, citation) \<in> set [(''a '', ''doc A''), ('' b'', [])].
      \<not> str_contains prose CITATION_OPEN \<and> \<not> str_contains citation CITATION_CLOSE"
    "\<not> str_contains '' <oai-mem'' CITATION_OPEN" by code_simp+
  from strip_citations_inverts_rendering [OF this] show ?thesis by simp
qed

end
