(* ===== verification/Tagged_Lines.thy ===== *)
theory Tagged_Lines
  imports Stream_Text
begin

text \<open>The parser of tags that stand alone on a line (\<^verbatim>\<open>tagged_line_parser.rs\<close>).  It holds a
  line back until the line can no longer be a tag, and lets its rest through as it comes.\<close>

section \<open>The parser\<close>

record 't tag_spec =
  ts_open :: string
  ts_close :: string
  ts_tag :: 't

datatype 't tagged_line_segment = Normal string | TagStart 't | TagDelta 't string | TagEnd 't

record 't tagged_line_parser =
  tl_specs :: "'t tag_spec list"
  tl_active_tag :: "'t option"
  tl_detect_tag :: bool
  tl_line_buffer :: string

type_synonym 't segments = "'t tagged_line_segment list"

definition tagged_line_parser_new :: "'t tag_spec list \<Rightarrow> 't tagged_line_parser" where
  "tagged_line_parser_new specs = \<lparr>tl_specs = specs, tl_active_tag = None, tl_detect_tag = True, tl_line_buffer = []\<rparr>"

fun push_segment :: "'t segments \<Rightarrow> 't tagged_line_segment \<Rightarrow> 't segments" where
  "push_segment segments (Normal delta) =
    (if delta = [] then segments
     else case last_opt segments of
            Some (Normal existing) \<Rightarrow> butlast segments @ [Normal (existing @ delta)]
          | _ \<Rightarrow> segments @ [Normal delta])"
| "push_segment segments (TagDelta t delta) =
    (if delta = [] then segments
     else case last_opt segments of
            Some (TagDelta existing_tag existing) \<Rightarrow>
              if existing_tag = t then butlast segments @ [TagDelta existing_tag (existing @ delta)]
              else segments @ [TagDelta t delta]
          | _ \<Rightarrow> segments @ [TagDelta t delta])"
| "push_segment segments (TagStart t) = segments @ [TagStart t]"
| "push_segment segments (TagEnd t) = segments @ [TagEnd t]"

definition text_segment :: "'t option \<Rightarrow> string \<Rightarrow> 't tagged_line_segment" where
  "text_segment active s = (case active of Some t \<Rightarrow> TagDelta t s | None \<Rightarrow> Normal s)"

definition push_text :: "'t tagged_line_parser \<Rightarrow> string \<Rightarrow> 't segments \<Rightarrow> 't segments" where
  "push_text p s segments = push_segment segments (text_segment (tl_active_tag p) s)"

definition is_tag_prefix :: "'t tag_spec list \<Rightarrow> string \<Rightarrow> bool" where
  "is_tag_prefix specs slug =
    (let slug = trim_end slug in
     list_ex (\<lambda>spec. starts_with (ts_open spec) slug \<or> starts_with (ts_close spec) slug) specs)"

definition match_open :: "'t tag_spec list \<Rightarrow> string \<Rightarrow> 't option" where
  "match_open specs slug = map_option ts_tag (find (\<lambda>spec. ts_open spec = slug) specs)"

definition match_close :: "'t tag_spec list \<Rightarrow> string \<Rightarrow> 't option" where
  "match_close specs slug = map_option ts_tag (find (\<lambda>spec. ts_close spec = slug) specs)"

definition line_slug :: "string \<Rightarrow> string" where
  "line_slug line = trim_end (trim_start (case strip_suffix [LF] line of Some l \<Rightarrow> l | None \<Rightarrow> line))"

definition finish_line :: "'t tagged_line_parser \<Rightarrow> 't segments \<Rightarrow> 't tagged_line_parser \<times> 't segments" where
  "finish_line p segments =
    (let line = tl_line_buffer p; p = p\<lparr>tl_line_buffer := []\<rparr>; slug = line_slug line in
     case (match_open (tl_specs p) slug, tl_active_tag p) of
       (Some t, None) \<Rightarrow> (p\<lparr>tl_active_tag := Some t, tl_detect_tag := True\<rparr>, push_segment segments (TagStart t))
     | _ \<Rightarrow>
       (case match_close (tl_specs p) slug of
          Some t \<Rightarrow>
            if tl_active_tag p = Some t
            then (p\<lparr>tl_active_tag := None, tl_detect_tag := True\<rparr>, push_segment segments (TagEnd t))
            else (p\<lparr>tl_detect_tag := True\<rparr>, push_text p line segments)
        | None \<Rightarrow> (p\<lparr>tl_detect_tag := True\<rparr>, push_text p line segments)))"

text \<open>One character of \<^verbatim>\<open>parse\<close>: the parser, the segments so far and the run of text that was
  not pushed yet.\<close>

definition parse_char ::
    "'t tagged_line_parser \<times> 't segments \<times> string \<Rightarrow> string \<Rightarrow> 't tagged_line_parser \<times> 't segments \<times> string" where
  "parse_char = (\<lambda>(p, segments, run) ch.
    if tl_detect_tag p then
      let segments = (if run \<noteq> [] then push_text p run segments else segments);
          p = p\<lparr>tl_line_buffer := tl_line_buffer p @ ch\<rparr> in
      if ch = [LF] then (case finish_line p segments of (p, segments) \<Rightarrow> (p, segments, []))
      else let slug = trim_start (tl_line_buffer p) in
           if slug = [] \<or> is_tag_prefix (tl_specs p) slug then (p, segments, [])
           else (p\<lparr>tl_line_buffer := [], tl_detect_tag := False\<rparr>, push_text p (tl_line_buffer p) segments, [])
    else
      let run = run @ ch in
      if ch = [LF] then (p\<lparr>tl_detect_tag := True\<rparr>, push_text p run segments, [])
      else (p, segments, run))"

definition flush_run :: "'t tagged_line_parser \<times> 't segments \<times> string \<Rightarrow> 't tagged_line_parser \<times> 't segments" where
  "flush_run = (\<lambda>(p, segments, run). (p, if run \<noteq> [] then push_text p run segments else segments))"

definition parse :: "'t tagged_line_parser \<Rightarrow> string \<Rightarrow> 't tagged_line_parser \<times> 't segments" where
  "parse p delta = flush_run (foldl parse_char (p, [], []) (chars delta))"

definition finish_buffer :: "'t tagged_line_parser \<Rightarrow> 't tagged_line_parser \<times> 't segments" where
  "finish_buffer p =
    (if tl_line_buffer p = [] then (p, [])
     else
       let buffered = tl_line_buffer p; p = p\<lparr>tl_line_buffer := []\<rparr>; slug = line_slug buffered in
       case (match_open (tl_specs p) slug, tl_active_tag p) of
         (Some t, None) \<Rightarrow> (p\<lparr>tl_active_tag := Some t\<rparr>, push_segment [] (TagStart t))
       | _ \<Rightarrow>
         (case match_close (tl_specs p) slug of
            Some t \<Rightarrow>
              if tl_active_tag p = Some t then (p\<lparr>tl_active_tag := None\<rparr>, push_segment [] (TagEnd t))
              else (p, push_text p buffered [])
          | None \<Rightarrow> (p, push_text p buffered [])))"

definition line_finish :: "'t tagged_line_parser \<Rightarrow> 't tagged_line_parser \<times> 't segments" where
  "line_finish p =
    (case finish_buffer p of (p, segments) \<Rightarrow>
       (p\<lparr>tl_active_tag := None, tl_detect_tag := True\<rparr>,
        case tl_active_tag p of Some t \<Rightarrow> push_segment segments (TagEnd t) | None \<Rightarrow> segments))"

section \<open>Pushing segments\<close>

abbreviation push_segments :: "'t segments \<Rightarrow> 't segments \<Rightarrow> 't segments" where
  "push_segments \<equiv> foldl push_segment"

text \<open>The normal form of a list of segments: pushed one after the other.\<close>

abbreviation merge_segments :: "'t segments \<Rightarrow> 't segments" where
  "merge_segments xs \<equiv> push_segments [] xs"

lemma push_segment_merge:
  "push_segment (push_segment segments (Normal a)) (Normal b) = push_segment segments (Normal (a @ b))"
  "push_segment (push_segment segments (TagDelta t a)) (TagDelta t b) = push_segment segments (TagDelta t (a @ b))"
  by (auto split: option.splits tagged_line_segment.splits simp: last_opt_def)

lemma push_text_cases:
  "b \<noteq> [] \<Longrightarrow> (\<exists>xs e. segments = xs @ [Normal e] \<and> push_segment segments (Normal b) = xs @ [Normal (e @ b)])
    \<or> push_segment segments (Normal b) = segments @ [Normal b]"
  "b \<noteq> [] \<Longrightarrow> (\<exists>xs e. segments = xs @ [TagDelta t e] \<and> push_segment segments (TagDelta t b) = xs @ [TagDelta t (e @ b)])
    \<or> push_segment segments (TagDelta t b) = segments @ [TagDelta t b]"
  by (cases segments rule: rev_cases; auto simp: last_opt_def split: tagged_line_segment.splits)+

lemma push_segments_push: "push_segments s (push_segment segments x) = push_segment (push_segments s segments) x"
proof (cases x)
  case (Normal b)
  show ?thesis
  proof (cases "b = []")
    case False
    from push_text_cases(1) [OF False, of segments] show ?thesis
    proof
      assume "\<exists>xs e. segments = xs @ [Normal e] \<and> push_segment segments (Normal b) = xs @ [Normal (e @ b)]"
      then obtain xs e where "segments = xs @ [Normal e]" "push_segment segments (Normal b) = xs @ [Normal (e @ b)]" by blast
      with Normal show ?thesis by (simp add: push_segment_merge del: push_segment.simps)
    qed (simp add: Normal del: push_segment.simps)
  qed (simp add: Normal)
next
  case (TagDelta t b)
  show ?thesis
  proof (cases "b = []")
    case False
    from push_text_cases(2) [OF False, of segments t] show ?thesis
    proof
      assume "\<exists>xs e. segments = xs @ [TagDelta t e] \<and> push_segment segments (TagDelta t b) = xs @ [TagDelta t (e @ b)]"
      then obtain xs e where "segments = xs @ [TagDelta t e]" "push_segment segments (TagDelta t b) = xs @ [TagDelta t (e @ b)]" by blast
      with TagDelta show ?thesis by (simp add: push_segment_merge del: push_segment.simps)
    qed (simp add: TagDelta del: push_segment.simps)
  qed (simp add: TagDelta)
qed simp_all

lemma push_segments_assoc: "push_segments s (push_segments r xs) = push_segments (push_segments s r) xs"
  by (induction xs rule: rev_induct) (simp_all add: push_segments_push)

lemma merge_segments_merge:
  "merge_segments (merge_segments xs @ ys) = merge_segments (xs @ ys)"
  "merge_segments (xs @ merge_segments ys) = merge_segments (xs @ ys)"
  by (simp_all add: push_segments_assoc)

section \<open>One segment per character\<close>

text \<open>What a character contributes, when nothing is collected in runs.\<close>

definition line_step :: "'t tagged_line_parser \<Rightarrow> string \<Rightarrow> 't tagged_line_parser \<times> 't segments" where
  "line_step p ch = flush_run (parse_char (p, [], []) ch)"

fun line_steps :: "'t tagged_line_parser \<Rightarrow> string list \<Rightarrow> 't tagged_line_parser \<times> 't segments" where
  "line_steps p [] = (p, [])"
| "line_steps p (ch # chs) =
    (case line_step p ch of (p1, xs) \<Rightarrow> case line_steps p1 chs of (p2, ys) \<Rightarrow> (p2, xs @ ys))"

lemma push_text_Nil [simp]: "push_text p [] segments = segments"
  by (simp add: push_text_def text_segment_def split: option.splits)

lemma push_text_append [simp]: "push_text p b (push_text p a segments) = push_text p (a @ b) segments"
  by (simp add: push_text_def text_segment_def push_segment_merge del: push_segment.simps split: option.splits)

lemma push_text_update [simp]:
  "push_text (p\<lparr>tl_line_buffer := b\<rparr>) = push_text p" "push_text (p\<lparr>tl_detect_tag := d\<rparr>) = push_text p"
  by (simp_all add: push_text_def fun_eq_iff)

lemma push_text_push_segments [simp]: "push_segments segments (push_text p a []) = push_text p a segments"
  by (simp add: push_text_def push_segments_push del: push_segment.simps)

lemma flush_run_eq: "flush_run (p, segments, run) = (p, push_text p run segments)"
  by (simp add: flush_run_def)

text \<open>A line as a whole.\<close>

definition tag_line :: "'t tag_spec list \<Rightarrow> 't option \<Rightarrow> string \<Rightarrow> 't option \<times> 't segments" where
  "tag_line specs active line =
    (case (match_open specs (line_slug line), active) of
       (Some t, None) \<Rightarrow> (Some t, [TagStart t])
     | _ \<Rightarrow>
       (case match_close specs (line_slug line) of
          Some t \<Rightarrow> if active = Some t then (None, [TagEnd t]) else (active, [text_segment active line])
        | None \<Rightarrow> (active, [text_segment active line])))"

lemma finish_line_eq:
  "finish_line p segments =
    (p\<lparr>tl_line_buffer := [], tl_detect_tag := True, tl_active_tag := fst (tag_line (tl_specs p) (tl_active_tag p) (tl_line_buffer p))\<rparr>,
     push_segments segments (snd (tag_line (tl_specs p) (tl_active_tag p) (tl_line_buffer p))))"
  by (cases p) (simp add: finish_line_def tag_line_def push_text_def Let_def split: option.splits)

lemma finish_buffer_eq:
  "tl_line_buffer p \<noteq> [] \<Longrightarrow> finish_buffer p =
    (p\<lparr>tl_line_buffer := [], tl_active_tag := fst (tag_line (tl_specs p) (tl_active_tag p) (tl_line_buffer p))\<rparr>,
     merge_segments (snd (tag_line (tl_specs p) (tl_active_tag p) (tl_line_buffer p))))"
  by (cases p) (simp add: finish_buffer_def tag_line_def push_text_def Let_def split: option.splits)

lemma parse_char_emits:
  "flush_run (parse_char (p, segments, run) ch) = (fst (line_step p ch), push_segments (push_text p run segments) (snd (line_step p ch)))"
  by (simp add: line_step_def parse_char_def flush_run_eq finish_line_eq Let_def push_segments_assoc split: prod.splits)

lemma parse_chars_emit:
  "flush_run (foldl parse_char (p, segments, run) chs)
    = (fst (line_steps p chs), push_segments (push_text p run segments) (snd (line_steps p chs)))"
proof (induction chs arbitrary: p segments run)
  case Nil
  then show ?case by (simp add: flush_run_eq)
next
  case (Cons ch chs)
  obtain p1 segments1 run1 where step: "parse_char (p, segments, run) ch = (p1, segments1, run1)" by (cases "parse_char (p, segments, run) ch")
  then have "p1 = fst (line_step p ch)" "push_text p1 run1 segments1 = push_segments (push_text p run segments) (snd (line_step p ch))"
    using parse_char_emits [of p segments run ch] by (auto simp: flush_run_eq)
  with Cons.IH [of p1 segments1 run1] step show ?case by (simp add: case_prod_beta)
qed

lemma parse_eq: "parse p delta = (fst (line_steps p (chars delta)), merge_segments (snd (line_steps p (chars delta))))"
  by (simp add: parse_def parse_chars_emit)

lemma line_steps_append:
  "line_steps p (xs @ ys) =
    (fst (line_steps (fst (line_steps p xs)) ys), snd (line_steps p xs) @ snd (line_steps (fst (line_steps p xs)) ys))"
  by (induction xs arbitrary: p) (simp_all add: case_prod_beta)

text \<open>Cutting the input cuts the segments, and nothing else.\<close>

lemma parse_append:
  assumes "utf8 a" and "parse p a = (p1, xs)" and "parse p1 b = (p2, ys)"
  shows "parse p (a @ b) = (p2, merge_segments (xs @ ys))"
  using assms by (auto simp: parse_eq chars_append line_steps_append push_segments_assoc)

section \<open>Whole lines\<close>

lemma line_step_detect:
  assumes "tl_detect_tag p" and "ch \<noteq> [LF]" and "buf = tl_line_buffer p @ ch"
  shows "line_step p ch =
    (if trim_start buf = [] \<or> is_tag_prefix (tl_specs p) (trim_start buf) then (p\<lparr>tl_line_buffer := buf\<rparr>, [])
     else (p\<lparr>tl_line_buffer := [], tl_detect_tag := False\<rparr>, push_text p buf []))"
  using assms by (simp add: line_step_def parse_char_def flush_run_eq Let_def)

lemma line_step_end:
  assumes "tl_detect_tag p"
  shows "line_step p [LF] = finish_line (p\<lparr>tl_line_buffer := tl_line_buffer p @ [LF]\<rparr>) []"
  using assms by (simp add: line_step_def parse_char_def flush_run_eq Let_def split: prod.splits)

lemma line_step_pass:
  assumes "\<not> tl_detect_tag p"
  shows "line_step p ch = (p\<lparr>tl_detect_tag := (ch = [LF])\<rparr>, push_text p ch [])"
  using assms by (cases p) (simp add: line_step_def parse_char_def flush_run_eq Let_def)

definition disproved :: "'t tag_spec list \<Rightarrow> string \<Rightarrow> bool" where
  "disproved specs x \<longleftrightarrow> (\<exists>y r. x = y @ r \<and> utf8 y \<and> utf8 r \<and> trim_start y \<noteq> [] \<and> \<not> is_tag_prefix specs (trim_start y))"

lemma disproved_append: "disproved specs x \<Longrightarrow> utf8 r \<Longrightarrow> disproved specs (x @ r)"
  unfolding disproved_def by (metis append.assoc utf8_append)

lemma disproved_no_tag:
  assumes "disproved specs x"
  shows "match_open specs (trim_end (trim_start x)) = None" and "match_close specs (trim_end (trim_start x)) = None"
proof -
  obtain y r where y: "x = y @ r" "utf8 r" "trim_start y \<noteq> []" "\<not> is_tag_prefix specs (trim_start y)" "utf8 y"
    using assms by (auto simp: disproved_def)
  have "starts_with (trim_end (trim_start x)) (trim_end (trim_start y))"
    using trim_end_prefix [of "trim_start y"] y by (auto simp: trim_start_append trim_end_append starts_with_iff) (metis append.assoc)
  with y(4) show "match_open specs (trim_end (trim_start x)) = None" "match_close specs (trim_end (trim_start x)) = None"
    by (auto simp: is_tag_prefix_def Let_def list_ex_iff match_open_def match_close_def find_None_iff)
qed

text \<open>Within a line the parser has either held everything back or let everything through, the latter
  only if the line cannot be a tag.\<close>

lemma line_prefix:
  assumes "tl_detect_tag p" and "tl_line_buffer p = []" and "\<forall>ch \<in> set cs. utf8 ch \<and> ch \<noteq> [LF]"
  shows "line_steps p cs = (p\<lparr>tl_line_buffer := concat cs\<rparr>, [])
    \<or> (\<exists>ys. line_steps p cs = (p\<lparr>tl_detect_tag := False\<rparr>, ys) \<and> merge_segments ys = push_text p (concat cs) []
         \<and> disproved (tl_specs p) (concat cs))"
  using assms(3)
proof (induction cs rule: rev_induct)
  case Nil
  then show ?case using assms(2) by (cases p) simp
next
  case (snoc ch cs)
  have valid: "utf8 (concat cs)" using snoc.prems by (induction cs) auto
  have ch: "utf8 ch" "ch \<noteq> [LF]" using snoc.prems by auto
  let ?x = "concat cs @ ch"
  from snoc consider (held) "line_steps p cs = (p\<lparr>tl_line_buffer := concat cs\<rparr>, [])"
    | (passed) ys where "line_steps p cs = (p\<lparr>tl_detect_tag := False\<rparr>, ys)" "merge_segments ys = push_text p (concat cs) []"
        "disproved (tl_specs p) (concat cs)"
    by auto
  then show ?case
  proof cases
    case held
    note step = line_step_detect [of "p\<lparr>tl_line_buffer := concat cs\<rparr>" ch ?x]
    show ?thesis
    proof (cases "trim_start ?x = [] \<or> is_tag_prefix (tl_specs p) (trim_start ?x)")
      case True
      then show ?thesis using held step assms(1) ch by (auto simp: line_steps_append)
    next
      case False
      then have "disproved (tl_specs p) ?x" using valid ch(1) unfolding disproved_def by (intro exI [of _ ?x] exI [of _ "[]"]) simp
      moreover have "p\<lparr>tl_line_buffer := [], tl_detect_tag := False\<rparr> = p\<lparr>tl_detect_tag := False\<rparr>" using assms(2) by (cases p) simp
      ultimately show ?thesis
        using False held step assms(1) ch by (simp add: line_steps_append)
    qed
  next
    case (passed ys)
    then show ?thesis
      using line_step_pass [of "p\<lparr>tl_detect_tag := False\<rparr>" ch] ch disproved_append [OF passed(3) ch(1)]
      by (simp add: line_steps_append)
  qed
qed

lemma disproved_line:
  assumes "disproved specs x" and "LF \<notin> set x"
  shows "tag_line specs active (x @ [LF]) = (active, [text_segment active (x @ [LF])])"
    and "tag_line specs active x = (active, [text_segment active x])"
proof -
  have "line_slug (x @ [LF]) = trim_end (trim_start x)" by (simp add: line_slug_def strip_suffix_def ends_with_def)
  moreover have "\<not> ends_with x [LF]" using assms(2) by (auto simp: ends_with_iff)
  then have "line_slug x = trim_end (trim_start x)" by (simp add: line_slug_def strip_suffix_def)
  ultimately show "tag_line specs active (x @ [LF]) = (active, [text_segment active (x @ [LF])])"
    "tag_line specs active x = (active, [text_segment active x])"
    using disproved_no_tag [OF assms(1)] by (simp_all add: tag_line_def)
qed

lemma utf8_LF: "utf8 (x @ LF # r) \<longleftrightarrow> utf8 x \<and> utf8 r"
proof -
  have lf: "utf8 [LF]" "\<not> is_continuation (byte LF)" by code_simp+
  have "utf8 x" if "utf8 (x @ LF # r)" using utf8_before [OF that lf(2)] .
  moreover have "utf8 (LF # r) \<longleftrightarrow> utf8 r" using utf8_append [OF lf(1), of r] by simp
  ultimately show ?thesis using utf8_append [of x "LF # r"] by auto
qed

lemma chars_of_line:
  assumes "utf8 x" and "LF \<notin> set x"
  shows "\<forall>ch \<in> set (chars x). utf8 ch \<and> ch \<noteq> [LF]"
proof
  fix ch assume ch: "ch \<in> set (chars x)"
  have "utf8 ch" using utf8_error_Whole [OF chars_utf8 [OF assms(1) ch]] by simp
  moreover have "set ch \<subseteq> set x" using ch concat_chars [of x] by (metis UN_upper set_concat)
  ultimately show "utf8 ch \<and> ch \<noteq> [LF]" using assms(2) by auto
qed

text \<open>A complete line has the effect of the tag or the text it is.\<close>

lemma whole_line:
  assumes "tl_detect_tag p" and "tl_line_buffer p = []" and "utf8 x" and "LF \<notin> set x"
  shows "\<exists>ys. line_steps p (chars (x @ [LF])) = (p\<lparr>tl_active_tag := fst (tag_line (tl_specs p) (tl_active_tag p) (x @ [LF]))\<rparr>, ys)
    \<and> merge_segments ys = merge_segments (snd (tag_line (tl_specs p) (tl_active_tag p) (x @ [LF])))"
proof -
  have "chars (x @ [LF]) = chars x @ [[LF]]"
    using assms(3) by (simp add: chars_append) code_simp
  then have steps: "line_steps p (chars (x @ [LF])) =
      (fst (line_step (fst (line_steps p (chars x))) [LF]), snd (line_steps p (chars x)) @ snd (line_step (fst (line_steps p (chars x))) [LF]))"
    by (simp add: line_steps_append case_prod_beta)
  from line_prefix [OF assms(1,2) chars_of_line [OF assms(3,4)]] show ?thesis
  proof
    assume "line_steps p (chars x) = (p\<lparr>tl_line_buffer := concat (chars x)\<rparr>, [])"
    moreover have "p\<lparr>tl_line_buffer := [], tl_detect_tag := True, tl_active_tag := a\<rparr> = p\<lparr>tl_active_tag := a\<rparr>" for a
      using assms(1,2) by (cases p) simp
    ultimately show ?thesis using steps assms(1) by (simp add: line_step_end finish_line_eq push_segments_assoc)
  next
    assume "\<exists>ys. line_steps p (chars x) = (p\<lparr>tl_detect_tag := False\<rparr>, ys)
      \<and> merge_segments ys = push_text p (concat (chars x)) [] \<and> disproved (tl_specs p) (concat (chars x))"
    then obtain ys where "line_steps p (chars x) = (p\<lparr>tl_detect_tag := False\<rparr>, ys)" "merge_segments ys = push_text p x []"
      "disproved (tl_specs p) x" by auto
    moreover have "p\<lparr>tl_detect_tag := True\<rparr> = p" "p\<lparr>tl_active_tag := tl_active_tag p\<rparr> = p" using assms(1) by simp_all
    ultimately show ?thesis
      using steps disproved_line(1) [of "tl_specs p" x "tl_active_tag p"] assms(4) line_step_pass [of "p\<lparr>tl_detect_tag := False\<rparr>" "[LF]"]
      by (simp flip: push_text_def)
  qed
qed

definition closing :: "'t option \<Rightarrow> 't segments" where
  "closing active = (case active of Some t \<Rightarrow> [TagEnd t] | None \<Rightarrow> [])"

lemma line_finish_eq:
  "line_finish p = (let (p1, xs) = finish_buffer p in
     (p1\<lparr>tl_active_tag := None, tl_detect_tag := True\<rparr>, push_segments xs (closing (tl_active_tag p1))))"
  by (simp add: line_finish_def closing_def Let_def split: prod.splits option.splits)

lemma last_line:
  assumes "tl_detect_tag p" and "tl_line_buffer p = []" and "utf8 x" and "LF \<notin> set x" and "x \<noteq> []"
  shows "\<exists>q ys. line_steps p (chars x) = (q, ys)
    \<and> merge_segments (ys @ snd (line_finish q)) =
       merge_segments (snd (tag_line (tl_specs p) (tl_active_tag p) x) @ closing (fst (tag_line (tl_specs p) (tl_active_tag p) x)))"
proof -
  from line_prefix [OF assms(1,2) chars_of_line [OF assms(3,4)]] show ?thesis
  proof
    assume "line_steps p (chars x) = (p\<lparr>tl_line_buffer := concat (chars x)\<rparr>, [])"
    then show ?thesis
      using assms(5) by (simp add: line_finish_eq finish_buffer_eq push_segments_assoc)
  next
    assume "\<exists>ys. line_steps p (chars x) = (p\<lparr>tl_detect_tag := False\<rparr>, ys)
      \<and> merge_segments ys = push_text p (concat (chars x)) [] \<and> disproved (tl_specs p) (concat (chars x))"
    then obtain ys where "line_steps p (chars x) = (p\<lparr>tl_detect_tag := False\<rparr>, ys)" "merge_segments ys = push_text p x []"
      "disproved (tl_specs p) x" by auto
    then show ?thesis
      using disproved_line(2) [of "tl_specs p" x "tl_active_tag p"] assms(2,4)
      by (simp add: line_finish_eq finish_buffer_def push_segments_assoc push_text_def)
  qed
qed

section \<open>Whole texts\<close>

text \<open>The lines of a text, each with its line feed.\<close>

fun split_inclusive :: "string \<Rightarrow> string list" where
  "split_inclusive [] = []"
| "split_inclusive (c # s) =
    (if c = LF then [c] # split_inclusive s
     else case split_inclusive s of [] \<Rightarrow> [[c]] | l # ls \<Rightarrow> (c # l) # ls)"

lemma split_inclusive_line: "LF \<notin> set x \<Longrightarrow> split_inclusive (x @ LF # r) = (x @ [LF]) # split_inclusive r"
  by (induction x) auto

lemma split_inclusive_last: "LF \<notin> set x \<Longrightarrow> x \<noteq> [] \<Longrightarrow> split_inclusive x = [x]"
proof (induction x)
  case (Cons c x)
  then show ?case by (cases x) auto
qed simp

text \<open>What a text means, line by line.\<close>

primrec tag_lines :: "'t tag_spec list \<Rightarrow> 't option \<Rightarrow> string list \<Rightarrow> 't segments" where
  "tag_lines specs active [] = closing active"
| "tag_lines specs active (l # ls) = (case tag_line specs active l of (a, xs) \<Rightarrow> xs @ tag_lines specs a ls)"

lemma parse_finish_lines:
  assumes "utf8 s" and "tl_detect_tag p" and "tl_line_buffer p = []"
  shows "merge_segments (snd (line_steps p (chars s)) @ snd (line_finish (fst (line_steps p (chars s)))))
    = merge_segments (tag_lines (tl_specs p) (tl_active_tag p) (split_inclusive s))"
  using assms
proof (induction "length s" arbitrary: s p rule: less_induct)
  case less
  show ?case
  proof (cases "LF \<in> set s")
    case True
    then obtain x r where s: "s = x @ LF # r" "LF \<notin> set x" by (meson split_list_first)
    let ?l = "x @ [LF]"
    have utf8: "utf8 x" "utf8 r" "utf8 ?l" using less.prems(1) s utf8_LF [of x r] utf8_LF [of x "[]"] by auto
    define a xs where "a = fst (tag_line (tl_specs p) (tl_active_tag p) ?l)" and "xs = snd (tag_line (tl_specs p) (tl_active_tag p) ?l)"
    obtain ys where ys: "line_steps p (chars ?l) = (p\<lparr>tl_active_tag := a\<rparr>, ys)" "merge_segments ys = merge_segments xs"
      using whole_line [OF less.prems(2,3) utf8(1) s(2)] by (auto simp: a_def xs_def)
    let ?q = "p\<lparr>tl_active_tag := a\<rparr>"
    define zs where "zs = snd (line_steps ?q (chars r)) @ snd (line_finish (fst (line_steps ?q (chars r))))"
    have "chars s = chars ?l @ chars r" using chars_append [OF utf8(3), of r] s(1) by simp
    then have "merge_segments (snd (line_steps p (chars s)) @ snd (line_finish (fst (line_steps p (chars s))))) = merge_segments (ys @ zs)"
      by (simp add: line_steps_append ys(1) zs_def)
    also have "\<dots> = merge_segments (xs @ merge_segments zs)" using ys(2) by (simp add: push_segments_assoc)
    also have "merge_segments zs = merge_segments (tag_lines (tl_specs p) a (split_inclusive r))"
      using less.hyps [of r ?q] s(1) utf8(2) less.prems(2,3) by (simp add: zs_def)
    finally show ?thesis
      using s by (simp add: split_inclusive_line push_segments_assoc a_def xs_def case_prod_beta)
  next
    case False
    show ?thesis
    proof (cases "s = []")
      case True
      then show ?thesis using less.prems(3) by (simp add: line_finish_eq finish_buffer_def push_segments_assoc)
    next
      case nonempty: False
      with False last_line [OF less.prems(2,3,1)] show ?thesis
        by (auto simp: split_inclusive_last case_prod_beta)
    qed
  qed
qed

end
