(* ===== verification/Plan_Blocks.thy ===== *)
theory Plan_Blocks
  imports Tagged_Lines
begin

text \<open>The parser of proposed plans (\<^verbatim>\<open>proposed_plan.rs\<close>): blocks between two tags that stand
  alone on their lines.  Its stream is the text read line by line.\<close>

section \<open>The parser\<close>

definition OPEN_TAG :: string where "OPEN_TAG = ''<proposed_plan>''"
definition CLOSE_TAG :: string where "CLOSE_TAG = ''</proposed_plan>''"

datatype plan_tag = ProposedPlan

datatype proposed_plan_segment = NormalText string | ProposedPlanStart | ProposedPlanDelta string | ProposedPlanEnd

type_synonym proposed_plan_parser = "plan_tag tagged_line_parser"

definition plan_spec :: "plan_tag tag_spec" where
  "plan_spec = \<lparr>ts_open = OPEN_TAG, ts_close = CLOSE_TAG, ts_tag = ProposedPlan\<rparr>"

definition proposed_plan_parser_new :: proposed_plan_parser where
  "proposed_plan_parser_new = tagged_line_parser_new [plan_spec]"

fun plan_segment :: "plan_tag tagged_line_segment \<Rightarrow> proposed_plan_segment" where
  "plan_segment (Normal s) = NormalText s"
| "plan_segment (TagStart ProposedPlan) = ProposedPlanStart"
| "plan_segment (TagDelta ProposedPlan s) = ProposedPlanDelta s"
| "plan_segment (TagEnd ProposedPlan) = ProposedPlanEnd"

definition map_segments :: "plan_tag segments \<Rightarrow> proposed_plan_segment stream_text_chunk" where
  "map_segments segments =
    foldl (\<lambda>out segment.
        let mapped = plan_segment segment;
            out = (case mapped of NormalText s \<Rightarrow> out\<lparr>visible_text := visible_text out @ s\<rparr> | _ \<Rightarrow> out)
        in out\<lparr>extracted := extracted out @ [mapped]\<rparr>)
      default_chunk segments"

definition plan_push_str :: "(proposed_plan_parser, proposed_plan_segment) push_fn" where
  "plan_push_str p chunk = Some (apsnd map_segments (parse p chunk))"

definition plan_finish :: "(proposed_plan_parser, proposed_plan_segment) finish_fn" where
  "plan_finish p = apsnd map_segments (line_finish p)"

definition strip_proposed_plan_blocks :: "string \<Rightarrow> string" where
  "strip_proposed_plan_blocks s =
    (case parse proposed_plan_parser_new s of (p, segments) \<Rightarrow>
       visible_text (map_segments segments) @ visible_text (snd (plan_finish p)))"

definition plan_text_step :: "string \<times> bool \<Rightarrow> proposed_plan_segment \<Rightarrow> string \<times> bool" where
  "plan_text_step = (\<lambda>(plan_text, saw_plan_block) segment.
     case segment of
       ProposedPlanStart \<Rightarrow> ([], True)
     | ProposedPlanDelta delta \<Rightarrow> (plan_text @ delta, saw_plan_block)
     | _ \<Rightarrow> (plan_text, saw_plan_block))"

definition extract_proposed_plan_text :: "string \<Rightarrow> string option" where
  "extract_proposed_plan_text s =
    (case parse proposed_plan_parser_new s of (p, segments) \<Rightarrow>
     case foldl plan_text_step ([], False) (extracted (map_segments segments) @ extracted (snd (plan_finish p))) of
       (plan_text, saw_plan_block) \<Rightarrow> if saw_plan_block then Some plan_text else None)"

section \<open>Segments of a plan\<close>

primrec normal_text :: "'t tagged_line_segment \<Rightarrow> string" where
  "normal_text (Normal s) = s"
| "normal_text (TagStart t) = []"
| "normal_text (TagDelta t s) = []"
| "normal_text (TagEnd t) = []"

lemma map_segments_eq: "map_segments segments = \<lparr>visible_text = concat (map normal_text segments), extracted = map plan_segment segments\<rparr>"
proof (induction segments rule: rev_induct)
  case Nil
  then show ?case by (simp add: map_segments_def default_chunk_def)
next
  case (snoc x xs)
  show ?case
    using snoc by (cases x rule: plan_segment.cases) (simp_all add: map_segments_def Let_def)
qed

lemma normal_text_push: "concat (map normal_text (push_segment segments x)) = concat (map normal_text segments) @ normal_text x"
  by (cases segments rule: rev_cases; cases x) (auto simp: last_opt_def split: tagged_line_segment.splits)

lemma normal_text_merge: "concat (map normal_text (push_segments segments xs)) = concat (map normal_text segments) @ concat (map normal_text xs)"
  by (induction xs arbitrary: segments) (simp_all add: normal_text_push del: push_segment.simps)

fun line_segment :: "proposed_plan_segment \<Rightarrow> plan_tag tagged_line_segment" where
  "line_segment (NormalText s) = Normal s"
| "line_segment ProposedPlanStart = TagStart ProposedPlan"
| "line_segment (ProposedPlanDelta s) = TagDelta ProposedPlan s"
| "line_segment ProposedPlanEnd = TagEnd ProposedPlan"

lemma line_segment_inverse [simp]: "line_segment (plan_segment x) = x"
  by (cases x rule: plan_segment.cases) simp_all

lemma line_segments_inverse [simp]: "map (line_segment \<circ> plan_segment) xs = xs"
  by (simp add: comp_def)

definition merge_plan :: "proposed_plan_segment list \<Rightarrow> proposed_plan_segment list" where
  "merge_plan xs = map plan_segment (merge_segments (map line_segment xs))"

interpretation plan: stream_text_parser plan_push_str plan_finish "\<lambda>_. True" merge_plan
proof
  fix s :: proposed_plan_parser and a b s1 c1 s2 c2 and xs ys
  show "\<exists>c. plan_push_str s (a @ b) = Some (s2, c) \<and> visible_text c = visible_text c1 @ visible_text c2
      \<and> merge_plan (extracted c) = merge_plan (extracted c1 @ extracted c2)"
    if pushes: "utf8 a" "utf8 b" "plan_push_str s a = Some (s1, c1)" "plan_push_str s1 b = Some (s2, c2)"
  proof -
    obtain xs ys where "parse s a = (s1, xs)" "c1 = map_segments xs" "parse s1 b = (s2, ys)" "c2 = map_segments ys"
      using pushes(3,4) by (cases "parse s a"; cases "parse s1 b") (auto simp: plan_push_str_def)
    with parse_append [OF pushes(1), of s s1 xs b s2 ys] show ?thesis
      by (simp add: plan_push_str_def map_segments_eq normal_text_merge merge_plan_def push_segments_assoc)
  qed
  show "merge_plan (merge_plan xs @ ys) = merge_plan (xs @ ys)" "merge_plan (xs @ merge_plan ys) = merge_plan (xs @ ys)"
    by (simp_all add: merge_plan_def push_segments_assoc)
qed (auto simp: plan_push_str_def parse_eq map_segments_eq default_chunk_def)

section \<open>Plans line by line\<close>

definition plan_lines :: "string \<Rightarrow> plan_tag segments" where
  "plan_lines s = tag_lines [plan_spec] None (split_inclusive s)"

lemma plan_whole_text:
  assumes "utf8 s"
  shows "\<exists>p xs ys. parse proposed_plan_parser_new s = (p, xs) \<and> line_finish p = ys
    \<and> merge_segments (xs @ snd ys) = merge_segments (plan_lines s)"
proof -
  have "merge_segments (snd (parse proposed_plan_parser_new s) @ snd (line_finish (fst (parse proposed_plan_parser_new s))))
    = merge_segments (plan_lines s)"
    using parse_finish_lines [OF assms, of proposed_plan_parser_new]
    by (simp add: parse_eq push_segments_assoc plan_lines_def proposed_plan_parser_new_def tagged_line_parser_new_def)
  then show ?thesis by (metis prod.collapse)
qed

text \<open>However a text is cut into chunks, the stream shows the lines outside plan blocks and extracts
  the segments of the text line by line, up to joining neighbouring pieces of text.\<close>

lemma plan_stream_by_lines:
  assumes "\<forall>a \<in> set as. utf8 a"
  shows "\<exists>c. collect plan_push_str plan_finish proposed_plan_parser_new as = Some c
    \<and> visible_text c = concat (map normal_text (plan_lines (concat as)))
    \<and> merge_plan (extracted c) = merge_plan (map plan_segment (plan_lines (concat as)))"
proof -
  let ?p = proposed_plan_parser_new and ?s = "concat as"
  have "utf8 ?s" using assms by (induction as) auto
  obtain c d where c: "collect plan_push_str plan_finish ?p as = Some c" "collect plan_push_str plan_finish ?p [?s] = Some d" "plan.same_chunk c d"
    using plan.collect_concat [of as ?p] assms by auto
  obtain q xs ys where q: "parse ?p ?s = (q, xs)" "line_finish q = ys" "merge_segments (xs @ snd ys) = merge_segments (plan_lines ?s)"
    using plan_whole_text [OF \<open>utf8 ?s\<close>] by blast
  have d: "d = append_chunk (map_segments xs) (map_segments (snd ys))"
    using c(2) q(1,2) by (simp add: collect_def plan_push_str_def plan_finish_def)
  have "merge_plan (extracted d) = merge_plan (map plan_segment (plan_lines ?s))"
    using q(3) by (simp add: d map_segments_eq merge_plan_def)
  moreover have "visible_text d = concat (map normal_text (plan_lines ?s))"
    using arg_cong [OF q(3), of "\<lambda>zs. concat (map normal_text zs)"] by (simp add: d map_segments_eq normal_text_merge del: foldl_append)
  ultimately show ?thesis using c(1,3) by (auto simp: plan.same_chunk_def)
qed

section \<open>Plans in prose\<close>

lemma plan_text_push:
  "foldl plan_text_step acc (map plan_segment (push_segment segments x))
    = plan_text_step (foldl plan_text_step acc (map plan_segment segments)) (plan_segment x)"
  by (cases segments rule: rev_cases; cases x rule: plan_segment.cases)
     (auto simp: last_opt_def plan_text_step_def split: tagged_line_segment.splits prod.splits plan_tag.splits)

lemma plan_text_merge:
  "foldl plan_text_step acc (map plan_segment (merge_segments xs)) = foldl plan_text_step acc (map plan_segment xs)"
  by (induction xs rule: rev_induct) (simp_all add: plan_text_push del: push_segment.simps)

lemma strip_plan_lines:
  assumes "utf8 s"
  shows "strip_proposed_plan_blocks s = concat (map normal_text (plan_lines s))"
proof -
  obtain p xs ys where p: "parse proposed_plan_parser_new s = (p, xs)" "line_finish p = ys"
    "merge_segments (xs @ snd ys) = merge_segments (plan_lines s)"
    using plan_whole_text [OF assms] by blast
  have "concat (map normal_text (xs @ snd ys)) = concat (map normal_text (plan_lines s))"
    using normal_text_merge [of "[]" "xs @ snd ys"] normal_text_merge [of "[]" "plan_lines s"] p(3) by simp
  with p(1,2) show ?thesis by (simp add: strip_proposed_plan_blocks_def plan_finish_def map_segments_eq)
qed

lemma extract_plan_lines:
  assumes "utf8 s"
  shows "extract_proposed_plan_text s =
    (case foldl plan_text_step ([], False) (map plan_segment (plan_lines s)) of (t, saw) \<Rightarrow> if saw then Some t else None)"
proof -
  obtain p xs ys where p: "parse proposed_plan_parser_new s = (p, xs)" "line_finish p = ys"
    "merge_segments (xs @ snd ys) = merge_segments (plan_lines s)"
    using plan_whole_text [OF assms] by blast
  have "foldl plan_text_step ([], False) (map plan_segment (xs @ snd ys)) = foldl plan_text_step ([], False) (map plan_segment (plan_lines s))"
    using plan_text_merge [of "([], False)" "xs @ snd ys"] plan_text_merge [of "([], False)" "plan_lines s"] p(3) by metis
  with p(1,2) show ?thesis by (simp add: extract_proposed_plan_text_def plan_finish_def map_segments_eq)
qed

lemma split_inclusive_append: "s = [] \<or> last s = LF \<Longrightarrow> split_inclusive (s @ t) = split_inclusive s @ split_inclusive t"
proof (induction s)
  case (Cons c s)
  have "split_inclusive s \<noteq> []" if "s \<noteq> []" using that by (cases s) (auto split: list.splits)
  with Cons show ?case by (cases "s = []") (auto split: list.splits)
qed simp

lemma concat_split_inclusive [simp]: "concat (split_inclusive s) = s"
  by (induction s) (auto split: list.splits)

lemma tag_lines_outside:
  "\<forall>l \<in> set ls. line_slug l \<noteq> OPEN_TAG
    \<Longrightarrow> tag_lines [plan_spec] None (ls @ rest) = map Normal ls @ tag_lines [plan_spec] None rest"
  by (induction ls) (auto simp: tag_line_def match_open_def match_close_def text_segment_def plan_spec_def)

lemma tag_lines_inside:
  "\<forall>l \<in> set ls. line_slug l \<noteq> CLOSE_TAG
    \<Longrightarrow> tag_lines [plan_spec] (Some ProposedPlan) (ls @ rest) = map (TagDelta ProposedPlan) ls @ tag_lines [plan_spec] (Some ProposedPlan) rest"
  by (induction ls) (auto simp: tag_line_def match_open_def match_close_def text_segment_def plan_spec_def split: option.splits)

lemma tag_line_block:
  "tag_line [plan_spec] None (OPEN_TAG @ [LF]) = (Some ProposedPlan, [TagStart ProposedPlan])"
  "tag_line [plan_spec] (Some ProposedPlan) (CLOSE_TAG @ [LF]) = (None, [TagEnd ProposedPlan])"
  by code_simp+

definition plan_block :: "string \<Rightarrow> string \<Rightarrow> string \<Rightarrow> string" where
  "plan_block before plan after = before @ OPEN_TAG @ [LF] @ plan @ CLOSE_TAG @ [LF] @ after"

lemma plan_lines_block:
  assumes "before = [] \<or> last before = LF" and "plan = [] \<or> last plan = LF"
    and "\<forall>l \<in> set (split_inclusive before). line_slug l \<noteq> OPEN_TAG" and "\<forall>l \<in> set (split_inclusive plan). line_slug l \<noteq> CLOSE_TAG"
    and "\<forall>l \<in> set (split_inclusive after). line_slug l \<noteq> OPEN_TAG"
  shows "plan_lines (plan_block before plan after) = map Normal (split_inclusive before) @ TagStart ProposedPlan
    # map (TagDelta ProposedPlan) (split_inclusive plan) @ TagEnd ProposedPlan # map Normal (split_inclusive after)"
proof -
  have "LF \<notin> set OPEN_TAG" "LF \<notin> set CLOSE_TAG" by code_simp+
  then have "split_inclusive (plan_block before plan after) = split_inclusive before @ (OPEN_TAG @ [LF])
      # split_inclusive plan @ (CLOSE_TAG @ [LF]) # split_inclusive after"
    using assms(1,2) by (simp add: plan_block_def split_inclusive_append split_inclusive_line)
  then show ?thesis
    using assms(3-5) tag_lines_outside [of "split_inclusive after" "[]"]
    by (simp add: plan_lines_def tag_lines_outside tag_lines_inside tag_line_block closing_def)
qed

text \<open>C38: A plan comes out as it was put in.  A text with a plan block is stripped to what
  stands before and after the block, and the extracted plan is its body, byte for byte, when the
  block begins on a line of its own and no line of the body is the closing tag and no line outside
  the opening tag.\<close>

theorem plan_block_roundtrip:
  assumes "utf8 (plan_block before plan after)"
    and "before = [] \<or> last before = LF" and "plan = [] \<or> last plan = LF"
    and "\<forall>l \<in> set (split_inclusive before). line_slug l \<noteq> OPEN_TAG" and "\<forall>l \<in> set (split_inclusive plan). line_slug l \<noteq> CLOSE_TAG"
    and "\<forall>l \<in> set (split_inclusive after). line_slug l \<noteq> OPEN_TAG"
  shows "strip_proposed_plan_blocks (plan_block before plan after) = before @ after
    \<and> extract_proposed_plan_text (plan_block before plan after) = Some plan"
proof -
  have normal: "map (normal_text \<circ> Normal) ls = ls" "map (normal_text \<circ> TagDelta t) ls = map (\<lambda>_. []) ls" for t ls
    by (simp_all add: comp_def)
  have step: "plan_text_step acc ProposedPlanStart = ([], True)" "plan_text_step acc ProposedPlanEnd = acc"
    "plan_text_step acc (NormalText s) = acc" "plan_text_step (t, b) (ProposedPlanDelta s) = (t @ s, b)" for acc s t b
    by (simp_all add: plan_text_step_def split: prod.splits)
  have outside: "foldl plan_text_step acc (map (plan_segment \<circ> Normal) ls) = acc" for acc ls
    by (induction ls) (simp_all add: step)
  have inside: "foldl plan_text_step (t, True) (map (plan_segment \<circ> TagDelta ProposedPlan) ls) = (t @ concat ls, True)" for t ls
    by (induction ls arbitrary: t) (simp_all add: step)
  note block = plan_lines_block [OF assms(2-6)]
  show ?thesis
    using strip_plan_lines [OF assms(1)] extract_plan_lines [OF assms(1)] unfolding block
    by (simp add: normal outside inside step)
qed

theorem plan_block_roundtrip_witness:
  "strip_proposed_plan_blocks (plan_block (''Here: <proposed_plan>'' @ [LF]) (''1. x'' @ [LF]) ''Done.'') = ''Here: <proposed_plan>'' @ [LF] @ ''Done.''
   \<and> extract_proposed_plan_text (plan_block (''Here: <proposed_plan>'' @ [LF]) (''1. x'' @ [LF]) ''Done.'') = Some (''1. x'' @ [LF])"
proof -
  let ?b = "''Here: <proposed_plan>'' @ [LF]" and ?p = "''1. x'' @ [LF]" and ?a = "''Done.''"
  have "utf8 (plan_block ?b ?p ?a)" "?b = [] \<or> last ?b = LF" "?p = [] \<or> last ?p = LF"
    "\<forall>l \<in> set (split_inclusive ?b). line_slug l \<noteq> OPEN_TAG" "\<forall>l \<in> set (split_inclusive ?p). line_slug l \<noteq> CLOSE_TAG"
    "\<forall>l \<in> set (split_inclusive ?a). line_slug l \<noteq> OPEN_TAG"
    by code_simp+
  from plan_block_roundtrip [OF this] show ?thesis by simp
qed

end
