(* ===== verification/Assistant_Text.thy ===== *)
theory Assistant_Text
  imports Citation_Streams Plan_Blocks
begin

text \<open>The parser of the assistant's text (\<^verbatim>\<open>assistant_text.rs\<close>): what the citation parser
  shows goes through the plan parser in plan mode.  Over a whole stream this is the composition of
  the two parsers on the whole text.\<close>

section \<open>The parser\<close>

record assistant_text_chunk =
  at_visible_text :: string
  at_citations :: "string list"
  at_plan_segments :: "proposed_plan_segment list"

definition default_assistant_chunk :: assistant_text_chunk where
  "default_assistant_chunk = \<lparr>at_visible_text = [], at_citations = [], at_plan_segments = []\<rparr>"

definition assistant_chunk_is_empty :: "assistant_text_chunk \<Rightarrow> bool" where
  "assistant_chunk_is_empty c \<longleftrightarrow> at_visible_text c = [] \<and> at_citations c = [] \<and> at_plan_segments c = []"

record assistant_text_stream_parser =
  as_plan_mode :: bool
  as_citations :: citation_stream_parser
  as_plan :: proposed_plan_parser

definition assistant_text_stream_parser_new :: "bool \<Rightarrow> assistant_text_stream_parser option" where
  "assistant_text_stream_parser_new plan_mode =
    map_option (\<lambda>c. \<lparr>as_plan_mode = plan_mode, as_citations = c, as_plan = proposed_plan_parser_new\<rparr>) citation_stream_parser_new"

definition parse_visible_text ::
    "assistant_text_stream_parser \<Rightarrow> string \<Rightarrow> (assistant_text_stream_parser \<times> assistant_text_chunk) option" where
  "parse_visible_text p s =
    (if \<not> as_plan_mode p then Some (p, default_assistant_chunk\<lparr>at_visible_text := s\<rparr>)
     else map_option (\<lambda>(plan, c).
            (p\<lparr>as_plan := plan\<rparr>,
             default_assistant_chunk\<lparr>at_visible_text := visible_text c, at_plan_segments := extracted c\<rparr>))
          (plan_push_str (as_plan p) s))"

definition assistant_push_str ::
    "assistant_text_stream_parser \<Rightarrow> string \<Rightarrow> (assistant_text_stream_parser \<times> assistant_text_chunk) option" where
  "assistant_push_str p chunk =
    Option.bind (citation_push_str (as_citations p) chunk) (\<lambda>(citations, c).
    map_option (apsnd (\<lambda>out. out\<lparr>at_citations := extracted c\<rparr>))
      (parse_visible_text (p\<lparr>as_citations := citations\<rparr>) (visible_text c)))"

definition finish_plan ::
    "assistant_text_stream_parser \<Rightarrow> assistant_text_chunk \<Rightarrow> assistant_text_stream_parser \<times> assistant_text_chunk" where
  "finish_plan p out =
    (if as_plan_mode p then
       case plan_finish (as_plan p) of (plan, tail) \<Rightarrow>
         (p\<lparr>as_plan := plan\<rparr>,
          if chunk_is_empty tail then out
          else out\<lparr>at_visible_text := at_visible_text out @ visible_text tail,
                   at_plan_segments := at_plan_segments out @ extracted tail\<rparr>)
     else (p, out))"

definition assistant_finish ::
    "assistant_text_stream_parser \<Rightarrow> (assistant_text_stream_parser \<times> assistant_text_chunk) option" where
  "assistant_finish p =
    (case citation_finish (as_citations p) of (citations, c) \<Rightarrow>
     map_option (\<lambda>(q, out). apsnd (\<lambda>out. out\<lparr>at_citations := extracted c\<rparr>) (finish_plan q out))
       (parse_visible_text (p\<lparr>as_citations := citations\<rparr>) (visible_text c)))"

text \<open>A whole stream: the pushes, the end, and their chunks one after the other.\<close>

definition append_assistant :: "assistant_text_chunk \<Rightarrow> assistant_text_chunk \<Rightarrow> assistant_text_chunk" where
  "append_assistant c d = \<lparr>at_visible_text = at_visible_text c @ at_visible_text d, at_citations = at_citations c @ at_citations d,
     at_plan_segments = at_plan_segments c @ at_plan_segments d\<rparr>"

primrec assistant_stream ::
    "assistant_text_stream_parser \<Rightarrow> string list \<Rightarrow> assistant_text_chunk option" where
  "assistant_stream p [] = map_option snd (assistant_finish p)"
| "assistant_stream p (a # as) =
    Option.bind (assistant_push_str p a) (\<lambda>(p1, c). map_option (append_assistant c) (assistant_stream p1 as))"

section \<open>Composition\<close>

text \<open>What the citation parser shows, push by push and at the end, and what it extracts.\<close>

primrec shown :: "citation_stream_parser \<Rightarrow> string list \<Rightarrow> (string list \<times> string list) option" where
  "shown p [] = Some ([visible_text (snd (citation_finish p))], extracted (snd (citation_finish p)))"
| "shown p (a # as) =
    Option.bind (citation_push_str p a) (\<lambda>(p1, c). map_option (\<lambda>(vs, es). (visible_text c # vs, extracted c @ es)) (shown p1 as))"

lemma shown_collect:
  "shown p as = Some (vs, es) \<Longrightarrow> collect citation_push_str citation_finish p as = Some \<lparr>visible_text = concat vs, extracted = es\<rparr>"
proof (induction as arbitrary: p vs es)
  case Nil
  then show ?case by (auto simp: collect_def)
next
  case (Cons a as)
  then show ?case by (fastforce simp: collect_def append_chunk_def split: Option.bind_splits)
qed

lemma shown_utf8:
  assumes "inline_ok p" and "\<forall>a \<in> set as. utf8 a"
  shows "\<exists>vs es. shown p as = Some (vs, es) \<and> (\<forall>v \<in> set vs. utf8 v)"
  using assms
proof (induction as arbitrary: p)
  case Nil
  then have "utf8 (it_pending p)" by (simp add: inline_ok_def parser_ok_def)
  then show ?case
    by (simp add: citation_finish_def inline_finish_def tag_contents_def push_visible_prefix_def close_tag_def split: option.splits)
next
  case (Cons a as)
  obtain p1 c where p1: "inline_push_str p a = Some (p1, c)" "goes_on p p1 c" "settled p1"
    using inline_push_returns [of p a] Cons.prems by (auto simp: inline_ok_def)
  then have "inline_ok p1" using Cons.prems(1) by (simp add: inline_ok_def goes_on_def)
  then obtain vs es where "shown p1 as = Some (vs, es)" "\<forall>v \<in> set vs. utf8 v"
    using Cons.IH [of p1] Cons.prems(2) by auto
  with p1 show ?case by (auto simp: citation_push_str_def tag_contents_def goes_on_def)
qed

lemma plan_collect_Cons:
  "plan_push_str p a = Some (p1, c) \<Longrightarrow> collect plan_push_str plan_finish p (a # as)
    = map_option (append_chunk c) (collect plan_push_str plan_finish p1 as)"
  by (simp add: collect_def option.map_comp comp_def apsnd_def map_prod_def case_prod_beta append_chunk_assoc)

lemma assistant_stream_plain:
  "\<not> as_plan_mode p \<Longrightarrow> shown (as_citations p) as = Some (vs, es)
    \<Longrightarrow> assistant_stream p as = Some \<lparr>at_visible_text = concat vs, at_citations = es, at_plan_segments = []\<rparr>"
proof (induction as arbitrary: p vs es)
  case Nil
  then show ?case
    by (auto simp: assistant_finish_def parse_visible_text_def finish_plan_def default_assistant_chunk_def split: prod.splits)
next
  case (Cons a as)
  then obtain q c vs' es' where q: "citation_push_str (as_citations p) a = Some (q, c)" "shown q as = Some (vs', es')"
    "vs = visible_text c # vs'" "es = extracted c @ es'" by (auto split: Option.bind_splits)
  with Cons.IH [of "p\<lparr>as_citations := q\<rparr>"] Cons.prems(1) show ?case
    by (simp add: assistant_push_str_def parse_visible_text_def default_assistant_chunk_def append_assistant_def)
qed

lemma assistant_stream_plan:
  "as_plan_mode p \<Longrightarrow> shown (as_citations p) as = Some (vs, es)
    \<Longrightarrow> assistant_stream p as = map_option (\<lambda>c. \<lparr>at_visible_text = visible_text c, at_citations = es, at_plan_segments = extracted c\<rparr>)
         (collect plan_push_str plan_finish (as_plan p) vs)"
proof (induction as arbitrary: p vs es)
  case Nil
  then show ?case
    by (auto simp: assistant_finish_def parse_visible_text_def finish_plan_def default_assistant_chunk_def plan_push_str_def
          collect_def chunk_is_empty_def append_chunk_def split: prod.splits)
next
  case (Cons a as)
  then obtain q c vs' es' where q: "citation_push_str (as_citations p) a = Some (q, c)" "shown q as = Some (vs', es')"
    "vs = visible_text c # vs'" "es = extracted c @ es'" by (auto split: Option.bind_splits)
  obtain r d where r: "plan_push_str (as_plan p) (visible_text c) = Some (r, d)"
    by (cases "apsnd map_segments (parse (as_plan p) (visible_text c))") (simp add: plan_push_str_def)
  with Cons.IH [of "p\<lparr>as_citations := q, as_plan := r\<rparr>" vs' es'] Cons.prems(1) q show ?case
    by (simp add: assistant_push_str_def parse_visible_text_def default_assistant_chunk_def append_assistant_def
          plan_collect_Cons option.map_comp comp_def append_chunk_def)
qed

definition sample_reply :: "string list" where
  "sample_reply = [''a<oai-mem-'', ''citation>doc</oai-mem-citation>'' @ [LF] @ ''<proposed'', ''_plan>'' @ [LF] @ ''x'', [LF]]"

text \<open>C5: The assistant's text is cleaned up the same however it streams in.  Whatever the
  chunks, the citations are those of the whole text.  Outside plan mode the visible text is the text
  without its citations; in plan mode it is in turn the lines of that text outside plan blocks, and
  the plan segments are its segments line by line, up to joining neighbouring pieces of text.\<close>

theorem assistant_text_composes:
  assumes "assistant_text_stream_parser_new plan_mode = Some p" and "\<forall>a \<in> set as. utf8 a"
  shows "\<exists>c visible cs. assistant_stream p as = Some c \<and> strip_citations (concat as) = Some (visible, cs)
    \<and> at_citations c = cs
    \<and> (if plan_mode
       then at_visible_text c = strip_proposed_plan_blocks visible
          \<and> merge_plan (at_plan_segments c) = merge_plan (map plan_segment (plan_lines visible))
       else at_visible_text c = visible \<and> at_plan_segments c = [])"
proof -
  have p: "p = \<lparr>as_plan_mode = plan_mode, as_citations = citation_start, as_plan = proposed_plan_parser_new\<rparr>"
    using assms(1) by (simp add: assistant_text_stream_parser_new_def citation_start)
  obtain vs es where vs: "shown citation_start as = Some (vs, es)" "\<forall>v \<in> set vs. utf8 v"
    using shown_utf8 [OF citation_start_ok assms(2)] by blast
  have stripped: "strip_citations (concat as) = Some (concat vs, es)"
    using shown_collect [OF vs(1)] citations.collect_concat [OF citation_start_ok assms(2)]
    by (auto simp: citation_collect citations.same_chunk_def citation_chunk_def strip_citations_split)
  have "utf8 (concat vs)" using vs(2) by (induction vs) auto
  show ?thesis
  proof (cases plan_mode)
    case True
    from plan_stream_by_lines [OF vs(2)] obtain c where "collect plan_push_str plan_finish proposed_plan_parser_new vs = Some c"
      "visible_text c = concat (map normal_text (plan_lines (concat vs)))"
      "merge_plan (extracted c) = merge_plan (map plan_segment (plan_lines (concat vs)))" by blast
    with True stripped assistant_stream_plan [of p as vs es] p vs(1) strip_plan_lines [OF \<open>utf8 (concat vs)\<close>] show ?thesis by simp
  next
    case False
    with stripped assistant_stream_plain [of p as vs es] p vs(1) show ?thesis by simp
  qed
qed

theorem assistant_text_composes_witness:
  "\<exists>c. assistant_stream (the (assistant_text_stream_parser_new True)) sample_reply = Some c
    \<and> at_citations c = [''doc''] \<and> at_visible_text c = ''a'' @ [LF]
    \<and> merge_plan (at_plan_segments c) = [NormalText (''a'' @ [LF]), ProposedPlanStart, ProposedPlanDelta (''x'' @ [LF]), ProposedPlanEnd]"
proof -
  have "assistant_text_stream_parser_new True = Some (the (assistant_text_stream_parser_new True))" "\<forall>a \<in> set sample_reply. utf8 a"
    by code_simp+
  from assistant_text_composes [OF this] obtain c visible cs where
    c: "assistant_stream (the (assistant_text_stream_parser_new True)) sample_reply = Some c"
    "strip_citations (concat sample_reply) = Some (visible, cs)" "at_citations c = cs"
    "at_visible_text c = strip_proposed_plan_blocks visible"
    "merge_plan (at_plan_segments c) = merge_plan (map plan_segment (plan_lines visible))" by auto
  have "strip_citations (concat sample_reply) = Some (''a'' @ [LF] @ ''<proposed_plan>'' @ [LF] @ ''x'' @ [LF], [''doc''])" by code_simp
  with c(2) have v: "visible = ''a'' @ [LF] @ ''<proposed_plan>'' @ [LF] @ ''x'' @ [LF]" "cs = [''doc'']" by simp_all
  have "strip_proposed_plan_blocks (''a'' @ [LF] @ ''<proposed_plan>'' @ [LF] @ ''x'' @ [LF]) = ''a'' @ [LF]"
    "merge_plan (map plan_segment (plan_lines (''a'' @ [LF] @ ''<proposed_plan>'' @ [LF] @ ''x'' @ [LF])))
      = [NormalText (''a'' @ [LF]), ProposedPlanStart, ProposedPlanDelta (''x'' @ [LF]), ProposedPlanEnd]"
    by code_simp+
  with c v show ?thesis by auto
qed

end
