(* ===== verification/Spec2Isabelle.thy ===== *)
theory Spec2Isabelle
  imports Patch_Roundtrip Patch_Verify Command_Line Gpu_Cleanup Gpu_Market Assistant_Text
begin

text \<open>
  This library verifies parts of Corbanu Terminal, a coding agent for the command line written in
  Rust (\<^verbatim>\<open>src/codex-rs\<close>).  The agent streams the answers of a language model, edits files by
  patches, runs commands under a policy, and rents GPU machines to serve models.  Six parts are
  modelled, and they meet where the program lets them meet.

  \<^bold>\<open>Conventions.\<close>  A string is its UTF-8 bytes, as in Rust; \<open>Utf8\<close> has the acceptance test of
  \<^verbatim>\<open>str::from_utf8\<close>, and where code slices strings it is proved that it slices between characters.
  A \<^verbatim>\<open>Result\<close> is a sum with the error on the left.  A panic is the value \<^const>\<open>None\<close> of an operation
  that can panic.  Integers are unbounded where the code checks or saturates, with the bounds
  written out, and stateful code passes its state explicitly.  Code outside the repository (file
  systems, the Starlark interpreter, JSON and shell quoting, Tree-sitter, GPU providers, the clock)
  is a parameter: an argument or a field of a record argument.  \<open>Prelude\<close> has the strings, paths,
  options and lists that all parts share.

  \<^bold>\<open>1. Patches\<close> (\<^verbatim>\<open>codex-rs/apply-patch\<close>).  A patch is parsed, checked against the files and shown to
  the user, and then applied.
  \<^item> \<open>Seek_Sequence\<close>, \<^verbatim>\<open>seek_sequence.rs\<close>: the search for the lines of a chunk, in four passes that
    compare more and more loosely.  The locale \<open>coarser\<close> orders the passes, and the search returns
    the first window under the strictest comparison that has one.
  \<^item> \<open>Patch_Parser\<close>, \<^verbatim>\<open>parser.rs\<close> and \<^verbatim>\<open>streaming_parser.rs\<close>: the state machine that reads a patch
    line by line.  It does not depend on how the text is cut into deltas, and the hunks it returns
    are complete.  \<open>Patch_Roundtrip\<close> prints hunks in the documented grammar and parses them back.
  \<^item> \<open>Patch_Lines\<close>, the text functions of \<^verbatim>\<open>lib.rs\<close>: replacements are disjoint, match their chunks,
    never panic, and keep line endings.
  \<^item> \<open>Patch_Files\<close>, the file functions of \<^verbatim>\<open>lib.rs\<close>: hunks applied over a record of file operations
    each of which may fail.  The delta replays and undoes what happened, also after a failure.
  \<^item> \<open>Patch_Verify\<close>, \<^verbatim>\<open>invocation.rs\<close>: what is proposed to the user is what is later applied.

  \<^bold>\<open>2. Execution policy\<close> (\<^verbatim>\<open>codex-rs/execpolicy\<close>).  \<open>Exec_Policy\<close> has rules, their matching and the
  evaluation of commands; the locale \<open>indexed_rules\<close> is the contract of the multimap from programs
  to rules.  The verdict is the strictest one, an overlay only tightens, and network rules compile
  to the last verdict on a host.  \<open>Policy_Files\<close> has the builtins of a rules file, which keep the
  examples written next to the rules, and the amendments that the user approves.

  \<^bold>\<open>3. Approval of commands\<close> (\<^verbatim>\<open>codex-rs/shell-command\<close>, \<^verbatim>\<open>codex-rs/core/src/exec_policy.rs\<close>).  Before a
  command runs, the policy is asked about every command inside it, and where no rule matches a fallback
  decides by the approval setting.
  \<^item> \<open>Shell_Syntax\<close>, \<^verbatim>\<open>bash.rs\<close> and \<^verbatim>\<open>shell_detect.rs\<close>: the three ways to read commands from a syntax
    tree.  The tree comes from Tree-sitter; \<open>bash_grammar\<close> names what is relied on of its grammar.  The
    plain and the here-document reading cover every command that is read literally.
  \<^item> \<open>Command_Safety\<close>, \<^verbatim>\<open>is_safe_command.rs\<close> and \<^verbatim>\<open>is_dangerous_command.rs\<close>: the two classifications.
    The bounded search for dangers agrees with an inductive definition, and nothing is both safe and
    dangerous.
  \<^item> \<open>Requirements_Policy\<close>, \<^verbatim>\<open>config/src/requirements_exec_policy.rs\<close>: the rules an administrator
    requires, none of which allows anything.
  \<^item> \<open>Exec_Approval\<close>, the evaluation in \<^verbatim>\<open>exec_policy.rs\<close> and the choice of the sandbox in
    \<^verbatim>\<open>tools/sandboxing.rs\<close>: dangers run unasked only by an explicit rule, the sandbox is left out only
    by rules, prompts follow the settings.
  \<^item> \<open>Policy_Manager\<close>, loading and amending in \<^verbatim>\<open>exec_policy.rs\<close>: required rules are always in force,
    and an approved amendment is enough for the same request.
  \<^item> \<open>Command_Line\<close>, \<^verbatim>\<open>apply-patch/src/standalone_executable.rs\<close> and
    \<^verbatim>\<open>execpolicy/src/execpolicycheck.rs\<close>, the two tools around parts 1 and 2: the first succeeds
    exactly if its patch is applied, the second prints the decision of the policy.

  \<^bold>\<open>4. The GPU ledger\<close> (\<^verbatim>\<open>codex-rs/state\<close>).  \<open>Gpu_Model\<close> has the rows of the tables and \<open>Gpu_Ledger\<close>
  every operation on them, one atomic transaction each.  \<open>Gpu_Invariants\<close> proves the schema
  constraints and the way a rental may change for any interleaving of operations, which is an
  inductive step relation.  \<open>Gpu_Leases\<close> proves that leases exclude other processes, that an operation
  begins once and that creation is idempotent.

  \<^bold>\<open>5. The GPU market\<close> (\<^verbatim>\<open>codex-rs/gpu-market\<close>).  \<open>Actions\<close> has the monad of fallible stateful
  handlers and the locale \<open>guarantee\<close>, for relations between the states before and after that
  every step keeps.  \<open>Gpu_Recipe\<close> has the manifests, \<open>Gpu_Controller\<close> every handler of the controller
  over the ledger and a record of provider functions, \<open>Gpu_Market\<close> search and confirmation.
  \<open>Gpu_Reconcile\<close> has the locales \<open>reconciliation\<close>, \<open>confirming\<close>, \<open>batches\<close> and \<open>claiming\<close>: the laws
  a relation has to satisfy so that every handler, a whole reconciliation and a batch of them keep
  it.  \<open>Gpu_Safety\<close>, \<open>Gpu_Confirmation\<close>, \<open>Gpu_Limits\<close>, \<open>Gpu_Authorization\<close> and \<open>Gpu_Cleanup\<close> interpret
  them: requests are sent once and never before they are recorded, terminations are confirmed on the
  provider's word only, limits are enforced, prices stay within what the user confirmed.  Calls to a
  provider are recorded in a log of the state so that these statements can be made.

  \<^bold>\<open>6. Streamed text\<close> (\<^verbatim>\<open>codex-rs/utils/stream-parser\<close>).  \<open>Stream_Text\<close> has the chunk, the locale
  \<open>stream_text_parser\<close> for the trait of incremental parsers and the decoder of raw bytes, which is
  verified once for all parsers.  \<open>Inline_Tags\<close>, \<open>Inline_Streams\<close> and \<open>Citation_Streams\<close> have hidden
  inline tags and citations, \<open>Tagged_Lines\<close> and \<open>Plan_Blocks\<close> tags that stand on lines, and
  \<open>Assistant_Text\<close> their composition.  The parsers agree with a function on the whole text however the
  stream is cut.

  \<^bold>\<open>Loops.\<close>  The loop of the hidden-tag parser is a partial function into options and is proved to
  return for every parser its constructor accepts.  The loops that retry a rental over several
  states run as often as the code's own bound allows.  The search for dangerous commands stops behind
  eight wrappers, the bound of the code, and walks over syntax trees end because trees are finite.  All other loops are total recursive functions.
  No definition has fuel of its own.

  \<^bold>\<open>Not modelled.\<close>  Within the parts above: the parsing of command line options and the
  JSON output of the policy check (\<^verbatim>\<open>execpolicy/src/main.rs\<close>); unified
  diffs and the Tree-sitter query for a heredoc; the adapters that speak HTTP to Vast.ai and RunPod,
  the HTTP readiness probe and the encrypted vault, whose behaviour is that of remote services; the
  literal recipes built into the program; the classifications of commands for Windows, which call
  PowerShell; the asking of the user itself; and logging.  The other crates are not modelled: the terminal
  interface, the servers and their protocols are mostly input, output and generated schemas, the
  sandboxes and process handling are calls to the operating system, and the wallet and the network
  proxy rest on cryptographic and network libraries.
\<close>

section \<open>From the confirmation to the provider\<close>

text \<open>C2: The price a user confirms is the price that is rented at most.  When a user confirms an
  offer under an authorisation and any controllers, providers and users run from there on, every
  request to create the rental's instance, from whichever controller and however late, asks for a
  positive hourly price within the hourly limit of that authorisation.\<close>

theorem confirmed_limit_bounds_every_creation:
  fixes s :: "'w ctl"
  assumes "ledger_ok (ctl_db s)" and "market_ledger (ctl_db s)" and "ctl_log s = []"
    and "get_gpu_rental (''gpu-'' @ au_client_operation_id a) (ctl_db s) = None"
    and "confirm ms i selected a p now s = (Inr r, s1)" and "system_run s1 t"
    and "CreateCall (rental_id r) n rq \<in> set (ctl_log t)"
  shows "0 < of_hourly_microusd (cr_offer rq) \<and> of_hourly_microusd (cr_offer rq) \<le> au_maximum_hourly_microusd a"
proof -
  obtain rcp where "confirm_new ms rcp selected a p now s = (Inr r, s1)"
    using assms(4,5) by (auto elim!: confirm_run)
  note new = confirm_new_result [OF assms(2,4) this]
  then have r: "r \<in> set (db_rentals (ctl_db s1))" "max_hourly_microusd r = au_maximum_hourly_microusd a" "ctl_log s1 = []"
    using assms(3) by (auto simp: confirmed_under_def)
  have ok: "ledger_ok (ctl_db s1)"
    using guaranteesD [OF confirm_sound [of ms i selected a p now], of s] assms(1,5) by (simp add: sound_ctl_def sound_step_def)
  have t: "ledger_ok (ctl_db t)" "ledger_advances (ctl_db s1) (ctl_db t)"
    using system_run_sound [OF assms(6)] ok by (auto simp: sound_step_def)
  then obtain r1 where r1: "r1 \<in> set (db_rentals (ctl_db t))" "terms r1 = terms r"
    using r(1) by (auto simp: ledger_advances_def dest!: advances_terms)
  obtain r2 where r2: "r2 \<in> set (db_rentals (ctl_db t))" "rental_id r2 = rental_id r"
    "0 < of_hourly_microusd (cr_offer rq)" "of_hourly_microusd (cr_offer rq) \<le> max_hourly_microusd r2"
    using creation_authorised [OF ok r(3) assms(6,7)] by auto
  have "r1 = r2"
    using t(1) r1 r2 by (intro distinct_key [of rental_id "db_rentals (ctl_db t)"]) (auto simp: ledger_ok_def rentals_ok_def terms_eq_iff)
  with r1 r2 r(2) show ?thesis by (simp add: terms_eq_iff)
qed

theorem confirmed_limit_bounds_every_creation_witness:
  "CreateCall ''gpu-1'' 2 (creation_request market_rental market_recipe market_offer ''t'' None)
      \<in> set (ctl_log (snd (reconcile_due market_controller 10 market_confirmed)))
   \<and> of_hourly_microusd market_offer \<le> au_maximum_hourly_microusd market_authorization"
proof -
  have call: "CreateCall (rental_id market_rental) 2 (creation_request market_rental market_recipe market_offer ''t'' None)
      \<in> set (ctl_log (snd (reconcile_due market_controller 10 market_confirmed)))" by code_simp
  have c: "confirm market_service ''r1'' market_offer market_authorization (sample_provider True) 5 market_start
      = (Inr market_rental, market_confirmed)"
    using market_confirm(1) by (simp add: market_confirmed_def prod_eq_iff)
  have none: "get_gpu_rental (''gpu-'' @ au_client_operation_id market_authorization) (ctl_db market_start) = None" by code_simp
  have i: "rental_id market_rental = ''gpu-1''" by code_simp
  from confirmed_limit_bounds_every_creation [OF market_start_ok none c system_reconcile [OF system_refl] call] call i
  show ?thesis by (simp add: creation_request_def)
qed

end
